(* ===== verification/Audit_Prelude.thy ===== *)
theory Audit_Prelude
  imports Main "HOL-Library.Word" "HOL-Library.AList" "HOL-Library.Sublist"
begin

text \<open>
  Shared vocabulary of the development.  A Go \<open>string\<close> and a Go \<open>[]byte\<close> are both sequences
  of bytes, so both are \<open>string\<close> here (a HOL character is one byte).  A Go \<open>map\<close> that the code
  iterates over is an association list whose order is the iteration order of the run at hand: Go
  leaves that order unspecified, so theorems that should not depend on it are stated for every
  order.  The named collections gather the rewrite rules that the component proofs share.
\<close>

type_synonym bytes = string
type_synonym int64 = "64 word"
type_synonym int32 = "32 word"
type_synonym string_map = "(string \<times> string list) list"

named_theorems header_simps \<open>lookup laws of the http.Header operations\<close>
named_theorems file_simps \<open>laws of the temporary-file operations\<close>
named_theorems metric_simps \<open>laws of the metric instruments\<close>

section \<open>Generic lemmas on folds, association lists and options\<close>

lemma fold_invariant_list:
  assumes "P s" and "\<And>x s. x \<in> set xs \<Longrightarrow> P s \<Longrightarrow> P (f x s)"
  shows "P (fold f xs s)"
  using assms by (induction xs arbitrary: s) auto

lemma map_of_filter_key:
  "map_of (filter (\<lambda>kv. P (fst kv)) al) k = (if P k then map_of al k else None)"
  by (induction al) auto

lemma map_of_eq_None_notin: "k \<notin> fst ` set al \<Longrightarrow> map_of al k = None"
  by (simp add: map_of_eq_None_iff)

lemma concat_map_filter: "concat (map f (filter P xs)) = concat (map (\<lambda>x. if P x then f x else []) xs)"
  by (induction xs) auto

lemma take_append_take:
  "take n xs @ take (n - length (take n xs)) ys = take n (xs @ ys)"
  by (cases "length xs \<le> n") auto

section \<open>Signed readings of 64-bit counters\<close>

text \<open>\<open>of_nat n\<close> stored in an \<open>int64\<close> reads back as \<open>n\<close> below \<open>2 ^ 63\<close>.\<close>

lemma sint_of_nat_int64:
  assumes "n < 2 ^ 63"
  shows "sint (of_nat n :: int64) = int n"
proof -
  have "sint (of_nat n :: int64) = signed_take_bit 63 (int n)"
    by (simp add: sint_uint unsigned_of_nat of_nat_take_bit signed_take_bit_take_bit)
  also have "\<dots> = int n"
    using assms by (simp add: signed_take_bit_int_eq_self)
  finally show ?thesis .
qed

end
