(* ===== verification/Go_Strings.thy ===== *)
theory Go_Strings
  imports Audit_Prelude
begin

text \<open>
  The part of Go's \<open>strings\<close>, \<open>strconv\<close> and \<open>net\<close> packages that the proxy calls, on bytes:
  \<open>strings.TrimSpace\<close> (the Unicode spaces in their UTF-8 encodings included), \<open>strings.Split\<close>
  on a one-byte separator, \<open>strings.EqualFold\<close> against an ASCII constant (which also folds the
  Kelvin sign and the long s), \<open>strings.ToLower\<close> on ASCII, \<open>strconv.Itoa\<close>,
  \<open>strconv.FormatBool\<close> and \<open>net.SplitHostPort\<close>.
\<close>

section \<open>Trimming white space\<close>

definition ascii_spaces :: "char list" where
  "ascii_spaces = [CHR 0x09, CHR 0x0A, CHR 0x0B, CHR 0x0C, CHR 0x0D, CHR 0x20]"

text \<open>The UTF-8 encodings of the other runes that \<open>unicode.IsSpace\<close> accepts.\<close>

definition wide_spaces :: "string list" where
  "wide_spaces =
     [[CHR 0xC2, CHR 0x85], [CHR 0xC2, CHR 0xA0], [CHR 0xE1, CHR 0x9A, CHR 0x80],
      [CHR 0xE2, CHR 0x80, CHR 0x80], [CHR 0xE2, CHR 0x80, CHR 0x81],
      [CHR 0xE2, CHR 0x80, CHR 0x82], [CHR 0xE2, CHR 0x80, CHR 0x83],
      [CHR 0xE2, CHR 0x80, CHR 0x84], [CHR 0xE2, CHR 0x80, CHR 0x85],
      [CHR 0xE2, CHR 0x80, CHR 0x86], [CHR 0xE2, CHR 0x80, CHR 0x87],
      [CHR 0xE2, CHR 0x80, CHR 0x88], [CHR 0xE2, CHR 0x80, CHR 0x89],
      [CHR 0xE2, CHR 0x80, CHR 0x8A], [CHR 0xE2, CHR 0x80, CHR 0xA8],
      [CHR 0xE2, CHR 0x80, CHR 0xA9], [CHR 0xE2, CHR 0x80, CHR 0xAF],
      [CHR 0xE2, CHR 0x81, CHR 0x9F], [CHR 0xE3, CHR 0x80, CHR 0x80]]"

definition space_runes :: "string list" where
  "space_runes = map (\<lambda>c. [c]) ascii_spaces @ wide_spaces"

definition strip_rune :: "string list \<Rightarrow> string \<Rightarrow> string option" where
  "strip_rune rs s =
     (case find (\<lambda>r. r \<noteq> [] \<and> prefix r s) rs of
        None \<Rightarrow> None
      | Some r \<Rightarrow> Some (drop (length r) s))"

lemma strip_rune_shorter: "strip_rune rs s = Some t \<Longrightarrow> length t < length s"
  by (auto simp: strip_rune_def find_Some_iff split: option.splits)
     (metis diff_less length_greater_0_conv prefix_length_le le_zero_eq length_0_conv neq0_conv)

function trim_runes :: "string list \<Rightarrow> string \<Rightarrow> string" where
  "trim_runes rs s = (case strip_rune rs s of None \<Rightarrow> s | Some t \<Rightarrow> trim_runes rs t)"
  by pat_completeness auto
termination
  by (relation "measure (\<lambda>(rs, s). length s)") (auto intro: strip_rune_shorter)

declare trim_runes.simps [simp del]

definition trim_left :: "string \<Rightarrow> string" where
  "trim_left s = trim_runes space_runes s"

definition trim_right :: "string \<Rightarrow> string" where
  "trim_right s = rev (trim_runes (map rev space_runes) (rev s))"

definition trim_space :: "string \<Rightarrow> string" where
  "trim_space s = trim_right (trim_left s)"

lemma strip_rune_suffix: "strip_rune rs s = Some t \<Longrightarrow> suffix t s"
  by (auto simp: strip_rune_def suffix_drop split: option.splits)

lemma trim_runes_suffix: "suffix (trim_runes rs s) s"
proof (induction rs s rule: trim_runes.induct)
  case (1 rs s)
  show ?case
  proof (cases "strip_rune rs s")
    case None
    then show ?thesis by (simp add: trim_runes.simps [of rs s])
  next
    case (Some t)
    with 1 have "suffix (trim_runes rs t) t" by simp
    with strip_rune_suffix [OF Some] Some show ?thesis
      by (simp add: trim_runes.simps [of rs s])
  qed
qed

lemma trim_runes_fixed: "strip_rune rs (trim_runes rs s) = None"
proof (induction rs s rule: trim_runes.induct)
  case (1 rs s)
  show ?case
  proof (cases "strip_rune rs s")
    case None
    then show ?thesis by (simp add: trim_runes.simps [of rs s])
  next
    case (Some t)
    with 1 show ?thesis by (simp add: trim_runes.simps [of rs s])
  qed
qed

lemma trim_runes_id: "strip_rune rs s = None \<Longrightarrow> trim_runes rs s = s"
  by (simp add: trim_runes.simps)

lemma strip_rune_None_prefix:
  "strip_rune rs s = None \<Longrightarrow> prefix t s \<Longrightarrow> strip_rune rs t = None"
  by (auto simp: strip_rune_def find_None_iff split: option.splits dest: prefix_order.trans)

lemma trim_space_prefix_of_left: "prefix (trim_space s) (trim_left s)"
proof -
  have "suffix (rev (trim_space s)) (rev (trim_left s))"
    using trim_runes_suffix by (simp add: trim_space_def trim_right_def)
  then show ?thesis by (simp add: suffix_to_prefix)
qed

text \<open>\<open>TrimSpace\<close> is idempotent: its result has no space rune at either end.\<close>

lemma trim_left_trim_space: "trim_left (trim_space s) = trim_space s"
proof -
  have "strip_rune space_runes (trim_left s) = None"
    by (simp add: trim_left_def trim_runes_fixed)
  then have "strip_rune space_runes (trim_space s) = None"
    by (rule strip_rune_None_prefix) (rule trim_space_prefix_of_left)
  then show ?thesis by (simp add: trim_left_def trim_runes_id)
qed

lemma trim_right_idem: "trim_right (trim_right s) = trim_right s"
  by (simp add: trim_right_def trim_runes_id trim_runes_fixed)

lemma trim_space_idem [simp]: "trim_space (trim_space s) = trim_space s"
  using trim_left_trim_space [of s] by (simp add: trim_space_def [of "trim_space s"])
    (simp add: trim_space_def trim_right_idem)

lemma trim_space_Nil [simp]: "trim_space '''' = ''''"
  by (simp add: trim_space_def trim_left_def trim_right_def trim_runes.simps strip_rune_def
      space_runes_def ascii_spaces_def wide_spaces_def)

text \<open>A string without any space byte is left alone.\<close>

definition plain :: "string \<Rightarrow> bool" where
  "plain s \<longleftrightarrow> (\<forall>c \<in> set s. c \<notin> set ascii_spaces \<and> of_char c < (128::nat))"

lemma space_runes_first:
  "r \<in> set space_runes \<Longrightarrow> \<exists>c \<in> set r. c \<in> set ascii_spaces \<or> of_char c \<ge> (128::nat)"
proof -
  have "list_all (\<lambda>r. list_ex (\<lambda>c. c \<in> set ascii_spaces \<or> of_char c \<ge> (128::nat)) r) space_runes"
    by code_simp
  then show "r \<in> set space_runes \<Longrightarrow> ?thesis"
    by (auto simp: list_all_iff list_ex_iff)
qed

lemma strip_rune_plain:
  assumes "plain s"
  shows "strip_rune space_runes s = None" "strip_rune (map rev space_runes) (rev s) = None"
proof -
  have "\<not> sublist r s" if "r \<in> set space_runes" for r
    using space_runes_first [OF that] assms set_mono_sublist [of r s]
    by (force simp: plain_def)
  then show "strip_rune space_runes s = None"
    "strip_rune (map rev space_runes) (rev s) = None"
    by (auto simp: strip_rune_def find_None_iff split: option.splits
        simp flip: suffix_to_prefix)
qed

lemma trim_space_plain [simp]: "plain s \<Longrightarrow> trim_space s = s"
  by (simp add: trim_space_def trim_left_def trim_right_def trim_runes_id strip_rune_plain)

section \<open>Splitting and searching\<close>

text \<open>\<open>strings.Split(s, sep)\<close> for a one-byte separator: never empty, empty parts kept.\<close>

fun split_on :: "char \<Rightarrow> string \<Rightarrow> string list" where
  "split_on c [] = [[]]"
| "split_on c (x # xs) =
     (if x = c then [] # split_on c xs
      else (x # hd (split_on c xs)) # tl (split_on c xs))"

fun join_with :: "string \<Rightarrow> string list \<Rightarrow> string" where
  "join_with sep [] = ''''"
| "join_with sep [p] = p"
| "join_with sep (p # q # ps) = p @ sep @ join_with sep (q # ps)"

lemma split_on_nonempty [simp]: "split_on c s \<noteq> []"
  by (cases s) auto

lemma join_with_Cons: "ps \<noteq> [] \<Longrightarrow> join_with sep (p # ps) = p @ sep @ join_with sep ps"
  by (cases ps) auto

lemma join_split_on: "join_with [c] (split_on c s) = s"
proof (induction s)
  case (Cons x xs)
  obtain p ps where sp: "split_on c xs = p # ps"
    using split_on_nonempty [of c xs] by (cases "split_on c xs") auto
  have "join_with [c] ((x # p) # ps) = x # join_with [c] (p # ps)"
    by (cases ps) auto
  then show ?case
    using Cons sp by (auto simp: join_with_Cons)
qed simp

lemma split_on_no_sep: "p \<in> set (split_on c s) \<Longrightarrow> c \<notin> set p"
proof (induction s arbitrary: p)
  case (Cons x xs)
  obtain q qs where "split_on c xs = q # qs"
    using split_on_nonempty [of c xs] by (cases "split_on c xs") auto
  with Cons show ?case by (auto split: if_splits)
qed simp

lemma split_on_single: "c \<notin> set s \<Longrightarrow> split_on c s = [s]"
  by (induction s) auto

lemma split_on_append: "c \<notin> set p \<Longrightarrow> split_on c (p @ c # s) = p # split_on c s"
  by (induction p) auto

lemma split_on_part_subset: "p \<in> set (split_on c s) \<Longrightarrow> set p \<subseteq> set s"
proof (induction s arbitrary: p)
  case (Cons x xs)
  obtain q qs where "split_on c xs = q # qs"
    using split_on_nonempty [of c xs] by (cases "split_on c xs") auto
  with Cons show ?case by (auto split: if_splits) blast+
qed simp

text \<open>\<open>strings.IndexByte\<close> and \<open>strings.LastIndexByte\<close>; \<open>None\<close> stands for \<open>-1\<close>.\<close>

fun index_byte :: "char \<Rightarrow> string \<Rightarrow> nat option" where
  "index_byte c [] = None"
| "index_byte c (x # xs) = (if x = c then Some 0 else map_option Suc (index_byte c xs))"

definition last_index_byte :: "char \<Rightarrow> string \<Rightarrow> nat option" where
  "last_index_byte c s = map_option (\<lambda>j. length s - 1 - j) (index_byte c (rev s))"

lemma index_byte_None: "index_byte c s = None \<longleftrightarrow> c \<notin> set s"
  by (induction s) auto

lemma index_byte_append: "c \<notin> set p \<Longrightarrow> index_byte c (p @ c # s) = Some (length p)"
  by (induction p) auto

lemma last_index_byte_append: "c \<notin> set s \<Longrightarrow> last_index_byte c (p @ c # s) = Some (length p)"
  using index_byte_append [of c "rev s" "rev p"] by (simp add: last_index_byte_def)

lemma last_index_byte_None: "last_index_byte c s = None \<longleftrightarrow> c \<notin> set s"
  by (simp add: last_index_byte_def index_byte_None)

section \<open>Case\<close>

definition lower_char :: "char \<Rightarrow> char" where
  "lower_char c =
     (let n = of_char c :: nat in if 65 \<le> n \<and> n \<le> 90 then char_of (n + 32) else c)"

definition upper_char :: "char \<Rightarrow> char" where
  "upper_char c =
     (let n = of_char c :: nat in if 97 \<le> n \<and> n \<le> 122 then char_of (n - 32) else c)"

definition to_lower :: "string \<Rightarrow> string" where
  "to_lower s = map lower_char s"

text \<open>
  The simple case folding of \<open>strings.EqualFold\<close> as far as it meets ASCII: the letters, the long
  s (U+017F) which folds to \<open>s\<close>, and the Kelvin sign (U+212A) which folds to \<open>k\<close>.  Any other
  rune differs from every ASCII character, so \<open>equal_fold s t\<close> is \<open>EqualFold\<close> for an ASCII \<open>t\<close>,
  the only way the program calls it.
\<close>

fun fold_key :: "string \<Rightarrow> string" where
  "fold_key [] = []"
| "fold_key (c # cs) =
     (if c = CHR 0xC5 \<and> take 1 cs = [CHR 0xBF] then CHR ''s'' # fold_key (drop 1 cs)
      else if c = CHR 0xE2 \<and> take 2 cs = [CHR 0x84, CHR 0xAA] then CHR ''k'' # fold_key (drop 2 cs)
      else lower_char c # fold_key cs)"

definition equal_fold :: "string \<Rightarrow> string \<Rightarrow> bool" where
  "equal_fold s t \<longleftrightarrow> fold_key s = fold_key t"

lemma fold_key_Nil_iff [simp]: "fold_key s = [] \<longleftrightarrow> s = []"
  by (cases s) auto

lemma of_char_lower_char:
  "of_char (lower_char c) =
     (if 65 \<le> (of_char c :: nat) \<and> of_char c \<le> (90 :: nat) then of_char c + 32 else of_char c :: nat)"
  by (simp add: lower_char_def Let_def)

lemma of_char_upper_char:
  "of_char (upper_char c) =
     (if 97 \<le> (of_char c :: nat) \<and> of_char c \<le> (122 :: nat) then of_char c - 32 else of_char c :: nat)"
  by (auto simp: upper_char_def Let_def)

lemma char_eq_iff: "c = d \<longleftrightarrow> (of_char c :: nat) = of_char d"
  by (metis char_of_char)

lemma lower_char_idem [simp]: "lower_char (lower_char c) = lower_char c"
  by (auto simp: char_eq_iff of_char_lower_char)

lemma lower_upper_char [simp]: "lower_char (upper_char c) = lower_char c"
  by (auto simp: char_eq_iff of_char_lower_char of_char_upper_char)

lemma to_lower_idem [simp]: "to_lower (to_lower s) = to_lower s"
  by (simp add: to_lower_def)

lemma length_to_lower [simp]: "length (to_lower s) = length s"
  by (simp add: to_lower_def)

section \<open>Numbers and booleans\<close>

definition digit_char :: "nat \<Rightarrow> char" where
  "digit_char d = char_of (48 + d)"

function nat_digits :: "nat \<Rightarrow> string" where
  "nat_digits n = (if n < 10 then [digit_char n] else nat_digits (n div 10) @ [digit_char (n mod 10)])"
  by pat_completeness auto
termination
  by (relation "measure id") auto

declare nat_digits.simps [simp del]

text \<open>\<open>strconv.Itoa\<close>.\<close>

definition itoa :: "int \<Rightarrow> string" where
  "itoa i = (if i < 0 then CHR ''-'' # nat_digits (nat (- i)) else nat_digits (nat i))"

definition is_digit :: "char \<Rightarrow> bool" where
  "is_digit c \<longleftrightarrow> (let n = of_char c :: nat in 48 \<le> n \<and> n \<le> 57)"

fun nat_of_digits :: "nat \<Rightarrow> string \<Rightarrow> nat" where
  "nat_of_digits acc [] = acc"
| "nat_of_digits acc (c # cs) = nat_of_digits (10 * acc + (of_char c - 48)) cs"

lemma is_digit_digit_char: "d < 10 \<Longrightarrow> is_digit (digit_char d)"
  by (simp add: is_digit_def digit_char_def Let_def)

lemma of_char_digit_char: "d < 10 \<Longrightarrow> of_char (digit_char d) - 48 = d"
  by (simp add: digit_char_def)

lemma nat_digits_digits: "c \<in> set (nat_digits n) \<Longrightarrow> is_digit c"
proof (induction n rule: nat_digits.induct)
  case (1 n)
  show ?case
  proof (cases "n < 10")
    case True
    with "1.prems" show ?thesis by (simp add: nat_digits.simps [of n] is_digit_digit_char)
  next
    case False
    with 1 show ?thesis by (auto simp: nat_digits.simps [of n] is_digit_digit_char)
  qed
qed

lemma nat_digits_nonempty [simp]: "nat_digits n \<noteq> []"
  by (subst nat_digits.simps) simp

lemma nat_of_digits_append:
  "nat_of_digits acc (xs @ ys) = nat_of_digits (nat_of_digits acc xs) ys"
  by (induction xs arbitrary: acc) auto

lemma nat_of_nat_digits [simp]: "nat_of_digits 0 (nat_digits n) = n"
proof (induction n rule: nat_digits.induct)
  case (1 n)
  show ?case
  proof (cases "n < 10")
    case True
    then show ?thesis by (simp add: nat_digits.simps [of n] of_char_digit_char)
  next
    case False
    with 1 show ?thesis
      by (simp add: nat_digits.simps [of n] nat_of_digits_append of_char_digit_char)
  qed
qed

text \<open>No leading zero, unless the number is zero.\<close>

lemma nat_digits_hd: "n \<noteq> 0 \<Longrightarrow> hd (nat_digits n) \<noteq> CHR ''0''"
proof (induction n rule: nat_digits.induct)
  case (1 n)
  show ?case
  proof (cases "n < 10")
    case True
    with 1 have "of_char (digit_char n) \<noteq> (48 :: nat)" by (simp add: digit_char_def)
    with True show ?thesis by (auto simp: nat_digits.simps [of n])
  next
    case False
    with 1 show ?thesis by (simp add: nat_digits.simps [of n])
  qed
qed

definition format_bool :: "bool \<Rightarrow> string" where
  "format_bool b = (if b then ''true'' else ''false'')"

section \<open>net.SplitHostPort\<close>

datatype addr_error = Missing_Port | Missing_Close | Too_Many_Colons | Unexpected_Open | Unexpected_Close

definition finish_host_port :: "string \<Rightarrow> string \<Rightarrow> nat \<Rightarrow> nat \<Rightarrow> nat \<Rightarrow> addr_error + string \<times> string" where
  "finish_host_port s host j k i =
     (if CHR ''['' \<in> set (drop j s) then Inl Unexpected_Open
      else if CHR '']'' \<in> set (drop k s) then Inl Unexpected_Close
      else Inr (host, drop (Suc i) s))"

definition split_host_port :: "string \<Rightarrow> addr_error + string \<times> string" where
  "split_host_port s =
     (case last_index_byte CHR '':'' s of
        None \<Rightarrow> Inl Missing_Port
      | Some i \<Rightarrow>
          if hd s = CHR ''['' then
            (case index_byte CHR '']'' s of
               None \<Rightarrow> Inl Missing_Close
             | Some e \<Rightarrow>
                 if Suc e = length s then Inl Missing_Port
                 else if Suc e = i then finish_host_port s (drop 1 (take e s)) 1 (Suc e) i
                 else if s ! Suc e = CHR '':'' then Inl Too_Many_Colons
                 else Inl Missing_Port)
          else if CHR '':'' \<in> set (take i s) then Inl Too_Many_Colons
          else finish_host_port s (take i s) 0 0 i)"

text \<open>What \<open>net.JoinHostPort\<close> builds is split back: a plain host, and a bracketed IPv6 host.\<close>

definition host_chars_ok :: "string \<Rightarrow> bool" where
  "host_chars_ok h \<longleftrightarrow> CHR ''['' \<notin> set h \<and> CHR '']'' \<notin> set h"

lemma split_host_port_plain:
  assumes "host_chars_ok h" "host_chars_ok p" "CHR '':'' \<notin> set h" "CHR '':'' \<notin> set p"
  shows "split_host_port (h @ CHR '':'' # p) = Inr (h, p)"
proof -
  have "hd (h @ CHR '':'' # p) \<noteq> CHR ''[''"
    using assms(1) by (cases h) (auto simp: host_chars_ok_def)
  then show ?thesis
    using assms last_index_byte_append [OF assms(4), of h]
    by (simp add: split_host_port_def finish_host_port_def host_chars_ok_def)
qed

lemma split_host_port_bracketed:
  assumes "host_chars_ok h" "host_chars_ok p" "CHR '':'' \<notin> set p"
  shows "split_host_port (CHR ''['' # h @ CHR '']'' # CHR '':'' # p) = Inr (h, p)"
proof -
  let ?s = "CHR ''['' # h @ CHR '']'' # CHR '':'' # p"
  have li: "last_index_byte CHR '':'' ?s = Some (length h + 2)"
    using last_index_byte_append [OF assms(3), of "CHR ''['' # h @ [CHR '']'']"] by simp
  have ib: "index_byte CHR '']'' (h @ CHR '']'' # CHR '':'' # p) = Some (length h)"
    using index_byte_append [of "CHR '']''" h] assms(1) by (auto simp: host_chars_ok_def)
  show ?thesis
    using assms by (simp add: split_host_port_def li ib finish_host_port_def host_chars_ok_def)
qed

lemma split_host_port_no_port: "CHR '':'' \<notin> set s \<Longrightarrow> split_host_port s = Inl Missing_Port"
  by (simp add: split_host_port_def last_index_byte_None [THEN iffD2])

end
