(* ===== verification/Http_Header.thy ===== *)
theory Http_Header
  imports Go_Strings
begin

text \<open>
  \<open>net/http.Header\<close> as the proxy uses it: a map from keys to value lists whose operations
  \<open>Get\<close>, \<open>Values\<close>, \<open>Set\<close>, \<open>Add\<close> and \<open>Del\<close> canonicalise the key they are given, while ranging over the
  map and the builtin \<open>delete\<close> see the raw keys.  The contract the other components rely on is the
  locale \<open>header_store\<close>; it is interpreted on the association-list model at the end.
\<close>

type_synonym header = string_map

section \<open>Canonical keys\<close>

text \<open>\<open>validHeaderFieldByte\<close> of \<open>net/textproto\<close>: the token bytes of RFC 7230.\<close>

definition is_token_byte :: "char \<Rightarrow> bool" where
  "is_token_byte c \<longleftrightarrow>
     (let n = of_char c :: nat in
        (48 \<le> n \<and> n \<le> 57) \<or> (65 \<le> n \<and> n \<le> 90) \<or> (97 \<le> n \<and> n \<le> 122) \<or>
        c \<in> set (CHR 0x27 # CHR 0x60 # ''!#$%&*+-.^_|~''))"

fun canon_from :: "bool \<Rightarrow> string \<Rightarrow> string" where
  "canon_from up [] = []"
| "canon_from up (c # cs) =
     (let d = (if up then upper_char c else lower_char c) in d # canon_from (d = CHR ''-'') cs)"

text \<open>\<open>http.CanonicalHeaderKey\<close>: a key with a byte that is no token byte is left unchanged.\<close>

definition canonical_key :: "string \<Rightarrow> string" where
  "canonical_key s = (if list_all is_token_byte s then canon_from True s else s)"

lemma upper_char_idem [simp]: "upper_char (upper_char c) = upper_char c"
  by (auto simp: char_eq_iff of_char_upper_char)

lemma lower_char_dash: "lower_char c = CHR ''-'' \<longleftrightarrow> c = CHR ''-''"
  by (auto simp: char_eq_iff [of _ "CHR ''-''"] of_char_lower_char)

lemma upper_char_dash: "upper_char c = CHR ''-'' \<longleftrightarrow> c = CHR ''-''"
  by (auto simp: char_eq_iff [of _ "CHR ''-''"] of_char_upper_char)

lemma upper_lower_char [simp]: "upper_char (lower_char c) = upper_char c"
  by (auto simp: char_eq_iff of_char_upper_char of_char_lower_char)

lemma canon_from_idem [simp]: "canon_from up (canon_from up s) = canon_from up s"
  by (induction s arbitrary: up) (auto simp: Let_def lower_char_dash upper_char_dash)

lemma canon_from_to_lower: "canon_from up (to_lower s) = canon_from up s"
  by (induction s arbitrary: up) (auto simp: to_lower_def Let_def lower_char_dash upper_char_dash)

lemma to_lower_canon_from [simp]: "to_lower (canon_from up s) = to_lower s"
  by (induction s arbitrary: up) (auto simp: to_lower_def Let_def)


lemma letter_is_token_byte:
  "65 \<le> (of_char c :: nat) \<Longrightarrow> of_char c \<le> (90 :: nat) \<Longrightarrow> is_token_byte c"
  "97 \<le> (of_char c :: nat) \<Longrightarrow> of_char c \<le> (122 :: nat) \<Longrightarrow> is_token_byte c"
  by (simp_all add: is_token_byte_def Let_def)

lemma is_token_byte_lower [simp]: "is_token_byte (lower_char c) = is_token_byte c"
proof (cases "65 \<le> (of_char c :: nat) \<and> of_char c \<le> (90 :: nat)")
  case True
  then show ?thesis
    by (simp add: letter_is_token_byte of_char_lower_char)
next
  case False
  then have "lower_char c = c" by (auto simp: lower_char_def Let_def)
  then show ?thesis by simp
qed

lemma is_token_byte_upper [simp]: "is_token_byte (upper_char c) = is_token_byte c"
  by (metis is_token_byte_lower lower_upper_char)

lemma list_all_token_canon_from [simp]:
  "list_all is_token_byte (canon_from up s) = list_all is_token_byte s"
  by (induction s arbitrary: up) (auto simp: Let_def)

lemma canonical_key_idem [simp]: "canonical_key (canonical_key s) = canonical_key s"
  by (simp add: canonical_key_def)

lemma canon_from_append_dash:
  "canon_from up (p @ CHR ''-'' # s) = canon_from up (p @ [CHR ''-'']) @ canon_from True s"
  by (induction p arbitrary: up) (auto simp: Let_def upper_char_def lower_char_def)

declare canon_from.simps [simp del]

section \<open>The operations\<close>

definition header_values :: "header \<Rightarrow> string \<Rightarrow> string list" where
  "header_values h k = (case map_of h (canonical_key k) of None \<Rightarrow> [] | Some vs \<Rightarrow> vs)"

definition header_get :: "header \<Rightarrow> string \<Rightarrow> string" where
  "header_get h k = (case header_values h k of [] \<Rightarrow> '''' | v # _ \<Rightarrow> v)"

definition header_set :: "header \<Rightarrow> string \<Rightarrow> string \<Rightarrow> header" where
  "header_set h k v = AList.update (canonical_key k) [v] h"

definition header_add :: "header \<Rightarrow> string \<Rightarrow> string \<Rightarrow> header" where
  "header_add h k v = AList.update (canonical_key k) (header_values h k @ [v]) h"

definition header_del :: "header \<Rightarrow> string \<Rightarrow> header" where
  "header_del h k = AList.delete (canonical_key k) h"

text \<open>
  A header value is well formed when no key is listed twice, as in every Go map.  Headers read
  from the wire by \<open>net/http\<close> have canonical keys only.
\<close>

definition wf_header :: "header \<Rightarrow> bool" where
  "wf_header h \<longleftrightarrow> distinct (map fst h)"

definition canonical_header :: "header \<Rightarrow> bool" where
  "canonical_header h \<longleftrightarrow> (\<forall>k \<in> set (map fst h). canonical_key k = k)"

lemma map_of_header_set [header_simps]:
  "map_of (header_set h k v) = (map_of h)(canonical_key k \<mapsto> [v])"
  by (simp add: header_set_def update_conv')

lemma map_of_header_add [header_simps]:
  "map_of (header_add h k v) = (map_of h)(canonical_key k \<mapsto> header_values h k @ [v])"
  by (simp add: header_add_def update_conv')

lemma map_of_header_del [header_simps]:
  "map_of (header_del h k) = (map_of h)(canonical_key k := None)"
  by (simp add: header_del_def delete_conv')

lemma wf_header_ops [header_simps]:
  "wf_header h \<Longrightarrow> wf_header (header_set h k v)"
  "wf_header h \<Longrightarrow> wf_header (header_add h k v)"
  "wf_header h \<Longrightarrow> wf_header (header_del h k)"
  by (simp_all add: wf_header_def header_set_def header_add_def header_del_def distinct_update
      distinct_delete)

lemma canonical_header_ops [header_simps]:
  "canonical_header h \<Longrightarrow> canonical_header (header_set h k v)"
  "canonical_header h \<Longrightarrow> canonical_header (header_add h k v)"
  "canonical_header h \<Longrightarrow> canonical_header (header_del h k)"
  using dom_update [of _ _ h] delete_keys [of _ h]
  by (auto simp: canonical_header_def header_set_def header_add_def header_del_def)

lemma canonical_header_lookup:
  "canonical_header h \<Longrightarrow> map_of h k \<noteq> None \<Longrightarrow> canonical_key k = k"
  by (auto simp: canonical_header_def dest!: map_of_SomeD)

section \<open>The contract of a header store\<close>

text \<open>
  What every client of \<open>http.Header\<close> relies on, over an abstract store: \<open>look\<close> reads a raw key,
  the other operations act on the canonical form of their key.  The client lemmas are about the
  loops the proxy runs: deleting a list of keys, adding a list of values, and adding the values of
  a whole map.
\<close>

locale header_store =
  fixes look :: "'h \<Rightarrow> string \<Rightarrow> string list option"
    and set_key :: "'h \<Rightarrow> string \<Rightarrow> string \<Rightarrow> 'h"
    and add_key :: "'h \<Rightarrow> string \<Rightarrow> string \<Rightarrow> 'h"
    and del_key :: "'h \<Rightarrow> string \<Rightarrow> 'h"
    and canon :: "string \<Rightarrow> string"
  assumes canon_canon: "canon (canon k) = canon k"
    and look_set: "look (set_key h k v) = (look h)(canon k \<mapsto> [v])"
    and look_add: "look (add_key h k v) =
          (look h)(canon k \<mapsto> (case look h (canon k) of None \<Rightarrow> [] | Some vs \<Rightarrow> vs) @ [v])"
    and look_del: "look (del_key h k) = (look h)(canon k := None)"
begin

lemma look_fold_del:
  "look (fold (\<lambda>k h. del_key h k) ks h) k' = (if k' \<in> canon ` set ks then None else look h k')"
  by (induction ks arbitrary: h) (auto simp: look_del)

lemma look_fold_add:
  "look (fold (\<lambda>v h. add_key h k v) vs h) =
     (if vs = [] then look h
      else (look h)(canon k \<mapsto> (case look h (canon k) of None \<Rightarrow> [] | Some us \<Rightarrow> us) @ vs))"
proof (induction vs arbitrary: h)
  case (Cons v vs)
  then show ?case by (cases "vs = []") (auto simp: look_add split: option.splits)
qed simp

lemma look_fold_add_map:
  "look (fold (\<lambda>kv h. fold (\<lambda>v h. add_key h (f (fst kv)) v) (snd kv) h) kvs h) k =
     (let added = concat (map snd (filter (\<lambda>kv. canon (f (fst kv)) = k) kvs))
      in if added = [] then look h k
         else Some ((case look h k of None \<Rightarrow> [] | Some us \<Rightarrow> us) @ added))"
proof (induction kvs arbitrary: h)
  case (Cons kv kvs)
  then show ?case by (auto simp: look_fold_add Let_def split: option.splits)
qed simp

lemma set_after_del: "look (set_key (del_key h k) k v) = look (set_key h k v)"
  by (simp add: look_set look_del)

end

interpretation hdr: header_store map_of header_set header_add header_del canonical_key
  by unfold_locales (simp_all add: header_simps header_values_def)

text \<open>Reading back: the code-facing accessors after each operation.\<close>

lemma header_values_set [header_simps]:
  "header_values (header_set h k v) j =
     (if canonical_key j = canonical_key k then [v] else header_values h j)"
  by (simp add: header_values_def header_simps)

lemma header_values_del [header_simps]:
  "header_values (header_del h k) j =
     (if canonical_key j = canonical_key k then [] else header_values h j)"
  by (simp add: header_values_def header_simps)

lemma header_get_set [header_simps]:
  "header_get (header_set h k v) j = (if canonical_key j = canonical_key k then v else header_get h j)"
  by (simp add: header_get_def header_simps)

end
