(* ===== verification/Hop_Headers.thy ===== *)
theory Hop_Headers
  imports Http_Header
begin

text \<open>
  The header helpers at the end of \<open>pkg/proxy/handler.go\<close>: \<open>copyHeaders\<close>, \<open>hopByHop\<close>,
  \<open>stripHopByHopHeaders\<close> and \<open>appendForwardedFor\<close>, each with the lookup law that says what it does to
  every key.
\<close>

definition copy_headers :: "header \<Rightarrow> header \<Rightarrow> header" where
  "copy_headers dst src =
     fold (\<lambda>kv d. fold (\<lambda>value d. header_add d (fst kv) value) (snd kv) d) src dst"

definition hop_by_hop :: "string list" where
  "hop_by_hop =
     [''Connection'', ''Proxy-Connection'', ''Keep-Alive'', ''Proxy-Authenticate'',
      ''Proxy-Authorization'', ''Te'', ''Trailer'', ''Transfer-Encoding'', ''Upgrade'']"

definition strip_hop_by_hop_headers :: "header \<Rightarrow> header" where
  "strip_hop_by_hop_headers h =
     (let connection_values = header_values h ''Connection'';
          h = fold (\<lambda>key h. header_del h key) hop_by_hop h
      in fold (\<lambda>connection_value h.
                 fold (\<lambda>token h. header_del h (trim_space token)) (split_on CHR '','' connection_value) h)
           connection_values h)"

definition append_forwarded_for :: "header \<Rightarrow> string \<Rightarrow> header" where
  "append_forwarded_for h remote_addr =
     (let host = (case split_host_port remote_addr of Inl _ \<Rightarrow> remote_addr | Inr (host, _) \<Rightarrow> host);
          host = trim_space host
      in if host = '''' then h
         else
           let existing = header_get h ''X-Forwarded-For''
           in if existing = '''' then header_set h ''X-Forwarded-For'' host
              else header_set h ''X-Forwarded-For'' (existing @ '', '' @ host))"

section \<open>What is stripped\<close>

text \<open>The keys a \<open>Connection\<close> header nominates, as the code reads them.\<close>

definition connection_tokens :: "header \<Rightarrow> string list" where
  "connection_tokens h =
     concat (map (\<lambda>v. map trim_space (split_on CHR '','' v)) (header_values h ''Connection''))"

lemma canonical_hop_by_hop: "canonical_key ` set hop_by_hop = set hop_by_hop"
proof -
  have "list_all (\<lambda>k. canonical_key k = k) hop_by_hop" by code_simp
  then show ?thesis by (auto simp: list_all_iff)
qed

lemma fold_del_tokens:
  "fold (\<lambda>cv h. fold (\<lambda>tok h. header_del h (f tok)) (g cv) h) cvs h =
     fold (\<lambda>k h. header_del h k) (concat (map (\<lambda>cv. map f (g cv)) cvs)) h"
  by (induction cvs arbitrary: h) (simp_all add: fold_map comp_def)

lemma strip_hop_by_hop_as_fold:
  "strip_hop_by_hop_headers h =
     fold (\<lambda>k h. header_del h k) (hop_by_hop @ connection_tokens h) h"
  by (simp add: strip_hop_by_hop_headers_def Let_def fold_del_tokens connection_tokens_def)

lemma strip_lookup [header_simps]:
  "map_of (strip_hop_by_hop_headers h) k =
     (if k \<in> set hop_by_hop \<or> k \<in> canonical_key ` set (connection_tokens h) then None
      else map_of h k)"
  by (simp add: strip_hop_by_hop_as_fold hdr.look_fold_del image_Un canonical_hop_by_hop
      del: fold_append)

lemma connection_gone: "header_values (strip_hop_by_hop_headers h) ''Connection'' = []"
proof -
  have "canonical_key ''Connection'' = ''Connection''" by code_simp
  then show ?thesis by (simp add: header_values_def strip_lookup hop_by_hop_def)
qed

lemma canonical_header_strip [header_simps]:
  "canonical_header h \<Longrightarrow> canonical_header (strip_hop_by_hop_headers h)"
  by (simp add: strip_hop_by_hop_as_fold fold_invariant_list header_simps del: fold_append)

lemma wf_header_strip [header_simps]:
  "wf_header h \<Longrightarrow> wf_header (strip_hop_by_hop_headers h)"
  by (simp add: strip_hop_by_hop_as_fold fold_invariant_list header_simps del: fold_append)

section \<open>What is copied and appended\<close>

lemma copy_headers_lookup:
  "map_of (copy_headers dst src) k =
     (let added = concat (map snd (filter (\<lambda>kv. canonical_key (fst kv) = k) src))
      in if added = [] then map_of dst k
         else Some ((case map_of dst k of None \<Rightarrow> [] | Some us \<Rightarrow> us) @ added))"
  unfolding copy_headers_def by (rule hdr.look_fold_add_map)

lemma concat_filter_key:
  assumes "distinct (map fst al)"
  shows "concat (map snd (filter (\<lambda>kv. fst kv = k) al)) =
           (case map_of al k of None \<Rightarrow> [] | Some vs \<Rightarrow> vs)"
  using assms
proof (induction al)
  case (Cons kv al)
  have "filter (\<lambda>kv'. fst kv' = k) al = []" if "fst kv = k"
    using that Cons.prems by (auto simp: filter_empty_conv image_iff)
  with Cons show ?case by (cases kv) auto
qed simp

text \<open>Copying a well-formed canonical header into an empty one reproduces it.\<close>

lemma copy_headers_fresh:
  assumes "wf_header src" "canonical_header src"
  shows "header_values (copy_headers [] src) k = header_values src k"
proof -
  have "filter (\<lambda>kv. canonical_key (fst kv) = canonical_key k) src =
          filter (\<lambda>kv. fst kv = canonical_key k) src"
    using assms(2) by (intro filter_cong) (auto simp: canonical_header_def)
  then show ?thesis
    using concat_filter_key [of src "canonical_key k"] assms(1)
    by (auto simp: header_values_def copy_headers_lookup wf_header_def Let_def split: option.splits)
qed

definition peer_host :: "string \<Rightarrow> string" where
  "peer_host remote_addr =
     trim_space (case split_host_port remote_addr of Inl _ \<Rightarrow> remote_addr | Inr (host, _) \<Rightarrow> host)"

lemma canonical_xff: "canonical_key ''X-Forwarded-For'' = ''X-Forwarded-For''"
  by code_simp

lemma append_forwarded_for_lookup [header_simps]:
  "map_of (append_forwarded_for h r) k =
     (if peer_host r = '''' \<or> k \<noteq> ''X-Forwarded-For'' then map_of h k
      else Some [if header_get h ''X-Forwarded-For'' = '''' then peer_host r
                 else header_get h ''X-Forwarded-For'' @ '', '' @ peer_host r])"
  unfolding append_forwarded_for_def peer_host_def [symmetric] Let_def
  by (simp add: header_simps canonical_xff)

lemma canonical_header_forwarded [header_simps]:
  "canonical_header h \<Longrightarrow> canonical_header (append_forwarded_for h r)"
  by (simp add: append_forwarded_for_def Let_def header_simps)

lemma wf_header_forwarded [header_simps]:
  "wf_header h \<Longrightarrow> wf_header (append_forwarded_for h r)"
  by (simp add: append_forwarded_for_def Let_def header_simps)

end
