(* ===== verification/Go_Url.thy ===== *)
theory Go_Url
  imports Go_Strings "HOL-Library.List_Lexorder" "HOL-Library.Char_ord"
begin

text \<open>
  The part of \<open>net/url\<close> and \<open>net/http/httputil\<close> the proxy uses to address its backend: percent
  encoding, \<open>URL.EscapedPath\<close>, \<open>URL.RequestURI\<close>, \<open>URL.ResolveReference\<close> (the audited path),
  \<open>ProxyRequest.SetURL\<close> (the passthrough path), query parsing, and the clean-up of unparsable
  query parameters that \<open>ReverseProxy\<close> does.  A URL keeps the fields these functions read; a
  server-side request URL has no opaque part, user or fragment.
\<close>

record url =
  scheme :: string
  url_host :: string
  path :: string
  raw_path :: string
  force_query :: bool
  raw_query :: string

section \<open>Percent encoding\<close>

datatype enc_mode = Enc_Path | Enc_Path_Segment | Enc_Query

definition is_hex :: "char \<Rightarrow> bool" where
  "is_hex c \<longleftrightarrow>
     (let n = of_char c :: nat in
        (48 \<le> n \<and> n \<le> 57) \<or> (65 \<le> n \<and> n \<le> 70) \<or> (97 \<le> n \<and> n \<le> 102))"

definition unhex :: "char \<Rightarrow> nat" where
  "unhex c =
     (let n = of_char c :: nat in
        if n \<le> 57 then n - 48 else if n \<le> 70 then n - 55 else n - 87)"

definition upper_hex :: "nat \<Rightarrow> char" where
  "upper_hex d = (if d < 10 then char_of (48 + d) else char_of (55 + d))"

text \<open>\<open>%%%02X\<close>: the three bytes that encode one byte.\<close>

definition percent_byte :: "char \<Rightarrow> string" where
  "percent_byte c = (let n = of_char c :: nat in [CHR ''%'', upper_hex (n div 16), upper_hex (n mod 16)])"

fun unescape :: "enc_mode \<Rightarrow> string \<Rightarrow> string option" where
  "unescape m [] = Some []"
| "unescape m (c # cs) =
     (if c = CHR ''%'' then
        (if 2 \<le> length cs \<and> is_hex (cs ! 0) \<and> is_hex (cs ! 1)
         then map_option ((#) (char_of (16 * unhex (cs ! 0) + unhex (cs ! 1)))) (unescape m (drop 2 cs))
         else None)
      else map_option ((#) (if c = CHR ''+'' \<and> m = Enc_Query then CHR '' '' else c)) (unescape m cs))"

definition is_alnum :: "char \<Rightarrow> bool" where
  "is_alnum c \<longleftrightarrow>
     (let n = of_char c :: nat in
        (48 \<le> n \<and> n \<le> 57) \<or> (65 \<le> n \<and> n \<le> 90) \<or> (97 \<le> n \<and> n \<le> 122))"

definition should_escape :: "enc_mode \<Rightarrow> char \<Rightarrow> bool" where
  "should_escape m c =
     (if is_alnum c \<or> c \<in> set ''-_.~'' then False
      else if c \<in> set ''$&+,/:;=?@'' then
        (case m of
           Enc_Path \<Rightarrow> c = CHR ''?''
         | Enc_Path_Segment \<Rightarrow> c \<in> set ''/;,?''
         | Enc_Query \<Rightarrow> True)
      else True)"

definition escape :: "enc_mode \<Rightarrow> string \<Rightarrow> string" where
  "escape m s =
     concat (map (\<lambda>c. if should_escape m c
                       then if c = CHR '' '' \<and> m = Enc_Query then ''+'' else percent_byte c
                       else [c]) s)"

lemma of_char_less: "of_char c < (256 :: nat)"
  by (metis of_char_of of_char_mod_256 mod_less_divisor zero_less_numeral)

lemma of_char_upper_hex:
  "d < 16 \<Longrightarrow> (of_char (upper_hex d) :: nat) = (if d < 10 then 48 + d else 55 + d)"
  by (simp add: upper_hex_def)

lemma is_hex_upper_hex: "d < 16 \<Longrightarrow> is_hex (upper_hex d)"
  by (simp add: is_hex_def of_char_upper_hex Let_def)

lemma unhex_upper_hex: "d < 16 \<Longrightarrow> unhex (upper_hex d) = d"
  by (simp add: unhex_def of_char_upper_hex Let_def)

lemma unescape_percent_byte [simp]:
  "unescape m (percent_byte c @ s) = map_option ((#) c) (unescape m s)"
proof -
  have d: "of_char c div 16 < (16 :: nat)" "of_char c mod 16 < (16 :: nat)"
    using of_char_less [of c] by (auto intro: less_mult_imp_div_less)
  have "char_of (16 * (of_char c div 16) + of_char c mod (16 :: nat)) = c"
    by simp
  with d show ?thesis
    by (simp add: percent_byte_def Let_def is_hex_upper_hex unhex_upper_hex numeral_2_eq_2)
qed

text \<open>Decoding inverts encoding, byte for byte, in every mode.\<close>

lemma unescape_escape [simp]: "unescape m (escape m s) = Some s"
proof (induction s)
  case (Cons c s)
  have "c \<noteq> CHR ''%''" if "\<not> should_escape m c"
    using that by (auto simp: should_escape_def is_alnum_def split: if_splits)
  moreover have "\<not> (c = CHR ''+'' \<and> m = Enc_Query)" if "\<not> should_escape m c"
    using that by (auto simp: should_escape_def is_alnum_def split: if_splits)
  ultimately show ?case
    using Cons by (auto simp: escape_def)
qed (simp add: escape_def)

section \<open>Paths\<close>

definition valid_encoded_byte :: "char \<Rightarrow> bool" where
  "valid_encoded_byte c \<longleftrightarrow>
     c \<in> set (CHR 0x27 # ''!$&()*+,;=:@[]%'') \<or> \<not> should_escape Enc_Path c"

definition valid_encoded :: "string \<Rightarrow> bool" where
  "valid_encoded s \<longleftrightarrow> list_all valid_encoded_byte s"

text \<open>\<open>URL.EscapedPath\<close>: the raw path when it is a valid encoding of the path.\<close>

definition escaped_path :: "url \<Rightarrow> string" where
  "escaped_path u =
     (if raw_path u \<noteq> '''' \<and> valid_encoded (raw_path u) \<and>
         unescape Enc_Path (raw_path u) = Some (path u)
      then raw_path u
      else if path u = ''*'' then ''*''
      else escape Enc_Path (path u))"

text \<open>\<open>URL.RequestURI\<close>.\<close>

definition request_uri :: "url \<Rightarrow> string" where
  "request_uri u =
     (let p = (if escaped_path u = '''' then ''/'' else escaped_path u)
      in if force_query u \<or> raw_query u \<noteq> '''' then p @ ''?'' @ raw_query u else p)"

text \<open>\<open>URL.setPath\<close>; a path that does not decode leaves the URL as it was.\<close>

definition set_path :: "url \<Rightarrow> string \<Rightarrow> url" where
  "set_path u p =
     (case unescape Enc_Path p of
        None \<Rightarrow> u
      | Some q \<Rightarrow> u\<lparr>path := q, raw_path := (if p = escape Enc_Path q then '''' else p)\<rparr>)"

text \<open>The loop of \<open>resolvePath\<close>: one path element, with the output so far and \<open>first\<close>.\<close>

definition resolve_elem :: "string \<Rightarrow> string \<times> bool \<Rightarrow> string \<times> bool" where
  "resolve_elem e st =
     (case st of (dst, first) \<Rightarrow>
        if e = ''.'' then (dst, False)
        else if e = ''..'' then
          (case last_index_byte CHR ''/'' (drop 1 dst) of
             None \<Rightarrow> (''/'', True)
           | Some i \<Rightarrow> (''/'' @ take i (drop 1 dst), first))
        else (dst @ (if first then '''' else ''/'') @ e, False))"

definition resolve_path :: "string \<Rightarrow> string \<Rightarrow> string" where
  "resolve_path base ref =
     (let full = (if ref = '''' then base
                  else if hd ref \<noteq> CHR ''/'' then
                    (case last_index_byte CHR ''/'' base of
                       None \<Rightarrow> '''' | Some i \<Rightarrow> take (Suc i) base) @ ref
                  else ref)
      in if full = '''' then ''''
         else
           let elems = split_on CHR ''/'' full;
               dst = fst (fold resolve_elem elems (''/'', True));
               r = (if last elems = ''.'' \<or> last elems = ''..'' then dst @ ''/'' else dst)
           in if 1 < length r \<and> r ! 1 = CHR ''/'' then drop 1 r else r)"

text \<open>\<open>base.ResolveReference(ref)\<close> for a reference that has only a path and a query.\<close>

definition resolve_reference :: "url \<Rightarrow> url \<Rightarrow> url" where
  "resolve_reference base ref =
     (let u = ref\<lparr>scheme := scheme base, url_host := url_host base,
                  raw_query := (if path ref = '''' \<and> \<not> force_query ref \<and> raw_query ref = ''''
                                then raw_query base else raw_query ref)\<rparr>
      in set_path u (resolve_path (escaped_path base) (escaped_path ref)))"

definition single_joining_slash :: "string \<Rightarrow> string \<Rightarrow> string" where
  "single_joining_slash a b =
     (if suffix ''/'' a \<and> prefix ''/'' b then a @ drop 1 b
      else if \<not> suffix ''/'' a \<and> \<not> prefix ''/'' b then a @ ''/'' @ b
      else a @ b)"

definition join_url_path :: "url \<Rightarrow> url \<Rightarrow> string \<times> string" where
  "join_url_path a b =
     (if raw_path a = '''' \<and> raw_path b = ''''
      then (single_joining_slash (path a) (path b), '''')
      else
        let ap = escaped_path a; bp = escaped_path b
        in if suffix ''/'' ap \<and> prefix ''/'' bp then (path a @ drop 1 (path b), ap @ drop 1 bp)
           else if \<not> suffix ''/'' ap \<and> \<not> prefix ''/'' bp then (path a @ ''/'' @ path b, ap @ ''/'' @ bp)
           else (path a @ path b, ap @ bp))"

text \<open>\<open>ProxyRequest.SetURL(target)\<close> on the outbound URL.\<close>

definition set_url :: "url \<Rightarrow> url \<Rightarrow> url" where
  "set_url target u =
     (case join_url_path target u of (p, rp) \<Rightarrow>
        u\<lparr>scheme := scheme target, url_host := url_host target, path := p, raw_path := rp,
          raw_query :=
            (if raw_query target = '''' \<or> raw_query u = '''' then raw_query target @ raw_query u
             else raw_query target @ ''&'' @ raw_query u)\<rparr>)"

section \<open>Queries\<close>

text \<open>\<open>strings.Cut\<close> on a one-byte separator, without the found flag.\<close>

definition cut_on :: "char \<Rightarrow> string \<Rightarrow> string \<times> string" where
  "cut_on c s = (takeWhile (\<lambda>x. x \<noteq> c) s, drop 1 (dropWhile (\<lambda>x. x \<noteq> c) s))"

text \<open>One \<open>&\<close>-separated segment; empty, semicolon-carrying and undecodable ones are dropped.\<close>

definition parse_segment :: "string \<Rightarrow> (string \<times> string) option" where
  "parse_segment seg =
     (if seg = '''' \<or> CHR '';'' \<in> set seg then None
      else case cut_on CHR ''='' seg of (k, v) \<Rightarrow>
        (case (unescape Enc_Query k, unescape Enc_Query v) of
           (Some k', Some v') \<Rightarrow> Some (k', v')
         | _ \<Rightarrow> None))"

definition max_query_params :: nat where
  "max_query_params = 10000"

text \<open>
  \<open>URL.Query()\<close>: the pairs in order of occurrence, none at all when there are more segments than
  the \<open>urlmaxqueryparams\<close> limit.
\<close>

definition parse_query :: "string \<Rightarrow> (string \<times> string) list" where
  "parse_query q =
     (if max_query_params < length (split_on CHR ''&'' q) then []
      else List.map_filter parse_segment (split_on CHR ''&'' q))"

definition query_get :: "string \<Rightarrow> string \<Rightarrow> string" where
  "query_get q k = (case map_of (parse_query q) k of None \<Rightarrow> '''' | Some v \<Rightarrow> v)"

text \<open>\<open>Values.Encode\<close>: keys sorted, the values of a key in order of occurrence.\<close>

definition encode_query :: "(string \<times> string) list \<Rightarrow> string" where
  "encode_query kvs =
     join_with ''&''
       (map (\<lambda>(k, v). escape Enc_Query k @ ''='' @ escape Enc_Query v) (sort_key fst kvs))"

fun query_clean :: "string \<Rightarrow> bool" where
  "query_clean [] = True"
| "query_clean (c # cs) =
     (if c = CHR '';'' then False
      else if c = CHR ''%'' then
        2 \<le> length cs \<and> is_hex (cs ! 0) \<and> is_hex (cs ! 1) \<and> query_clean (drop 2 cs)
      else query_clean cs)"

definition clean_query_params :: "string \<Rightarrow> string" where
  "clean_query_params q = (if query_clean q then q else encode_query (parse_query q))"

section \<open>An absolute path without dot segments survives resolution unchanged\<close>

definition dot_free :: "string \<Rightarrow> bool" where
  "dot_free p \<longleftrightarrow> ''.'' \<notin> set (split_on CHR ''/'' p) \<and> ''..'' \<notin> set (split_on CHR ''/'' p)"

lemma fold_resolve_elem:
  "''.'' \<notin> set es \<Longrightarrow> ''..'' \<notin> set es \<Longrightarrow>
     fst (fold resolve_elem es (dst, False)) = dst @ concat (map (\<lambda>e. ''/'' @ e) es)"
  by (induction es arbitrary: dst) (auto simp: resolve_elem_def)

lemma concat_slash_split:
  "concat (map (\<lambda>e. CHR ''/'' # e) (split_on CHR ''/'' s)) = CHR ''/'' # s"
proof -
  have "es \<noteq> [] \<Longrightarrow> concat (map (\<lambda>e. CHR ''/'' # e) es) = CHR ''/'' # join_with ''/'' es" for es
  proof (induction es)
    case (Cons e es)
    then show ?case by (cases es) auto
  qed simp
  then show ?thesis by (simp add: join_split_on)
qed

lemma resolve_path_absolute:
  assumes "dot_free (CHR ''/'' # s)"
  shows "resolve_path base (CHR ''/'' # s) = CHR ''/'' # s"
proof -
  let ?es = "split_on CHR ''/'' s"
  have nodot: "''.'' \<notin> set ?es" "''..'' \<notin> set ?es"
    using assms by (auto simp: dot_free_def)
  then have last: "last ?es \<noteq> ''.''" "last ?es \<noteq> ''..''"
    using last_in_set [OF split_on_nonempty, of "CHR ''/''" s] by metis+
  have "fst (fold resolve_elem ([] # ?es) (''/'', True)) = CHR ''/'' # CHR ''/'' # s"
    using fold_resolve_elem [OF nodot, of "''/''"] concat_slash_split [of s]
    by (simp add: resolve_elem_def)
  with last show ?thesis by (simp add: resolve_path_def Let_def)
qed

lemma escaped_path_set_path:
  assumes "unescape Enc_Path p = Some q" "valid_encoded p" "q \<noteq> ''*''" "p \<noteq> ''''"
  shows "escaped_path (set_path u p) = p"
  using assms by (cases "p = escape Enc_Path q") (simp_all add: set_path_def escaped_path_def)

lemma valid_encoded_escape: "valid_encoded (escape Enc_Path s)"
proof -
  have hex: "\<not> should_escape Enc_Path (upper_hex d)" if "d < 16" for d
    using that by (auto simp: should_escape_def is_alnum_def Let_def of_char_upper_hex)
  have "list_all valid_encoded_byte (percent_byte c)" for c
    using of_char_less [of c] hex [of "of_char c div 16"] hex [of "of_char c mod 16"]
    by (simp add: percent_byte_def Let_def valid_encoded_byte_def less_mult_imp_div_less)
  then show ?thesis
    by (induction s) (simp_all add: valid_encoded_def escape_def valid_encoded_byte_def)
qed

lemma escaped_path_decodes:
  "path u \<noteq> ''*'' \<Longrightarrow>
     unescape Enc_Path (escaped_path u) = Some (path u) \<and> valid_encoded (escaped_path u)"
  by (auto simp: escaped_path_def valid_encoded_escape)

lemma unescape_Nil_iff: "unescape m s = Some [] \<longleftrightarrow> s = []"
  by (cases s) auto

text \<open>
  Resolving an absolute, dot-free request path against any base keeps its escaped form, and
  takes nothing but scheme and host from the base.
\<close>

lemma resolve_reference_absolute:
  assumes "escaped_path ref = CHR ''/'' # s" "dot_free (escaped_path ref)"
  shows "escaped_path (resolve_reference base ref) = escaped_path ref"
    and "scheme (resolve_reference base ref) = scheme base"
    and "url_host (resolve_reference base ref) = url_host base"
    and "path (resolve_reference base ref) = path ref"
proof -
  have star: "path ref \<noteq> ''*''"
  proof
    assume "path ref = ''*''"
    with assms(1) show False
      by (auto simp: escaped_path_def split: if_splits)
  qed
  note dec = escaped_path_decodes [OF star]
  have ne: "escaped_path ref \<noteq> ''''" using assms(1) by simp
  have res: "resolve_path (escaped_path base) (escaped_path ref) = escaped_path ref"
    using resolve_path_absolute assms by simp
  show "escaped_path (resolve_reference base ref) = escaped_path ref"
    using dec star ne by (simp add: resolve_reference_def res Let_def escaped_path_set_path)
  show "scheme (resolve_reference base ref) = scheme base"
    "url_host (resolve_reference base ref) = url_host base"
    "path (resolve_reference base ref) = path ref"
    using dec by (simp_all add: resolve_reference_def res Let_def set_path_def)
qed

end
