(* ===== verification/Backend_Identity.thy ===== *)
theory Backend_Identity
  imports Hop_Headers Go_Url "HOL-Library.Multiset"
begin

text \<open>
  \<open>pkg/proxy/backend_identity.go\<close>: what identity the proxy presents to the backend.  \<open>Apply\<close> only
  changes the header of the outbound request, so it is a function on headers.  The two
  implementations of the interface \<open>BackendIdentity\<close> are \<open>forwarder_apply\<close> and
  \<open>impersonator_apply\<close>; the contract both satisfy is the locale \<open>backend_identity_contract\<close>,
  whose lemmas say that nothing a client put in \<open>Impersonate-*\<close> or \<open>Authorization\<close> gets through.
\<close>

record user_info =
  username :: string
  uid :: string
  groups :: "string list"
  extra :: string_map

record impersonator_config =
  extra_keys :: "string list"
  cfg_forward_all_extras :: bool
  cfg_forward_uid :: bool

record impersonator =
  extra_key_allowlist :: "string set"
  forward_all_extras :: bool
  forward_uid :: bool

definition new_impersonator :: "impersonator_config \<Rightarrow> impersonator" where
  "new_impersonator cfg =
     \<lparr>extra_key_allowlist = set (extra_keys cfg),
      forward_all_extras = cfg_forward_all_extras cfg,
      forward_uid = cfg_forward_uid cfg\<rparr>"

section \<open>Stripping inbound identity headers\<close>

definition delete_headers_func :: "header \<Rightarrow> (string \<Rightarrow> bool) \<Rightarrow> header" where
  "delete_headers_func h match = filter (\<lambda>kv. \<not> match (canonical_key (fst kv))) h"

definition strip_inbound_identity_headers :: "header \<Rightarrow> header" where
  "strip_inbound_identity_headers h =
     delete_headers_func h
       (\<lambda>canonical. canonical = ''Authorization'' \<or> prefix ''X-Remote-'' canonical \<or>
                    prefix ''Impersonate-'' canonical)"

definition strip_impersonation_headers :: "header \<Rightarrow> header" where
  "strip_impersonation_headers h =
     delete_headers_func h
       (\<lambda>canonical. canonical = ''Authorization'' \<or> prefix ''Impersonate-'' canonical)"

section \<open>Escaping extra keys\<close>

text \<open>The \<open>[127]bool\<close> table, indexed by byte.\<close>

definition legal_header_key_chars :: string where
  "legal_header_key_chars =
     ''%!#$&'' @ CHR 0x27 # ''*+-.0123456789ABCDEFGHIJKLMNOPQRSTUWVXYZ^_'' @
     CHR 0x60 # ''abcdefghijklmnopqrstuvwxyz|~''"

definition legal_header_key_bytes :: "bool list" where
  "legal_header_key_bytes = map (\<lambda>i. char_of i \<in> set legal_header_key_chars) [0..<127]"

definition legal_header_key_byte :: "char \<Rightarrow> bool" where
  "legal_header_key_byte b \<longleftrightarrow>
     (let table = legal_header_key_bytes
      in of_char b < length table \<and> table ! of_char b)"

definition should_escape_header_key_byte :: "char \<Rightarrow> bool" where
  "should_escape_header_key_byte b \<longleftrightarrow> \<not> legal_header_key_byte b \<or> b = CHR ''%''"

definition header_key_escape :: "string \<Rightarrow> string" where
  "header_key_escape key =
     concat (map (\<lambda>b. if should_escape_header_key_byte b then percent_byte b else [b]) key)"

section \<open>The two implementations of Apply\<close>

definition forwarder_apply :: "header \<Rightarrow> user_info \<Rightarrow> header" where
  "forwarder_apply h user = strip_impersonation_headers h"

text \<open>The header names are the constants of \<open>k8s.io/client-go/transport\<close>.\<close>

definition extra_header_key :: "string \<Rightarrow> string" where
  "extra_header_key key = ''Impersonate-Extra-'' @ header_key_escape key"

definition impersonator_apply :: "impersonator \<Rightarrow> header \<Rightarrow> user_info \<Rightarrow> header" where
  "impersonator_apply i h user =
     (let h = strip_inbound_identity_headers h;
          h = header_set h ''Impersonate-User'' (username user);
          h = fold (\<lambda>group h. header_add h ''Impersonate-Group'' group) (groups user) h;
          h = (if forward_uid i \<and> uid user \<noteq> '''' then header_set h ''Impersonate-Uid'' (uid user) else h)
      in fold (\<lambda>kv h.
                 if \<not> forward_all_extras i \<and> fst kv \<notin> extra_key_allowlist i then h
                 else
                   let header_key = extra_header_key (fst kv)
                   in fold (\<lambda>value h. header_add h header_key value) (snd kv) h)
           (extra user) h)"

datatype backend_identity =
    Request_Header_Forwarder
  | Impersonator impersonator

fun apply_identity :: "backend_identity \<Rightarrow> header \<Rightarrow> user_info \<Rightarrow> header" where
  "apply_identity Request_Header_Forwarder h user = forwarder_apply h user"
| "apply_identity (Impersonator i) h user = impersonator_apply i h user"

section \<open>The escape table and the header keys it builds\<close>

lemma legal_header_key_byte_iff: "legal_header_key_byte b \<longleftrightarrow> b \<in> set legal_header_key_chars"
proof -
  have "list_all (\<lambda>c. of_char c < (127 :: nat)) legal_header_key_chars" by code_simp
  then have "of_char b < (127 :: nat)" if "b \<in> set legal_header_key_chars"
    using that by (auto simp: list_all_iff)
  then show ?thesis
    by (auto simp: legal_header_key_byte_def legal_header_key_bytes_def Let_def)
qed

text \<open>The table is exactly the token bytes, so an escaped key is a valid header key.\<close>

lemma token_byte_legal: "is_token_byte b \<Longrightarrow> b \<in> set legal_header_key_chars"
proof -
  let ?L = "set legal_header_key_chars"
  have all: "list_all (\<lambda>n. char_of n \<in> ?L) ([48..<58] @ [65..<91] @ [97..<123])"
    by code_simp
  have "set ([48..<58] @ [65..<91] @ [97..<123]) = {48..<58} \<union> {65..<91} \<union> {97..<123}"
    by (simp only: set_append set_upt Un_assoc)
  with all have range: "char_of n \<in> ?L" if "n \<in> {48..<58} \<union> {65..<91} \<union> {97..<123}" for n :: nat
    using that unfolding list_all_iff by metis
  have symbols: "list_all (\<lambda>c. c \<in> ?L) (CHR 0x27 # CHR 0x60 # ''!#$%&*+-.^_|~'')"
    by code_simp
  assume "is_token_byte b"
  then consider "of_char b \<in> {48..<58} \<union> {65..<91} \<union> {97..<123 :: nat}"
    | "b \<in> set (CHR 0x27 # CHR 0x60 # ''!#$%&*+-.^_|~'')"
    unfolding is_token_byte_def Let_def by force
  then show "b \<in> ?L"
  proof cases
    case 1
    then show ?thesis using range [of "of_char b"] by simp
  next
    case 2
    then show ?thesis using symbols unfolding list_all_iff by blast
  qed
qed

lemma legal_is_token_byte: "legal_header_key_byte b = is_token_byte b"
proof -
  have "list_all is_token_byte legal_header_key_chars" by code_simp
  then show ?thesis
    using token_byte_legal by (auto simp: legal_header_key_byte_iff list_all_iff)
qed

lemma upper_hex_token: "d < 16 \<Longrightarrow> is_token_byte (upper_hex d)"
  by (simp add: is_token_byte_def of_char_upper_hex Let_def)

lemma percent_byte_token: "list_all is_token_byte (percent_byte c)"
proof -
  have "is_token_byte CHR ''%''" by code_simp
  then show ?thesis
    using of_char_less [of c]
    by (simp add: percent_byte_def Let_def upper_hex_token less_mult_imp_div_less)
qed

lemma header_key_escape_Nil [simp]: "header_key_escape [] = []"
  by (simp add: header_key_escape_def)

lemma header_key_escape_Cons:
  "header_key_escape (c # cs) =
     (if should_escape_header_key_byte c then percent_byte c else [c]) @ header_key_escape cs"
  by (simp add: header_key_escape_def)

lemma header_key_escape_token: "list_all is_token_byte (header_key_escape key)"
  by (induction key)
     (auto simp: header_key_escape_Cons percent_byte_token should_escape_header_key_byte_def
       legal_is_token_byte)

lemma canonical_extra_header_key:
  "canonical_key (extra_header_key key) = ''Impersonate-Extra-'' @ canon_from True (header_key_escape key)"
proof -
  have tok: "list_all is_token_byte ''Impersonate-Extra-''" by code_simp
  have pre: "canon_from True ''Impersonate-Extra-'' = ''Impersonate-Extra-''" by code_simp
  have split: "extra_header_key key = ''Impersonate-Extra'' @ CHR ''-'' # header_key_escape key"
    by (simp add: extra_header_key_def)
  have "list_all is_token_byte (extra_header_key key)"
    using tok header_key_escape_token [of key] unfolding extra_header_key_def list_all_append by simp
  then have "canonical_key (extra_header_key key) = canon_from True (extra_header_key key)"
    by (simp add: canonical_key_def)
  also have "\<dots> = canon_from True (''Impersonate-Extra'' @ [CHR ''-'']) @ canon_from True (header_key_escape key)"
    unfolding split by (rule canon_from_append_dash)
  finally show ?thesis using pre by simp
qed

section \<open>Lookup laws\<close>

definition identity_key :: "string \<Rightarrow> bool" where
  "identity_key k \<longleftrightarrow>
     canonical_key k = ''Authorization'' \<or> prefix ''Impersonate-'' (canonical_key k)"

definition remote_key :: "string \<Rightarrow> bool" where
  "remote_key k \<longleftrightarrow> prefix ''X-Remote-'' (canonical_key k)"

lemma delete_headers_lookup:
  "map_of (delete_headers_func h match) k = (if match (canonical_key k) then None else map_of h k)"
  using map_of_filter_key [of "\<lambda>k. \<not> match (canonical_key k)" h k]
  by (simp add: delete_headers_func_def)

lemma forwarder_lookup [header_simps]:
  "map_of (forwarder_apply h u) k = (if identity_key k then None else map_of h k)"
  by (simp add: forwarder_apply_def strip_impersonation_headers_def delete_headers_lookup
      identity_key_def)

lemma strip_inbound_lookup [header_simps]:
  "map_of (strip_inbound_identity_headers h) k =
     (if identity_key k \<or> remote_key k then None else map_of h k)"
  by (simp add: strip_inbound_identity_headers_def delete_headers_lookup identity_key_def
      remote_key_def)

lemma canonical_impersonation_names:
  "canonical_key ''Impersonate-User'' = ''Impersonate-User''"
  "canonical_key ''Impersonate-Group'' = ''Impersonate-Group''"
  "canonical_key ''Impersonate-Uid'' = ''Impersonate-Uid''"
  "canonical_key ''Authorization'' = ''Authorization''"
  by code_simp+

definition extra_allowed :: "impersonator \<Rightarrow> string \<Rightarrow> bool" where
  "extra_allowed i key \<longleftrightarrow> forward_all_extras i \<or> key \<in> extra_key_allowlist i"

text \<open>The values an identity projects into one \<open>Impersonate-Extra-*\<close> header.\<close>

definition projected_extra :: "impersonator \<Rightarrow> user_info \<Rightarrow> string \<Rightarrow> string list" where
  "projected_extra i u k =
     concat (map snd (filter (\<lambda>kv. extra_allowed i (fst kv) \<and> canonical_key (extra_header_key (fst kv)) = k)
                             (extra u)))"

lemma projected_extra_prefix:
  assumes "projected_extra i u k \<noteq> []"
  shows "prefix ''Impersonate-Extra-'' k \<and> canonical_key k = k"
proof -
  from assms obtain kv where "canonical_key (extra_header_key (fst kv)) = k"
    unfolding projected_extra_def by (auto simp: concat_eq_Nil_conv)
  then have k: "k = canonical_key (extra_header_key (fst kv))" by simp
  show ?thesis
    unfolding k canonical_key_idem by (simp add: canonical_extra_header_key)
qed

lemma fold_skip: "fold (\<lambda>x s. if P x then s else f x s) xs s = fold f (filter (\<lambda>x. \<not> P x) xs) s"
  by (induction xs arbitrary: s) auto

lemma impersonator_lookup [header_simps]:
  "map_of (impersonator_apply i h u) k =
     (if projected_extra i u k \<noteq> [] then Some (projected_extra i u k)
      else if k = ''Impersonate-Uid'' \<and> forward_uid i \<and> uid u \<noteq> '''' then Some [uid u]
      else if k = ''Impersonate-Group'' \<and> groups u \<noteq> [] then Some (groups u)
      else if k = ''Impersonate-User'' then Some [username u]
      else if identity_key k \<or> remote_key k then None
      else map_of h k)"
proof -
  let ?s = "strip_inbound_identity_headers h"
  let ?g = "fold (\<lambda>group h. header_add h ''Impersonate-Group'' group) (groups u)
              (header_set ?s ''Impersonate-User'' (username u))"
  let ?b = "if forward_uid i \<and> uid u \<noteq> '''' then header_set ?g ''Impersonate-Uid'' (uid u) else ?g"
  have grp: "map_of ?g k' =
      (if k' = ''Impersonate-Group'' \<and> groups u \<noteq> [] then Some (groups u)
       else if k' = ''Impersonate-User'' then Some [username u] else map_of ?s k')" for k'
    by (simp add: hdr.look_fold_add header_simps canonical_impersonation_names identity_key_def)
  have base: "map_of ?b k' =
      (if k' = ''Impersonate-Uid'' \<and> forward_uid i \<and> uid u \<noteq> '''' then Some [uid u] else map_of ?g k')" for k'
    by (simp add: header_simps canonical_impersonation_names)
  have none: "map_of ?b k = None" if "projected_extra i u k \<noteq> []"
    using projected_extra_prefix [OF that]
    unfolding base grp strip_inbound_lookup
    by (auto simp: identity_key_def prefix_def)
  have "impersonator_apply i h u =
      fold (\<lambda>kv h. fold (\<lambda>v h. header_add h (extra_header_key (fst kv)) v) (snd kv) h)
        (filter (\<lambda>kv. extra_allowed i (fst kv)) (extra u)) ?b"
    by (simp add: impersonator_apply_def Let_def fold_skip extra_allowed_def)
  then have "map_of (impersonator_apply i h u) k =
      (if projected_extra i u k = [] then map_of ?b k
       else Some ((case map_of ?b k of None \<Rightarrow> [] | Some us \<Rightarrow> us) @ projected_extra i u k))"
    by (simp only: hdr.look_fold_add_map projected_extra_def Let_def filter_filter)
  with none show ?thesis unfolding base grp strip_inbound_lookup by simp
qed

section \<open>The contract of BackendIdentity\<close>

text \<open>
  The promises written at the interface: the outbound header carries no \<open>Authorization\<close>, its
  \<open>Impersonate-*\<close> part is the proxy's own, and every other key is either passed on as it is or
  dropped, whatever its value.  \<open>keeps\<close> says which keys an implementation passes on.
\<close>

locale backend_identity_contract =
  fixes apply_to :: "header \<Rightarrow> user_info \<Rightarrow> header"
    and keeps :: "string \<Rightarrow> bool"
  assumes no_authorization: "canonical_key k = ''Authorization'' \<Longrightarrow> map_of (apply_to h u) k = None"
    and own_impersonation:
      "prefix ''Impersonate-'' (canonical_key k) \<Longrightarrow> map_of (apply_to h u) k = map_of (apply_to [] u) k"
    and rest_passed_on:
      "\<not> identity_key k \<Longrightarrow> map_of (apply_to h u) k = (if keeps k then map_of h k else None)"
    and keeps_plain: "\<not> remote_key k \<Longrightarrow> keeps k"
begin

lemma agree_outside_identity:
  assumes "\<And>k. \<not> identity_key k \<Longrightarrow> map_of h k = map_of h' k"
  shows "map_of (apply_to h u) = map_of (apply_to h' u)"
proof
  fix k
  show "map_of (apply_to h u) k = map_of (apply_to h' u) k"
  proof (cases "identity_key k")
    case True
    then show ?thesis
      using no_authorization own_impersonation [of k h u] own_impersonation [of k h' u]
      by (auto simp: identity_key_def)
  next
    case False
    then show ?thesis using assms by (simp add: rest_passed_on)
  qed
qed

lemma plain_key_unchanged:
  "\<not> identity_key k \<Longrightarrow> \<not> remote_key k \<Longrightarrow> map_of (apply_to h u) k = map_of h k"
  by (simp add: rest_passed_on keeps_plain)

end

interpretation fwd: backend_identity_contract forwarder_apply "\<lambda>_. True"
  by unfold_locales (auto simp: header_simps identity_key_def)

interpretation imp: backend_identity_contract "impersonator_apply i" "\<lambda>k. \<not> remote_key k"
proof (unfold_locales, goal_cases)
  case (1 k h u)
  have "projected_extra i u k = []"
    using 1 projected_extra_prefix [of i u k] by (auto simp: prefix_def)
  moreover have "k \<noteq> ''Impersonate-Uid''" "k \<noteq> ''Impersonate-Group''" "k \<noteq> ''Impersonate-User''"
    using 1 canonical_impersonation_names by auto
  ultimately show ?case using 1 by (simp add: header_simps identity_key_def)
next
  case (2 k h u)
  then show ?case by (simp add: header_simps identity_key_def)
next
  case (3 k h u)
  have "projected_extra i u k = []"
    using 3 projected_extra_prefix [of i u k] by (auto simp: identity_key_def prefix_def)
  moreover have "k \<noteq> ''Impersonate-Uid''" "k \<noteq> ''Impersonate-Group''" "k \<noteq> ''Impersonate-User''"
    using 3 canonical_impersonation_names by (auto simp: identity_key_def)
  ultimately show ?case using 3 by (simp add: header_simps)
qed simp

definition identity_keeps :: "backend_identity \<Rightarrow> string \<Rightarrow> bool" where
  "identity_keeps b k =
     (case b of Request_Header_Forwarder \<Rightarrow> True | Impersonator i \<Rightarrow> \<not> remote_key k)"

lemma apply_identity_contract:
  "backend_identity_contract (apply_identity b) (identity_keeps b)"
proof (cases b)
  case Request_Header_Forwarder
  then have "apply_identity b = forwarder_apply" "identity_keeps b = (\<lambda>_. True)"
    by (simp_all add: fun_eq_iff identity_keeps_def)
  then show ?thesis by (simp only: fwd.backend_identity_contract_axioms)
next
  case (Impersonator i)
  then have "apply_identity b = impersonator_apply i" "identity_keeps b = (\<lambda>k. \<not> remote_key k)"
    by (simp_all add: fun_eq_iff identity_keeps_def)
  then show ?thesis by (simp only: imp.backend_identity_contract_axioms)
qed

interpretation bid: backend_identity_contract "apply_identity b" "identity_keeps b"
  by (rule apply_identity_contract)

section \<open>Escaped keys on the wire\<close>

lemma unescape_header_key_escape: "unescape Enc_Path_Segment (header_key_escape key) = Some key"
  by (induction key) (auto simp: header_key_escape_Cons should_escape_header_key_byte_def)

lemma of_char_lower_upper_hex:
  "d < 16 \<Longrightarrow> (of_char (lower_char (upper_hex d)) :: nat) = (if d < 10 then 48 + d else 87 + d)"
  by (simp add: of_char_lower_char of_char_upper_hex)

lemma unescape_lower_percent_byte:
  "unescape m (map lower_char (percent_byte c) @ s) = map_option ((#) c) (unescape m s)"
proof -
  have d: "of_char c div 16 < (16 :: nat)" "of_char c mod 16 < (16 :: nat)"
    using of_char_less [of c] by (auto intro: less_mult_imp_div_less)
  have hex: "is_hex (lower_char (upper_hex d)) \<and> unhex (lower_char (upper_hex d)) = d" if "d < 16" for d
    using that by (simp add: is_hex_def unhex_def Let_def of_char_lower_upper_hex)
  have pct: "lower_char CHR ''%'' = CHR ''%''" by code_simp
  have "char_of (16 * (of_char c div 16) + of_char c mod (16 :: nat)) = c" by simp
  with d show ?thesis
    by (simp add: percent_byte_def Let_def hex pct numeral_2_eq_2)
qed

text \<open>
  The backend apiserver lower-cases the header name before it decodes the key.  What it reads is
  the key in lower case; escaping survives canonicalisation and lower-casing.
\<close>

lemma unescape_lower_escape:
  "unescape Enc_Path_Segment (to_lower (header_key_escape key)) = Some (to_lower key)"
proof (induction key)
  case (Cons c cs)
  show ?case
  proof (cases "should_escape_header_key_byte c")
    case True
    then have "lower_char c = c"
      using letter_is_token_byte(1) [of c]
      by (auto simp: should_escape_header_key_byte_def legal_is_token_byte lower_char_def Let_def)
    with True Cons show ?thesis
      by (simp add: header_key_escape_Cons to_lower_def unescape_lower_percent_byte)
  next
    case False
    then have "c \<noteq> CHR ''%''" by (simp add: should_escape_header_key_byte_def)
    then have "lower_char c \<noteq> CHR ''%''"
      by (auto simp: char_eq_iff [of _ "CHR ''%''"] of_char_lower_char)
    with False Cons show ?thesis
      by (simp add: header_key_escape_Cons to_lower_def)
  qed
qed (simp add: to_lower_def)

lemma extra_header_key_inj:
  "canonical_key (extra_header_key k) = canonical_key (extra_header_key k') \<Longrightarrow> to_lower k = to_lower k'"
  by (metis append_same_eq canonical_extra_header_key option.inject same_append_eq
      to_lower_canon_from unescape_lower_escape)

lemma mset_short_list_eq: "mset xs = mset ys \<Longrightarrow> length xs \<le> 1 \<Longrightarrow> xs = ys"
proof (cases xs)
  case (Cons x xs')
  moreover assume "mset xs = mset ys" "length xs \<le> 1"
  ultimately have "xs = [x]" "mset ys = {#x#}" by auto
  then show ?thesis by simp
qed simp

lemma filter_distinct_image_short:
  assumes "distinct (map g xs)" and "\<And>x y. P x \<Longrightarrow> P y \<Longrightarrow> g x = g y"
  shows "length (filter P xs) \<le> 1"
  using assms(1)
proof (induction xs)
  case (Cons x xs)
  have "filter P xs = []" if "P x"
  proof -
    have "\<not> P y" if "y \<in> set xs" for y
      using that Cons.prems \<open>P x\<close> assms(2) [of x y] by force
    then show ?thesis by (simp add: filter_empty_conv)
  qed
  with Cons show ?case by auto
qed simp

lemma projected_extra_perm:
  assumes "distinct (map (to_lower \<circ> fst) (extra u))" "mset (extra u) = mset xs"
  shows "projected_extra i (u\<lparr>extra := xs\<rparr>) k = projected_extra i u k"
proof -
  let ?P = "\<lambda>kv. extra_allowed i (fst kv) \<and> canonical_key (extra_header_key (fst kv)) = k"
  have "length (filter ?P (extra u)) \<le> 1"
    by (rule filter_distinct_image_short [OF assms(1)]) (auto dest: extra_header_key_inj)
  moreover have "mset (filter ?P (extra u)) = mset (filter ?P xs)"
    by (simp only: mset_filter assms(2))
  ultimately have "filter ?P (extra u) = filter ?P xs"
    by (intro mset_short_list_eq)
  then show ?thesis by (simp add: projected_extra_def)
qed

section \<open>Properties\<close>

text \<open>The part of a header that its identity keys make up.\<close>

definition identity_part :: "(string \<rightharpoonup> string list) \<Rightarrow> string \<rightharpoonup> string list" where
  "identity_part h k = (if identity_key k then h k else None)"

text \<open>
  C16: whatever identity mode is configured, no \<open>Impersonate-*\<close> or \<open>Authorization\<close> header of the caller
  reaches the backend, in any spelling of the key.  \<open>Authorization\<close> is absent.  In requestheader mode every
  \<open>Impersonate-*\<close> header is absent; in impersonation mode it is the value that the verified identity gives
  it, or absent: user, groups, the UID when it is forwarded, the allowed extras.
\<close>

theorem identity_no_smuggling:
  "identity_part (map_of (apply_identity b h u)) k =
     (case b of
        Request_Header_Forwarder \<Rightarrow> None
      | Impersonator i \<Rightarrow>
          if k = ''Impersonate-User'' then Some [username u]
          else if k = ''Impersonate-Group'' then (if groups u = [] then None else Some (groups u))
          else if k = ''Impersonate-Uid'' then (if forward_uid i \<and> uid u \<noteq> '''' then Some [uid u] else None)
          else if projected_extra i u k \<noteq> [] then Some (projected_extra i u k) else None)"
proof (cases b)
  case Request_Header_Forwarder
  then show ?thesis
    by (simp add: identity_part_def forwarder_lookup)
next
  case (Impersonator i)
  have e: "k \<noteq> ''Impersonate-User'' \<and> k \<noteq> ''Impersonate-Group'' \<and> k \<noteq> ''Impersonate-Uid'' \<and> identity_key k"
    if "projected_extra i u k \<noteq> []"
    using projected_extra_prefix [OF that] by (auto simp: prefix_def identity_key_def)
  show ?thesis
    using e
    by (auto simp: Impersonator identity_part_def impersonator_lookup identity_key_def
        canonical_impersonation_names)
qed

text \<open>
  C17: in impersonation mode every header of the outbound request is determined: user, groups, UID
  and the allowed extras are the verified identity's, all other identity headers are gone, and the
  remaining headers are the caller's, unchanged.
\<close>

theorem impersonator_projects_exactly:
  "header_values (impersonator_apply i h u) k =
     (let c = canonical_key k
      in if c = ''Impersonate-User'' then [username u]
         else if c = ''Impersonate-Group'' then groups u
         else if c = ''Impersonate-Uid'' then (if forward_uid i \<and> uid u \<noteq> '''' then [uid u] else [])
         else if prefix ''Impersonate-Extra-'' c then projected_extra i u c
         else if c = ''Authorization'' \<or> prefix ''Impersonate-'' c \<or> prefix ''X-Remote-'' c then []
         else header_values h k)"
proof (cases "projected_extra i u (canonical_key k) = []")
  case False
  note p = projected_extra_prefix [OF False, THEN conjunct1]
  then have ne: "canonical_key k \<noteq> ''Impersonate-User''" "canonical_key k \<noteq> ''Impersonate-Group''"
    "canonical_key k \<noteq> ''Impersonate-Uid''" by (auto simp: prefix_def)
  from p ne False show ?thesis by (simp add: header_values_def impersonator_lookup Let_def)
next
  case True
  have pre: "prefix ''Impersonate-'' c" if "prefix ''Impersonate-Extra-'' c" for c
    using that by (auto simp: prefix_def)
  from True show ?thesis
    by (simp add: header_values_def impersonator_lookup Let_def identity_key_def remote_key_def pre
        canonical_impersonation_names)
qed

text \<open>
  C39: \<open>headerKeyEscape\<close> is inverted by \<open>url.PathUnescape\<close> for every byte string, and its output is
  always a valid header key.
\<close>

theorem header_key_escape_roundtrip:
  "unescape Enc_Path_Segment (header_key_escape key) = Some key \<and>
   list_all is_token_byte (header_key_escape key)"
  by (simp add: unescape_header_key_escape header_key_escape_token)

text \<open>
  C40: on the wire an extra key travels inside a canonicalised header name; a backend that cuts the
  prefix off, lower-cases and unescapes it reads exactly the key in lower case, so two keys share a
  header only when they differ in case alone.
\<close>

theorem extra_key_on_the_wire:
  "unescape Enc_Path_Segment
     (to_lower (drop (length ''Impersonate-Extra-'') (canonical_key (extra_header_key key)))) =
   Some (to_lower key)"
  unfolding canonical_extra_header_key append_eq_conv_conj [THEN iffD1, OF refl, THEN conjunct2]
  by (simp add: unescape_lower_escape)

text \<open>
  C34: the projection does not depend on the order in which Go iterates over the extras, provided no
  two extra keys are equal up to case.
\<close>

theorem impersonation_extras_order_irrelevant:
  assumes "distinct (map (to_lower \<circ> fst) (extra u))" "mset (extra u) = mset xs"
  shows "map_of (impersonator_apply i h (u\<lparr>extra := xs\<rparr>)) = map_of (impersonator_apply i h u)"
  using projected_extra_perm [OF assms, of i] by (simp add: fun_eq_iff impersonator_lookup)

lemma impersonation_extras_order_irrelevant_witness:
  "map_of (impersonator_apply (new_impersonator \<lparr>extra_keys = [''a''], cfg_forward_all_extras = False,
              cfg_forward_uid = True\<rparr>) []
      \<lparr>username = ''jane'', uid = '''', groups = [], extra = [(''b'', [''2'']), (''a'', [''1''])]\<rparr>) =
   map_of (impersonator_apply (new_impersonator \<lparr>extra_keys = [''a''], cfg_forward_all_extras = False,
              cfg_forward_uid = True\<rparr>) []
      \<lparr>username = ''jane'', uid = '''', groups = [], extra = [(''a'', [''1'']), (''b'', [''2''])]\<rparr>)"
proof -
  let ?u = "\<lparr>username = ''jane'', uid = '''', groups = [], extra = [(''a'', [''1'']), (''b'', [''2''])]\<rparr>"
  have d: "distinct (map (to_lower \<circ> fst) (extra ?u))" by code_simp
  have m: "mset (extra ?u) = mset [(''b'', [''2'']), (''a'', [''1''])]" by simp
  show ?thesis
    using impersonation_extras_order_irrelevant [OF d m] by (simp only: user_info.update_convs)
qed

end
