(* ===== verification/Http_Message.thy ===== *)
theory Http_Message
  imports Hop_Headers Go_Url Backend_Identity
begin

text \<open>
  The requests and responses of \<open>net/http\<close> as far as the proxy reads or writes them, and the
  \<open>RequestInfo\<close> that the Kubernetes resolver derives from a request (a third-party type: its fields are
  the ones \<open>builder.go\<close> and \<open>handler.go\<close> read).  Bodies travel beside the messages: a reader of the
  type \<open>'b\<close>.  A \<open>time.Time\<close> is its instant, an integer number of nanoseconds.
\<close>

type_synonym instant = int

record http_request =
  rq_method :: string
  rq_url :: url
  rq_proto :: string
  rq_header :: header
  rq_host :: string
  rq_request_uri :: string
  rq_remote_addr :: string
  rq_content_length :: int64

record 'b http_response =
  rs_status_code :: int
  rs_proto :: string
  rs_header :: header
  rs_body :: 'b

record request_info =
  is_resource_request :: bool
  verb :: string
  api_group :: string
  api_version :: string
  info_namespace :: string
  resource :: string
  subresource :: string
  info_name :: string

text \<open>\<open>http.Request.UserAgent\<close>.\<close>

definition user_agent :: "http_request \<Rightarrow> string" where
  "user_agent req = header_get (rq_header req) ''User-Agent''"

end
