(* ===== verification/Reverse_Proxy.thy ===== *)
theory Reverse_Proxy
  imports Http_Message
begin

text \<open>
  The part of the standard library's \<open>httputil.ReverseProxy\<close> that the passthrough path runs: how
  \<open>ServeHTTP\<close> prepares the outbound request before and after the \<open>Rewrite\<close> hook, and the upgrade checks.
\<close>

section \<open>Upgrades\<close>

text \<open>\<open>httpguts.HeaderValuesContainsToken\<close>: blanks and tabs around a token, ASCII case.\<close>

definition is_ows :: "char \<Rightarrow> bool" where
  "is_ows c \<longleftrightarrow> c = CHR '' '' \<or> c = CHR 0x09"

definition trim_ows :: "string \<Rightarrow> string" where
  "trim_ows s = rev (dropWhile is_ows (rev (dropWhile is_ows s)))"

definition contains_token :: "string list \<Rightarrow> string \<Rightarrow> bool" where
  "contains_token values token \<longleftrightarrow>
     list_ex (\<lambda>v. list_ex (\<lambda>t. to_lower (trim_ows t) = to_lower token) (split_on CHR '','' v)) values"

definition upgrade_type :: "header \<Rightarrow> string" where
  "upgrade_type h =
     (if contains_token (header_values h ''Connection'') ''Upgrade'' then header_get h ''Upgrade'' else '''')"

definition ascii_print :: "string \<Rightarrow> bool" where
  "ascii_print s = list_all (\<lambda>c. let n = of_char c :: nat in 32 \<le> n \<and> n \<le> 126) s"

section \<open>The outbound request\<close>

definition rp_hop_headers :: "string list" where
  "rp_hop_headers =
     [''Connection'', ''Proxy-Connection'', ''Keep-Alive'', ''Proxy-Authenticate'',
      ''Proxy-Authorization'', ''Te'', ''Trailer'', ''Transfer-Encoding'', ''Upgrade'']"

text \<open>\<open>textproto.TrimString\<close> trims ASCII white space.\<close>

definition is_ascii_space :: "char \<Rightarrow> bool" where
  "is_ascii_space c \<longleftrightarrow> c = CHR '' '' \<or> c = CHR 0x09 \<or> c = CHR 0x0A \<or> c = CHR 0x0D"

definition trim_ascii :: "string \<Rightarrow> string" where
  "trim_ascii s = rev (dropWhile is_ascii_space (rev (dropWhile is_ascii_space s)))"

definition remove_hop_by_hop_headers :: "header \<Rightarrow> header" where
  "remove_hop_by_hop_headers h =
     (let h' = fold (\<lambda>f h. fold (\<lambda>sf h. if trim_ascii sf \<noteq> '''' then header_del h (trim_ascii sf) else h)
                              (split_on CHR '','' f) h)
                 (header_values h ''Connection'') h
      in fold (\<lambda>f h. header_del h f) rp_hop_headers h')"

text \<open>
  From the inbound request to the one handed to the transport; \<open>None\<close> when the client asks for a
  protocol that is not printable, which the error handler answers.
\<close>

definition rp_prepare_header :: "header \<Rightarrow> header" where
  "rp_prepare_header h =
     (let up = upgrade_type h;
          out = remove_hop_by_hop_headers h;
          out = (if contains_token (header_values h ''Te'') ''trailers'' then header_set out ''Te'' ''trailers'' else out);
          out = (if up \<noteq> '''' then header_set (header_set out ''Connection'' ''Upgrade'') ''Upgrade'' up else out);
          out = header_del out ''Forwarded'';
          out = header_del out ''X-Forwarded-For'';
          out = header_del out ''X-Forwarded-Host''
      in header_del out ''X-Forwarded-Proto'')"

definition rp_default_user_agent :: "header \<Rightarrow> header" where
  "rp_default_user_agent h =
     (if map_of h ''User-Agent'' = None then header_set h ''User-Agent'' '''' else h)"

definition rp_outbound ::
  "(http_request \<Rightarrow> http_request \<Rightarrow> http_request) \<Rightarrow> http_request \<Rightarrow> http_request option" where
  "rp_outbound rewrite req =
     (if \<not> ascii_print (upgrade_type (rq_header req)) then None
      else
        let out = req\<lparr>rq_header := rp_prepare_header (rq_header req),
                      rq_url := (rq_url req)\<lparr>raw_query := clean_query_params (raw_query (rq_url req))\<rparr>\<rparr>;
            out = rewrite req out
        in Some (out\<lparr>rq_header := rp_default_user_agent (rq_header out)\<rparr>))"

section \<open>Laws\<close>

lemma fold_if_del:
  "fold (\<lambda>x h. if P x then header_del h (f x) else h) xs h =
     fold (\<lambda>k h. header_del h k) (map f (filter P xs)) h"
  by (induction xs arbitrary: h) auto

definition rp_connection_tokens :: "header \<Rightarrow> string list" where
  "rp_connection_tokens h =
     concat (map (\<lambda>v. filter (\<lambda>t. t \<noteq> '''') (map trim_ascii (split_on CHR '','' v))) (header_values h ''Connection''))"

lemma fold_if_del_tokens:
  "fold (\<lambda>f h. fold (\<lambda>sf h. if trim_ascii sf \<noteq> '''' then header_del h (trim_ascii sf) else h) (g f) h) fs h =
     fold (\<lambda>k h. header_del h k) (concat (map (\<lambda>f. filter (\<lambda>t. t \<noteq> '''') (map trim_ascii (g f))) fs)) h"
proof (induction fs arbitrary: h)
  case (Cons f fs)
  have "map trim_ascii (filter (\<lambda>sf. trim_ascii sf \<noteq> '''') (g f)) = filter (\<lambda>t. t \<noteq> '''') (map trim_ascii (g f))"
    by (simp add: filter_map comp_def)
  then show ?case using Cons by (simp add: fold_if_del)
qed simp

lemma remove_hop_by_hop_as_fold:
  "remove_hop_by_hop_headers h =
     fold (\<lambda>k h. header_del h k) (rp_connection_tokens h @ rp_hop_headers) h"
  by (simp add: remove_hop_by_hop_headers_def Let_def fold_if_del_tokens rp_connection_tokens_def)

lemma canonical_rp_hop: "canonical_key ` set rp_hop_headers = set rp_hop_headers"
proof -
  have "list_all (\<lambda>k. canonical_key k = k) rp_hop_headers" by code_simp
  then show ?thesis by (auto simp: list_all_iff)
qed

lemma remove_hop_lookup [header_simps]:
  "map_of (remove_hop_by_hop_headers h) k =
     (if k \<in> set rp_hop_headers \<or> k \<in> canonical_key ` set (rp_connection_tokens h) then None
      else map_of h k)"
  by (simp add: remove_hop_by_hop_as_fold hdr.look_fold_del image_Un canonical_rp_hop del: fold_append)

lemma canonical_rp_names:
  "canonical_key ''Te'' = ''Te''" "canonical_key ''Connection'' = ''Connection''"
  "canonical_key ''Upgrade'' = ''Upgrade''" "canonical_key ''Forwarded'' = ''Forwarded''"
  "canonical_key ''X-Forwarded-For'' = ''X-Forwarded-For''"
  "canonical_key ''X-Forwarded-Host'' = ''X-Forwarded-Host''"
  "canonical_key ''X-Forwarded-Proto'' = ''X-Forwarded-Proto''"
  "canonical_key ''User-Agent'' = ''User-Agent''"
  by code_simp+

text \<open>The upgrade of the client is what the prepared header asks for.\<close>

lemma rp_prepare_upgrade:
  assumes "upgrade_type h \<noteq> ''''"
  shows "header_values (rp_prepare_header h) ''Connection'' = [''Upgrade'']"
    and "header_values (rp_prepare_header h) ''Upgrade'' = [upgrade_type h]"
  using assms by (simp_all add: rp_prepare_header_def Let_def header_simps canonical_rp_names)

lemma rp_prepare_no_upgrade:
  assumes "upgrade_type h = ''''"
  shows "header_values (rp_prepare_header h) ''Connection'' = []"
    and "header_values (rp_prepare_header h) ''Upgrade'' = []"
  using assms
  by (simp_all add: rp_prepare_header_def Let_def header_values_def header_simps canonical_rp_names rp_hop_headers_def)

lemma rp_prepare_forwarded:
  "header_values (rp_prepare_header h) ''X-Forwarded-For'' = []"
  by (simp add: rp_prepare_header_def Let_def header_simps canonical_rp_names)

end
