(* ===== verification/Upstream_Request.thy ===== *)
theory Upstream_Request
  imports Reverse_Proxy
begin

text \<open>
  The two ways a request reaches the backend (\<open>pkg/proxy/handler.go\<close>): \<open>buildUpstreamRequest\<close> on the
  audited path, and the \<open>Rewrite\<close> hook that \<open>NewHandler\<close> gives the reverse proxy on the passthrough path.
\<close>

definition build_upstream_request ::
  "url \<Rightarrow> backend_identity \<Rightarrow> http_request \<Rightarrow> int64 \<Rightarrow> user_info \<Rightarrow> http_request" where
  "build_upstream_request backend_url identity r content_length user =
     (let upstream_url = resolve_reference backend_url
            \<lparr>scheme = '''', url_host = '''', path = path (rq_url r), raw_path = raw_path (rq_url r),
             force_query = False, raw_query = raw_query (rq_url r)\<rparr>;
          u = r\<lparr>rq_url := upstream_url, rq_request_uri := '''', rq_host := url_host backend_url,
                rq_content_length := content_length, rq_header := strip_hop_by_hop_headers (rq_header r)\<rparr>;
          u = u\<lparr>rq_header := append_forwarded_for (rq_header u) (rq_remote_addr r)\<rparr>
      in u\<lparr>rq_header := apply_identity identity (rq_header u) user\<rparr>)"

text \<open>\<open>ctx_user\<close> is the identity in the request's context, if any.\<close>

definition passthrough_rewrite ::
  "url \<Rightarrow> backend_identity \<Rightarrow> user_info option \<Rightarrow> http_request \<Rightarrow> http_request \<Rightarrow> http_request" where
  "passthrough_rewrite backend_url identity ctx_user pr_in out =
     (let out = out\<lparr>rq_url := set_url backend_url (rq_url out), rq_host := ''''\<rparr>;
          out = out\<lparr>rq_header := append_forwarded_for (rq_header out) (rq_remote_addr pr_in)\<rparr>
      in case ctx_user of
           None \<Rightarrow> out
         | Some user \<Rightarrow> out\<lparr>rq_header := apply_identity identity (rq_header out) user\<rparr>)"

definition passthrough_request ::
  "url \<Rightarrow> backend_identity \<Rightarrow> user_info option \<Rightarrow> http_request \<Rightarrow> http_request option" where
  "passthrough_request backend_url identity ctx_user r =
     rp_outbound (passthrough_rewrite backend_url identity ctx_user) r"

section \<open>Laws\<close>

lemma rq_header_upstream:
  "rq_header (build_upstream_request bu b r n u) =
     apply_identity b (append_forwarded_for (strip_hop_by_hop_headers (rq_header r)) (rq_remote_addr r)) u"
  by (simp add: build_upstream_request_def Let_def)

lemma rq_header_passthrough:
  assumes "passthrough_request bu b (Some u) r = Some out"
  shows "rq_header out =
     rp_default_user_agent
       (apply_identity b (append_forwarded_for (rp_prepare_header (rq_header r)) (rq_remote_addr r)) u)"
  using assms by (auto simp: passthrough_request_def rp_outbound_def passthrough_rewrite_def Let_def split: if_splits)

lemma identity_plain_key:
  assumes "\<not> identity_key k" "\<not> remote_key k"
  shows "map_of (apply_identity b h u) k = map_of h k"
  using bid.rest_passed_on [OF assms(1)] bid.keeps_plain [OF assms(2)] by simp

lemma plain_names:
  "\<not> identity_key ''Connection''" "\<not> remote_key ''Connection''"
  "\<not> identity_key ''Upgrade''" "\<not> remote_key ''Upgrade''"
  "\<not> identity_key ''X-Forwarded-For''" "\<not> remote_key ''X-Forwarded-For''"
  by (simp_all add: identity_key_def remote_key_def canonical_rp_names)

lemma apply_identity_values:
  assumes "\<not> identity_key (canonical_key k)" "\<not> remote_key (canonical_key k)"
  shows "header_values (apply_identity b h u) k = header_values h k"
  using identity_plain_key [OF assms] by (simp add: header_values_def)

lemma user_agent_values:
  "canonical_key k \<noteq> ''User-Agent'' \<Longrightarrow> header_values (rp_default_user_agent h) k = header_values h k"
  by (simp add: rp_default_user_agent_def header_simps canonical_rp_names)

lemma forwarded_values:
  "canonical_key k \<noteq> ''X-Forwarded-For'' \<Longrightarrow> header_values (append_forwarded_for h r) k = header_values h k"
  by (simp add: header_values_def append_forwarded_for_lookup)

text \<open>
  C15: the header of an audited request at the backend, key by key.  Impersonation and authorization
  headers are the proxy's own; \<open>X-Remote-*\<close> passes only in requestheader mode; X-Forwarded-For is the
  remaining chain with the peer's address appended; hop-by-hop headers and every header that
  \<open>Connection\<close> nominates, \<open>X-Remote-*\<close> included, are gone; everything else is the client's.
\<close>

theorem audited_header_fate:
  "map_of (rq_header (build_upstream_request bu b r n u)) k =
     (let h = rq_header r
      in if identity_key k then
           (if canonical_key k = ''Authorization'' then None else map_of (apply_identity b [] u) k)
         else if \<not> identity_keeps b k then None
         else if k = ''X-Forwarded-For'' \<and> peer_host (rq_remote_addr r) \<noteq> '''' then
           Some [if header_get (strip_hop_by_hop_headers h) k = '''' then peer_host (rq_remote_addr r)
                 else header_get (strip_hop_by_hop_headers h) k @ '', '' @ peer_host (rq_remote_addr r)]
         else if k \<in> set hop_by_hop \<or> k \<in> canonical_key ` set (connection_tokens h) then None
         else map_of h k)"
proof (cases "identity_key k")
  case True
  then show ?thesis
    using bid.no_authorization [of k b] bid.own_impersonation [of k b]
    by (auto simp: rq_header_upstream identity_key_def)
next
  case False
  then show ?thesis
    by (auto simp: rq_header_upstream bid.rest_passed_on Let_def append_forwarded_for_lookup strip_lookup)
qed

text \<open>
  C31: only the passthrough path carries a protocol upgrade.  An audited request never asks the backend
  for one, whatever the client sent; a passthrough request asks for exactly the client's protocol, and is
  refused only when that is not printable.
\<close>

theorem upgrade_only_in_passthrough:
  "header_values (rq_header (build_upstream_request bu b r n u)) ''Connection'' = [] \<and>
   header_values (rq_header (build_upstream_request bu b r n u)) ''Upgrade'' = [] \<and>
   (case passthrough_request bu b (Some u) r of
      None \<Rightarrow> \<not> ascii_print (upgrade_type (rq_header r))
    | Some out \<Rightarrow>
        header_values (rq_header out) ''Connection'' =
          (if upgrade_type (rq_header r) = '''' then [] else [''Upgrade'']) \<and>
        header_values (rq_header out) ''Upgrade'' =
          (if upgrade_type (rq_header r) = '''' then [] else [upgrade_type (rq_header r)]))"
proof (intro conjI)
  note names = canonical_rp_names plain_names
  show "header_values (rq_header (build_upstream_request bu b r n u)) ''Connection'' = []"
    by (simp add: rq_header_upstream apply_identity_values names forwarded_values connection_gone)
  show "header_values (rq_header (build_upstream_request bu b r n u)) ''Upgrade'' = []"
    by (simp add: rq_header_upstream apply_identity_values names forwarded_values)
      (simp add: header_values_def strip_lookup hop_by_hop_def names)
  show "case passthrough_request bu b (Some u) r of
      None \<Rightarrow> \<not> ascii_print (upgrade_type (rq_header r))
    | Some out \<Rightarrow>
        header_values (rq_header out) ''Connection'' =
          (if upgrade_type (rq_header r) = '''' then [] else [''Upgrade'']) \<and>
        header_values (rq_header out) ''Upgrade'' =
          (if upgrade_type (rq_header r) = '''' then [] else [upgrade_type (rq_header r)])"
  proof (cases "passthrough_request bu b (Some u) r")
    case None
    then show ?thesis by (simp add: passthrough_request_def rp_outbound_def Let_def split: if_splits)
  next
    case (Some out)
    then show ?thesis
      using rp_prepare_upgrade [of "rq_header r"] rp_prepare_no_upgrade [of "rq_header r"]
      by (simp add: rq_header_passthrough [OF Some] user_agent_values names apply_identity_values forwarded_values)
  qed
qed

text \<open>
  C32: what the backend sees of the forwarding chain differs between the paths.  In passthrough
  X-Forwarded-For is the peer's address alone, whatever chain the client sent; on the audited path the
  client's chain comes first.
\<close>

theorem forwarded_chain:
  "header_values (rq_header (build_upstream_request bu b r n u)) ''X-Forwarded-For'' =
     (let chain = header_get (strip_hop_by_hop_headers (rq_header r)) ''X-Forwarded-For''; peer = peer_host (rq_remote_addr r)
      in if peer = '''' then header_values (strip_hop_by_hop_headers (rq_header r)) ''X-Forwarded-For''
         else [if chain = '''' then peer else chain @ '', '' @ peer]) \<and>
   (case passthrough_request bu b (Some u) r of
      None \<Rightarrow> \<not> ascii_print (upgrade_type (rq_header r))
    | Some out \<Rightarrow>
        header_values (rq_header out) ''X-Forwarded-For'' =
          (if peer_host (rq_remote_addr r) = '''' then [] else [peer_host (rq_remote_addr r)]))"
proof (intro conjI)
  note names = canonical_rp_names plain_names
  show "header_values (rq_header (build_upstream_request bu b r n u)) ''X-Forwarded-For'' =
     (let chain = header_get (strip_hop_by_hop_headers (rq_header r)) ''X-Forwarded-For''; peer = peer_host (rq_remote_addr r)
      in if peer = '''' then header_values (strip_hop_by_hop_headers (rq_header r)) ''X-Forwarded-For''
         else [if chain = '''' then peer else chain @ '', '' @ peer])"
    by (simp add: rq_header_upstream apply_identity_values names Let_def)
      (simp add: header_values_def append_forwarded_for_lookup names)
  show "case passthrough_request bu b (Some u) r of
      None \<Rightarrow> \<not> ascii_print (upgrade_type (rq_header r))
    | Some out \<Rightarrow>
        header_values (rq_header out) ''X-Forwarded-For'' =
          (if peer_host (rq_remote_addr r) = '''' then [] else [peer_host (rq_remote_addr r)])"
  proof (cases "passthrough_request bu b (Some u) r")
    case None
    then show ?thesis by (simp add: passthrough_request_def rp_outbound_def Let_def split: if_splits)
  next
    case (Some out)
    have e: "header_get (rp_prepare_header (rq_header r)) ''X-Forwarded-For'' = ''''"
      by (simp add: header_get_def rp_prepare_forwarded)
    have "header_values (append_forwarded_for (rp_prepare_header (rq_header r)) (rq_remote_addr r)) ''X-Forwarded-For'' =
        (if peer_host (rq_remote_addr r) = '''' then [] else [peer_host (rq_remote_addr r)])"
      using rp_prepare_forwarded [of "rq_header r"]
      by (simp add: header_values_def append_forwarded_for_lookup names e)
    then show ?thesis
      by (simp add: Some rq_header_passthrough [OF Some] user_agent_values names apply_identity_values)
  qed
qed

section \<open>Targets\<close>

lemma upstream_url:
  "rq_url (build_upstream_request bu b r n u) =
     resolve_reference bu \<lparr>scheme = '''', url_host = '''', path = path (rq_url r), raw_path = raw_path (rq_url r),
       force_query = False, raw_query = raw_query (rq_url r)\<rparr>"
  by (simp add: build_upstream_request_def Let_def)

lemma passthrough_url:
  assumes "passthrough_request bu b cu r = Some out"
  shows "rq_url out = set_url bu ((rq_url r)\<lparr>raw_query := clean_query_params (raw_query (rq_url r))\<rparr>)"
  using assms
  by (auto simp: passthrough_request_def rp_outbound_def passthrough_rewrite_def Let_def split: if_splits option.splits)

text \<open>
  With a base path in the backend URL the two paths reach different resources: resolution drops the
  base path, \<open>SetURL\<close> joins it.
\<close>

definition base_path_backend :: url where
  "base_path_backend = \<lparr>scheme = ''https'', url_host = ''backend:443'', path = ''/base'', raw_path = '''',
     force_query = False, raw_query = ''''\<rparr>"

definition plain_request :: "string \<Rightarrow> string \<Rightarrow> http_request" where
  "plain_request method p =
     \<lparr>rq_method = method, rq_url = \<lparr>scheme = '''', url_host = '''', path = p, raw_path = '''', force_query = False,
        raw_query = ''''\<rparr>, rq_proto = ''HTTP/1.1'', rq_header = [], rq_host = ''proxy'', rq_request_uri = p,
      rq_remote_addr = ''10.0.0.5:1234'', rq_content_length = 0\<rparr>"

definition sample_user :: user_info where
  "sample_user = \<lparr>username = ''jane'', uid = '''', groups = [''devs''], extra = []\<rparr>"

lemma base_path_divergence:
  "path (rq_url (build_upstream_request base_path_backend Request_Header_Forwarder
     (plain_request ''POST'' ''/apis/g/v1/flunders'') 0 u)) = ''/apis/g/v1/flunders''"
  "map_option (\<lambda>out. path (rq_url out)) (passthrough_request base_path_backend Request_Header_Forwarder None
     (plain_request ''GET'' ''/apis/g/v1/flunders'')) = Some ''/base/apis/g/v1/flunders''"
  by (simp add: upstream_url, code_simp, code_simp)

lemma escaped_path_cong: "path u = path v \<Longrightarrow> raw_path u = raw_path v \<Longrightarrow> escaped_path u = escaped_path v"
  by (simp add: escaped_path_def)

lemma escaped_absolute_path:
  assumes "escaped_path u = CHR ''/'' # s"
  obtains t where "path u = CHR ''/'' # t" "unescape Enc_Path (CHR ''/'' # s) = Some (path u)"
    "valid_encoded (CHR ''/'' # s)"
proof -
  have "path u \<noteq> ''*''" using assms by (auto simp: escaped_path_def split: if_splits)
  from escaped_path_decodes [OF this] assms
  have d: "unescape Enc_Path (CHR ''/'' # s) = Some (path u)" "valid_encoded (CHR ''/'' # s)" by simp_all
  then obtain t where "path u = CHR ''/'' # t" by (auto dest: sym)
  with d that show ?thesis by blast
qed

lemma set_url_root:
  assumes "path bu = '''' \<or> path bu = ''/''" "raw_path bu = ''''" "raw_query bu = ''''"
    and "escaped_path u = CHR ''/'' # s"
  shows "scheme (set_url bu u) = scheme bu" "url_host (set_url bu u) = url_host bu"
    "raw_query (set_url bu u) = raw_query u" "escaped_path (set_url bu u) = escaped_path u"
proof -
  obtain t where t: "path u = CHR ''/'' # t" and d: "unescape Enc_Path (CHR ''/'' # s) = Some (path u)"
    "valid_encoded (CHR ''/'' # s)"
    using escaped_absolute_path [OF assms(4)] .
  have eb: "escaped_path bu = path bu"
    using assms(1,2) by (elim disjE) (simp_all add: escaped_path_def escape_def should_escape_def is_alnum_def Let_def)
  have j: "join_url_path bu u = (path u, if raw_path u = '''' then '''' else CHR ''/'' # s)"
    using assms(1,2,4) t eb
    by (elim disjE) (simp_all add: join_url_path_def single_joining_slash_def Let_def suffix_def)
  show "scheme (set_url bu u) = scheme bu" "url_host (set_url bu u) = url_host bu"
    "raw_query (set_url bu u) = raw_query u"
    by (simp_all add: set_url_def j assms(3))
  show "escaped_path (set_url bu u) = escaped_path u"
    using d assms(4) by (auto simp: set_url_def j escaped_path_def)
qed

text \<open>
  C33: with a backend URL that has neither a base path nor a query, an audited and a passthrough request for
  the same absolute path without dot segments go to the same scheme, host and escaped path.  Their queries
  agree up to the parameters that Go cannot parse, which only the reverse proxy removes; a query it would
  leave alone is the same on both paths.
\<close>

theorem same_target_without_base_path:
  assumes "path bu = '''' \<or> path bu = ''/''" "raw_path bu = ''''" "raw_query bu = ''''"
    and "escaped_path (rq_url r) = CHR ''/'' # s" "dot_free (CHR ''/'' # s)"
    and "passthrough_request bu b cu r = Some out"
  shows "(let a = rq_url (build_upstream_request bu b r n u)
    in (scheme (rq_url out), url_host (rq_url out), escaped_path (rq_url out)) = (scheme a, url_host a, escaped_path a) \<and>
       raw_query a = raw_query (rq_url r) \<and>
       raw_query (rq_url out) = (if query_clean (raw_query a) then raw_query a else encode_query (parse_query (raw_query a))))"
proof -
  let ?ref = "\<lparr>scheme = '''', url_host = '''', path = path (rq_url r), raw_path = raw_path (rq_url r),
       force_query = False, raw_query = raw_query (rq_url r)\<rparr>"
  let ?in = "(rq_url r)\<lparr>raw_query := clean_query_params (raw_query (rq_url r))\<rparr>"
  have e: "escaped_path ?ref = CHR ''/'' # s" "escaped_path ?in = CHR ''/'' # s"
    using assms(4) escaped_path_cong [of ?ref "rq_url r"] escaped_path_cong [of ?in "rq_url r"] by simp_all
  obtain t where "path (rq_url r) = CHR ''/'' # t"
    using escaped_absolute_path [OF assms(4)] .
  then have q: "raw_query (resolve_reference bu ?ref) = raw_query (rq_url r)"
    by (simp add: resolve_reference_def Let_def set_path_def split: option.splits)
  have df: "dot_free (escaped_path ?ref)" using assms(5) e by simp
  note a = resolve_reference_absolute [OF e(1) df, of bu]
  show ?thesis
    using set_url_root [OF assms(1,2,3) e(2)] a q e
    by (simp add: upstream_url passthrough_url [OF assms(6)] Let_def clean_query_params_def)
qed

lemma same_target_without_base_path_witness:
  "(case passthrough_request (base_path_backend\<lparr>path := ''''\<rparr>) Request_Header_Forwarder None
          (plain_request ''GET'' ''/apis/g'') of
      None \<Rightarrow> False
    | Some out \<Rightarrow> escaped_path (rq_url out) =
        escaped_path (rq_url (build_upstream_request (base_path_backend\<lparr>path := ''''\<rparr>) Request_Header_Forwarder
          (plain_request ''GET'' ''/apis/g'') 0 sample_user)) \<and> raw_query (rq_url out) = '''')"
proof -
  let ?bu = "base_path_backend\<lparr>path := ''''\<rparr>" and ?r = "plain_request ''GET'' ''/apis/g''"
  have h: "path ?bu = '''' \<or> path ?bu = ''/''" "raw_path ?bu = ''''" "raw_query ?bu = ''''"
    by (simp_all add: base_path_backend_def)
  have p: "escaped_path (rq_url ?r) = CHR ''/'' # ''apis/g''" "dot_free (CHR ''/'' # ''apis/g'')"
    by code_simp+
  have c: "query_clean (raw_query (rq_url ?r))" "raw_query (rq_url ?r) = ''''" by code_simp+
  have "passthrough_request ?bu Request_Header_Forwarder None ?r \<noteq> None" by code_simp
  then obtain out where o: "passthrough_request ?bu Request_Header_Forwarder None ?r = Some out" by blast
  show ?thesis
    using same_target_without_base_path [OF h p o, of 0 sample_user] c by (simp add: o Let_def)
qed

end
