(* ===== verification/Telemetry.thy ===== *)
theory Telemetry
  imports Go_Strings
begin

text \<open>
  \<open>pkg/telemetry\<close>: \<open>observe.go\<close> as functions that append to a log of measurements (the OpenTelemetry
  instruments are third-party code; what the program decides is which instrument gets which value with
  which attributes), the instrument table of \<open>exporter.go\<close> with its early return, and the readers of
  \<open>metricread.go\<close>.  Durations are nanoseconds and histogram boundaries milliseconds.
\<close>

section \<open>Measurements\<close>

type_synonym attrs = "(string \<times> string) list"

datatype instrument =
    Requests_Total
  | Request_Duration_Seconds
  | Backend_Round_Trip_Seconds
  | Streams_Active
  | Stream_Duration_Seconds
  | Transport_Bytes_Total
  | Connections_Active
  | Audit_Events_Total
  | Audit_Delivery_Duration_Seconds

record measurement =
  ms_instrument :: instrument
  ms_attrs :: attrs
  ms_value :: int

type_synonym metric_log = "measurement list"

definition measure :: "instrument \<Rightarrow> int \<Rightarrow> attrs \<Rightarrow> metric_log \<Rightarrow> metric_log" where
  "measure i v a log = log @ [\<lparr>ms_instrument = i, ms_attrs = a, ms_value = v\<rparr>]"

section \<open>Labels\<close>

record request_labels =
  rl_verb :: string
  rl_resource_group :: string
  rl_api_version :: string
  rl_resource :: string
  rl_subresource :: string
  rl_audited :: bool
  rl_streaming :: bool
  rl_status_class :: string
  rl_outcome :: string
  rl_inbound_proto :: string
  rl_backend_proto :: string

record backend_labels =
  bl_verb :: string
  bl_streaming :: bool
  bl_outcome :: string
  bl_backend_proto :: string

record stream_labels =
  sl_kind :: string
  sl_outcome :: string
  sl_inbound_proto :: string
  sl_backend_proto :: string

record transport_byte_labels =
  tl_leg :: string
  tl_streaming :: bool
  tl_direction :: string

definition label_unknown :: string where
  "label_unknown = ''unknown''"

definition status_class :: "int \<Rightarrow> string" where
  "status_class status_code =
     (if status_code \<le> 0 then label_unknown else itoa (status_code div 100) @ ''xx'')"

definition normalize_proto :: "string \<Rightarrow> string" where
  "normalize_proto proto =
     (if proto = ''HTTP/2.0'' \<or> proto = ''h2'' \<or> proto = ''http2'' then ''http2''
      else if proto = ''HTTP/1.1'' \<or> proto = ''HTTP/1.0'' \<or> proto = ''http1'' then ''http1''
      else if proto = '''' then label_unknown
      else ''other'')"

definition proto_label :: "string \<Rightarrow> string" where
  "proto_label proto = normalize_proto proto"

definition empty_to_unknown :: "string \<Rightarrow> string" where
  "empty_to_unknown v = (if v = '''' then label_unknown else v)"

definition empty_to_none :: "string \<Rightarrow> string" where
  "empty_to_none v = (if v = '''' then ''none'' else v)"

definition request_attrs :: "request_labels \<Rightarrow> attrs" where
  "request_attrs l =
     [(''verb'', empty_to_unknown (rl_verb l)),
      (''resource_group'', empty_to_unknown (rl_resource_group l)),
      (''api_version'', empty_to_unknown (rl_api_version l)),
      (''resource'', empty_to_unknown (rl_resource l)),
      (''subresource'', empty_to_none (rl_subresource l)),
      (''audited'', format_bool (rl_audited l)),
      (''streaming'', format_bool (rl_streaming l)),
      (''status_class'', empty_to_unknown (rl_status_class l)),
      (''outcome'', empty_to_unknown (rl_outcome l)),
      (''inbound_proto'', normalize_proto (rl_inbound_proto l)),
      (''backend_proto'', normalize_proto (rl_backend_proto l))]"

definition stream_attrs :: "stream_labels \<Rightarrow> attrs" where
  "stream_attrs l =
     [(''kind'', empty_to_unknown (sl_kind l)),
      (''outcome'', empty_to_unknown (sl_outcome l)),
      (''inbound_proto'', normalize_proto (sl_inbound_proto l)),
      (''backend_proto'', normalize_proto (sl_backend_proto l))]"

section \<open>Recording\<close>

definition record_request :: "request_labels \<Rightarrow> int \<Rightarrow> metric_log \<Rightarrow> metric_log" where
  "record_request l dur log =
     (let a = request_attrs l
      in measure Request_Duration_Seconds dur a (measure Requests_Total 1 a log))"

definition record_backend_round_trip :: "backend_labels \<Rightarrow> int \<Rightarrow> metric_log \<Rightarrow> metric_log" where
  "record_backend_round_trip l dur =
     measure Backend_Round_Trip_Seconds dur
       [(''verb'', bl_verb l), (''streaming'', format_bool (bl_streaming l)), (''outcome'', bl_outcome l),
        (''backend_proto'', normalize_proto (bl_backend_proto l))]"

definition add_transport_bytes :: "transport_byte_labels \<Rightarrow> int \<Rightarrow> metric_log \<Rightarrow> metric_log" where
  "add_transport_bytes l n log =
     (if n \<le> 0 then log
      else measure Transport_Bytes_Total n
             [(''leg'', tl_leg l), (''streaming'', format_bool (tl_streaming l)),
              (''direction'', tl_direction l)] log)"

text \<open>
  \<open>StreamStarted\<close> and the function it returns; that closure keeps the start time, the attributes of the
  gauge and the labels.
\<close>

record stream_done =
  sd_start :: int
  sd_active_attrs :: attrs
  sd_labels :: stream_labels

definition stream_started :: "int \<Rightarrow> stream_labels \<Rightarrow> metric_log \<Rightarrow> stream_done \<times> metric_log" where
  "stream_started now l log =
     (let active_attrs = stream_attrs l
      in (\<lparr>sd_start = now, sd_active_attrs = active_attrs, sd_labels = l\<rparr>,
          measure Streams_Active 1 active_attrs log))"

definition stream_finished :: "stream_done \<Rightarrow> string \<Rightarrow> int \<Rightarrow> metric_log \<Rightarrow> metric_log" where
  "stream_finished sd outcome now log =
     (let log = measure Streams_Active (-1) (sd_active_attrs sd) log;
          l = (sd_labels sd)\<lparr>sl_outcome := outcome\<rparr>
      in measure Stream_Duration_Seconds (now - sd_start sd) (stream_attrs l) log)"

definition add_connection :: "string \<Rightarrow> int \<Rightarrow> metric_log \<Rightarrow> metric_log" where
  "add_connection state delta = measure Connections_Active delta [(''state'', state)]"

definition add_audit_event :: "string \<Rightarrow> metric_log \<Rightarrow> metric_log" where
  "add_audit_event outcome = measure Audit_Events_Total 1 [(''outcome'', outcome)]"

definition record_audit_delivery :: "string \<Rightarrow> int \<Rightarrow> metric_log \<Rightarrow> metric_log" where
  "record_audit_delivery outcome dur = measure Audit_Delivery_Duration_Seconds dur [(''outcome'', outcome)]"

section \<open>Instrument registration\<close>

datatype instrument_kind = Int64_Counter | Float64_Histogram | Int64_Up_Down_Counter

record instrument_spec =
  is_name :: string
  is_dest :: instrument
  is_kind :: instrument_kind
  is_buckets :: "nat list"

definition request_buckets :: "nat list" where
  "request_buckets =
     [5, 10, 25, 50, 100, 250, 500, 1000, 2500, 5000, 10000, 30000, 60000, 120000]"

definition stream_buckets :: "nat list" where
  "stream_buckets = map (\<lambda>s. 1000 * s) [1, 5, 10, 30, 60, 120, 300, 600, 1800, 3600]"

definition instrument_specs :: "instrument_spec list" where
  "instrument_specs =
     map (\<lambda>(n, d, k, b). \<lparr>is_name = n, is_dest = d, is_kind = k, is_buckets = b\<rparr>)
       [(''apiservice_audit_proxy_requests_total'', Requests_Total, Int64_Counter, []),
        (''apiservice_audit_proxy_transport_bytes_total'', Transport_Bytes_Total, Int64_Counter, []),
        (''apiservice_audit_proxy_audit_events_total'', Audit_Events_Total, Int64_Counter, []),
        (''apiservice_audit_proxy_request_duration_seconds'', Request_Duration_Seconds,
          Float64_Histogram, request_buckets),
        (''apiservice_audit_proxy_backend_roundtrip_seconds'', Backend_Round_Trip_Seconds,
          Float64_Histogram, request_buckets),
        (''apiservice_audit_proxy_stream_duration_seconds'', Stream_Duration_Seconds,
          Float64_Histogram, stream_buckets),
        (''apiservice_audit_proxy_audit_delivery_duration_seconds'', Audit_Delivery_Duration_Seconds,
          Float64_Histogram, request_buckets),
        (''apiservice_audit_proxy_streams_active'', Streams_Active, Int64_Up_Down_Counter, []),
        (''apiservice_audit_proxy_connections_active'', Connections_Active, Int64_Up_Down_Counter, [])]"

text \<open>The package variables after registration and its error; \<open>create\<close> is the SDK's constructor.\<close>

type_synonym 'h registry = "instrument \<Rightarrow> 'h option"

fun register_from ::
  "(instrument_kind \<Rightarrow> string \<Rightarrow> nat list \<Rightarrow> 'e + 'h) \<Rightarrow> instrument_spec list \<Rightarrow> 'h registry \<Rightarrow>
     'e option \<times> 'h registry" where
  "register_from create [] reg = (None, reg)"
| "register_from create (sp # sps) reg =
     (case create (is_kind sp) (is_name sp) (is_buckets sp) of
        Inl e \<Rightarrow> (Some e, reg)
      | Inr h \<Rightarrow> register_from create sps (reg(is_dest sp := Some h)))"

definition register_instruments ::
  "(instrument_kind \<Rightarrow> string \<Rightarrow> nat list \<Rightarrow> 'e + 'h) \<Rightarrow> 'h registry \<Rightarrow> 'e option \<times> 'h registry" where
  "register_instruments create reg = register_from create instrument_specs reg"

text \<open>\<open>InitPrometheusExporter\<close>: the exporter's constructor may fail; the provider gives the meter.\<close>

definition init_prometheus_exporter ::
  "('e + 'x) \<Rightarrow> ('x \<Rightarrow> instrument_kind \<Rightarrow> string \<Rightarrow> nat list \<Rightarrow> 'e + 'h) \<Rightarrow> 'h registry \<Rightarrow>
     'e option \<times> 'h registry" where
  "init_prometheus_exporter new_exporter provider_meter reg =
     (case new_exporter of
        Inl e \<Rightarrow> (Some e, reg)
      | Inr exporter \<Rightarrow> register_instruments (provider_meter exporter) reg)"

definition init_test_exporter ::
  "'x \<Rightarrow> ('x \<Rightarrow> instrument_kind \<Rightarrow> string \<Rightarrow> nat list \<Rightarrow> 'e + 'h) \<Rightarrow> 'h registry \<Rightarrow>
     ('e + 'x) \<times> 'h registry" where
  "init_test_exporter reader provider_meter reg =
     (case register_instruments (provider_meter reader) reg of
        (Some e, reg) \<Rightarrow> (Inl e, reg)
      | (None, reg) \<Rightarrow> (Inr reader, reg))"

section \<open>Reading metrics back\<close>

datatype aggregation =
    Sum_Int64 "(attrs \<times> int64) list"
  | Gauge_Int64 "(attrs \<times> int64) list"
  | Histogram_Float64 "(attrs \<times> int64) list"
  | Other_Aggregation

type_synonym scope_metrics = "(string \<times> aggregation) list"

text \<open>\<open>match\<close> is a map: a list of pairs with distinct keys.\<close>

definition attrs_match :: "attrs \<Rightarrow> attrs \<Rightarrow> bool" where
  "attrs_match set_attrs match = list_all (\<lambda>(k, want). map_of set_attrs k = Some want) match"

text \<open>\<open>collected\<close> is the reader's answer, \<open>None\<close> for an error.\<close>

definition collect_metric :: "scope_metrics list option \<Rightarrow> string \<Rightarrow> aggregation option" where
  "collect_metric collected metric_name =
     (case collected of
        None \<Rightarrow> None
      | Some scopes \<Rightarrow> map_option snd (List.find (\<lambda>m. fst m = metric_name) (concat scopes)))"

definition collect_int64_sum :: "scope_metrics list option \<Rightarrow> string \<Rightarrow> attrs \<Rightarrow> int64 \<times> bool" where
  "collect_int64_sum collected metric_name match =
     (case collect_metric collected metric_name of
        None \<Rightarrow> (0, False)
      | Some (Sum_Int64 dps) \<Rightarrow>
          fold (\<lambda>(a, v) (value, found). if attrs_match a match then (value + v, True) else (value, found)) dps (0, False)
      | Some (Gauge_Int64 dps) \<Rightarrow>
          fold (\<lambda>(a, v) (value, found). if attrs_match a match then (v, True) else (value, found)) dps (0, False)
      | Some _ \<Rightarrow> (0, False))"

definition collect_histogram_count :: "scope_metrics list option \<Rightarrow> string \<Rightarrow> attrs \<Rightarrow> int64 \<times> bool" where
  "collect_histogram_count collected metric_name match =
     (case collect_metric collected metric_name of
        Some (Histogram_Float64 dps) \<Rightarrow>
          fold (\<lambda>(a, c) (count, found). if attrs_match a match then (count + c, True) else (count, found)) dps (0, False)
      | _ \<Rightarrow> (0, False))"

section \<open>Sums over the log\<close>

text \<open>What a counter or gauge shows for a selection of attributes.\<close>

definition log_sum :: "instrument \<Rightarrow> attrs \<Rightarrow> metric_log \<Rightarrow> int" where
  "log_sum i match log =
     sum_list (map ms_value (filter (\<lambda>m. ms_instrument m = i \<and> attrs_match (ms_attrs m) match) log))"

definition log_count :: "instrument \<Rightarrow> metric_log \<Rightarrow> nat" where
  "log_count i log = length (filter (\<lambda>m. ms_instrument m = i) log)"

lemma log_sum_Nil [simp]: "log_sum i a [] = 0"
  by (simp add: log_sum_def)

lemma log_count_Nil [simp]: "log_count i [] = 0"
  by (simp add: log_count_def)

lemma log_sum_measure [metric_simps]:
  "log_sum i a (measure j v b log) = log_sum i a log + (if i = j \<and> attrs_match b a then v else 0)"
  by (auto simp: log_sum_def measure_def)

lemma log_count_measure [metric_simps]:
  "log_count i (measure j v b log) = log_count i log + (if i = j then 1 else 0)"
  by (auto simp: log_count_def measure_def)

lemma log_sum_append: "log_sum i a (xs @ ys) = log_sum i a xs + log_sum i a ys"
  by (simp add: log_sum_def)

lemma log_count_append: "log_count i (xs @ ys) = log_count i xs + log_count i ys"
  by (simp add: log_count_def)

lemma log_count_record [metric_simps]:
  "log_count i (record_request l d log) =
     log_count i log + (if i = Requests_Total \<or> i = Request_Duration_Seconds then 1 else 0)"
  "log_count i (record_backend_round_trip bl d log) =
     log_count i log + (if i = Backend_Round_Trip_Seconds then 1 else 0)"
  "log_count i (add_transport_bytes tbl n log) =
     log_count i log + (if i = Transport_Bytes_Total \<and> 0 < n then 1 else 0)"
  "log_count i (add_audit_event oc log) = log_count i log + (if i = Audit_Events_Total then 1 else 0)"
  "log_count i (record_audit_delivery oc d log) =
     log_count i log + (if i = Audit_Delivery_Duration_Seconds then 1 else 0)"
  "log_count i (snd (stream_started now sl log)) = log_count i log + (if i = Streams_Active then 1 else 0)"
  "log_count i (stream_finished sd oc now log) =
     log_count i log + (if i = Streams_Active \<or> i = Stream_Duration_Seconds then 1 else 0)"
  "log_count i (add_connection st n log) = log_count i log + (if i = Connections_Active then 1 else 0)"
  by (auto simp: record_request_def record_backend_round_trip_def add_transport_bytes_def add_audit_event_def
      record_audit_delivery_def stream_started_def stream_finished_def add_connection_def Let_def log_count_measure)

section \<open>Registration is complete\<close>

lemma register_from_None:
  "register_from create sps reg = (None, reg') \<Longrightarrow> distinct (map is_dest sps) \<Longrightarrow>
     reg' i = (case List.find (\<lambda>sp. is_dest sp = i) sps of
                 None \<Rightarrow> reg i
               | Some sp \<Rightarrow> (case create (is_kind sp) (is_name sp) (is_buckets sp) of Inl _ \<Rightarrow> None | Inr h \<Rightarrow> Some h))"
proof (induction sps arbitrary: reg)
  case (Cons sp sps)
  from Cons.prems obtain h where h: "create (is_kind sp) (is_name sp) (is_buckets sp) = Inr h"
    and r: "register_from create sps (reg(is_dest sp := Some h)) = (None, reg')"
    by (auto split: sum.splits)
  note ih = Cons.IH [OF r]
  show ?case
  proof (cases "is_dest sp = i")
    case True
    then have "List.find (\<lambda>sp. is_dest sp = i) sps = None"
      using Cons.prems(2) unfolding find_None_iff by (metis distinct.simps(2) image_eqI list.set_map list.simps(9))
    then show ?thesis using ih Cons.prems(2) True h by simp
  qed (use ih Cons.prems(2) in \<open>simp split: option.split\<close>)
qed simp

lemma register_from_Some:
  "register_from create sps reg = (Some e, reg') \<Longrightarrow>
     list_ex (\<lambda>sp. create (is_kind sp) (is_name sp) (is_buckets sp) = Inl e) sps"
  by (induction sps arbitrary: reg) (auto split: sum.splits)

definition spec_of :: "instrument \<Rightarrow> instrument_spec option" where
  "spec_of i = List.find (\<lambda>sp. is_dest sp = i) instrument_specs"

lemma specs_distinct:
  "distinct (map is_dest instrument_specs)" "distinct (map is_name instrument_specs)"
  "list_all (\<lambda>sp. sorted_wrt (<) (is_buckets sp)) instrument_specs"
  by (simp_all add: instrument_specs_def request_buckets_def stream_buckets_def)

lemma every_instrument_specified: "spec_of i \<noteq> None"
  by (cases i) (simp_all add: spec_of_def instrument_specs_def)

lemma register_from_created:
  "register_from create sps reg = (None, reg') \<Longrightarrow> sp \<in> set sps \<Longrightarrow>
     \<exists>h. create (is_kind sp) (is_name sp) (is_buckets sp) = Inr h"
  by (induction sps arbitrary: reg) (auto split: sum.splits)

text \<open>
  C38: registration is complete or reports the error of a constructor.  When it succeeds every one of the
  nine package variables holds the handle that the SDK returned for its own name, kind and boundaries; the
  names are distinct and the boundaries of every histogram strictly increase.
\<close>

theorem register_instruments_complete:
  "(case register_instruments create reg of
      (None, reg') \<Rightarrow>
        (\<forall>i. \<exists>sp h. List.find (\<lambda>sp. is_dest sp = i) instrument_specs = Some sp \<and>
               create (is_kind sp) (is_name sp) (is_buckets sp) = Inr h \<and> reg' i = Some h)
    | (Some e, _) \<Rightarrow>
        list_ex (\<lambda>sp. create (is_kind sp) (is_name sp) (is_buckets sp) = Inl e) instrument_specs) \<and>
   distinct (map is_name instrument_specs) \<and>
   list_all (\<lambda>sp. sorted_wrt (<) (is_buckets sp)) instrument_specs"
proof (cases "register_instruments create reg")
  case (Pair e reg')
  show ?thesis
  proof (cases e)
    case None
    have "\<exists>sp h. List.find (\<lambda>sp. is_dest sp = i) instrument_specs = Some sp \<and>
        create (is_kind sp) (is_name sp) (is_buckets sp) = Inr h \<and> reg' i = Some h" for i
    proof -
      obtain sp where sp: "List.find (\<lambda>sp. is_dest sp = i) instrument_specs = Some sp"
        using every_instrument_specified [of i] by (auto simp: spec_of_def)
      have r: "register_from create instrument_specs reg = (None, reg')"
        using Pair None by (simp add: register_instruments_def)
      obtain h where "create (is_kind sp) (is_name sp) (is_buckets sp) = Inr h"
        using register_from_created [OF r, of sp] sp by (auto simp: find_Some_iff)
      then show ?thesis
        using register_from_None [OF r specs_distinct(1), of i] sp by auto
    qed
    then show ?thesis using Pair None specs_distinct by auto
  next
    case (Some x)
    then show ?thesis
      using Pair specs_distinct register_from_Some [of create instrument_specs reg x reg']
      by (auto simp: register_instruments_def)
  qed
qed

section \<open>Streams\<close>

lemma stream_gauge_balanced:
  assumes "stream_started now l log = (sd, log1)"
  shows "log_sum Streams_Active a (stream_finished sd outcome later log1) = log_sum Streams_Active a log"
  using assms by (auto simp: stream_started_def stream_finished_def Let_def metric_simps)

text \<open>The gauge carries an \<open>outcome\<close> attribute, the constant \<open>unknown\<close>, whenever no outcome is set.\<close>

lemma active_stream_outcome_attribute:
  "map_of (stream_attrs \<lparr>sl_kind = k, sl_outcome = '''', sl_inbound_proto = p, sl_backend_proto = q\<rparr>) ''outcome''
     = Some ''unknown''"
  by (simp add: stream_attrs_def empty_to_unknown_def label_unknown_def)

text \<open>The label \<open>unknown\<close> itself is not a protocol \<open>normalizeProto\<close> knows.\<close>

lemma normalize_proto_unknown: "normalize_proto label_unknown = ''other''"
  by code_simp

lemma normalize_proto_values:
  "normalize_proto p \<in> {''http1'', ''http2'', ''other'', label_unknown}"
  by (simp add: normalize_proto_def)

section \<open>The metric readers\<close>

lemma fold_matching_sum:
  "fold (\<lambda>(a, v) (value, found). if P a then (value + v, True) else (value, found)) dps (s, f) =
     (s + sum_list (map snd (filter (\<lambda>(a, v). P a) dps)), f \<or> list_ex (\<lambda>(a, v). P a) dps)"
  for s :: int64
  by (induction dps arbitrary: s f) (auto simp: algebra_simps)

end
