(* ===== verification/Request_Metrics.thy ===== *)
theory Request_Metrics
  imports Http_Message Telemetry
begin

text \<open>
  The per-request metric state of \<open>pkg/proxy/handler.go\<close>: \<open>requestMetricState\<close> (its mutex makes every
  method one step), \<open>metricResponseWriter\<close> over an underlying response writer, and the predicates that
  decide what a stream is.
\<close>

section \<open>Watches and streams\<close>

definition watch_verb :: string where "watch_verb = ''watch''"
definition outcome_error :: string where "outcome_error = ''error''"
definition outcome_ok :: string where "outcome_ok = ''ok''"
definition leg_backend :: string where "leg_backend = ''backend''"
definition leg_client :: string where "leg_client = ''client''"
definition direction_read :: string where "direction_read = ''read''"
definition direction_write :: string where "direction_write = ''write''"

definition is_watch_request :: "http_request option \<Rightarrow> bool" where
  "is_watch_request r =
     (case r of
        None \<Rightarrow> False
      | Some r \<Rightarrow> equal_fold (query_get (raw_query (rq_url r)) ''watch'') ''true'')"

definition content_type_is_watch_stream :: "string \<Rightarrow> bool" where
  "content_type_is_watch_stream ct =
     (if ct = '''' then False
      else list_ex (\<lambda>part. equal_fold (trim_space part) ''stream=watch'') (split_on CHR '';'' ct))"

definition is_streaming_response :: "'b http_response option \<Rightarrow> bool" where
  "is_streaming_response resp =
     (case resp of
        None \<Rightarrow> False
      | Some resp \<Rightarrow> content_type_is_watch_stream (header_get (rs_header resp) ''Content-Type''))"

section \<open>requestMetricState\<close>

record request_metric_state =
  rm_start :: instant
  rm_verb :: string
  rm_resource_group :: string
  rm_api_version :: string
  rm_resource :: string
  rm_subresource :: string
  rm_audited :: bool
  rm_streaming :: bool
  rm_inbound_proto :: string
  rm_backend_proto :: string
  rm_backend_observed :: bool

definition new_request_metric_state :: "instant \<Rightarrow> http_request \<Rightarrow> request_metric_state" where
  "new_request_metric_state now r =
     (let state = \<lparr>rm_start = now, rm_verb = to_lower (rq_method r), rm_resource_group = '''',
                   rm_api_version = '''', rm_resource = '''', rm_subresource = '''', rm_audited = False,
                   rm_streaming = is_watch_request (Some r), rm_inbound_proto = rq_proto r,
                   rm_backend_proto = label_unknown, rm_backend_observed = False\<rparr>
      in if rm_streaming state then state\<lparr>rm_verb := watch_verb\<rparr> else state)"

definition set_request_info :: "request_info option \<Rightarrow> bool \<Rightarrow> request_metric_state \<Rightarrow> request_metric_state" where
  "set_request_info info audited s =
     (case info of
        None \<Rightarrow> s
      | Some info \<Rightarrow>
          let s = s\<lparr>rm_verb := verb info, rm_resource_group := api_group info, rm_api_version := api_version info,
                    rm_resource := resource info, rm_subresource := subresource info, rm_audited := audited\<rparr>
          in if verb info = watch_verb then s\<lparr>rm_streaming := True\<rparr> else s)"

definition set_backend :: "string \<Rightarrow> bool \<Rightarrow> request_metric_state \<Rightarrow> request_metric_state" where
  "set_backend proto streaming s =
     (let s = s\<lparr>rm_backend_proto := proto\<rparr> in if streaming then s\<lparr>rm_streaming := True\<rparr> else s)"

definition stream_kind :: "request_metric_state \<Rightarrow> string" where
  "stream_kind s = (if rm_verb s = watch_verb \<or> rm_streaming s then watch_verb else ''response'')"

definition request_outcome :: "int \<Rightarrow> string" where
  "request_outcome status_code =
     (if status_code = 0 then label_unknown
      else if 500 \<le> status_code then outcome_error
      else outcome_ok)"

definition make_request_labels :: "int \<Rightarrow> request_metric_state \<Rightarrow> request_labels" where
  "make_request_labels status_code s =
     \<lparr>rl_verb = rm_verb s, rl_resource_group = rm_resource_group s, rl_api_version = rm_api_version s,
      rl_resource = rm_resource s, rl_subresource = rm_subresource s, rl_audited = rm_audited s,
      rl_streaming = rm_streaming s, rl_status_class = status_class status_code,
      rl_outcome = request_outcome status_code, rl_inbound_proto = rm_inbound_proto s,
      rl_backend_proto = rm_backend_proto s\<rparr>"

definition record_round_trip ::
  "instant \<Rightarrow> string \<Rightarrow> request_metric_state \<times> metric_log \<Rightarrow> request_metric_state \<times> metric_log" where
  "record_round_trip now outcome st =
     (case st of (s, log) \<Rightarrow>
        if rm_backend_observed s then (s, log)
        else
          let s = s\<lparr>rm_backend_observed := True\<rparr>;
              labels = \<lparr>bl_verb = rm_verb s, bl_streaming = rm_streaming s, bl_outcome = outcome,
                        bl_backend_proto = rm_backend_proto s\<rparr>;
              duration = now - rm_start s
          in (s, record_backend_round_trip labels duration log))"

section \<open>metricResponseWriter\<close>

text \<open>
  The underlying writer: the header map, the informational statuses sent, the final status once it is
  written, and the body bytes accepted so far.  \<open>WriteHeader\<close> of \<open>net/http\<close> sends a 1xx other than 101
  at once and stays open for the final status, after which it is ignored; a \<open>Write\<close> writes the status 200
  if none was written.  \<open>accepts\<close> says how many bytes of a write the client connection takes.
\<close>

record client_writer =
  cw_header :: header
  cw_informational :: "int list"
  cw_status :: "int option"
  cw_sent_header :: header
  cw_body :: bytes

definition informational :: "int \<Rightarrow> bool" where
  "informational code \<longleftrightarrow> 100 \<le> code \<and> code \<le> 199 \<and> code \<noteq> 101"

definition cw_write_header :: "int \<Rightarrow> client_writer \<Rightarrow> client_writer" where
  "cw_write_header code w =
     (if cw_status w \<noteq> None then w
      else if informational code then w\<lparr>cw_informational := cw_informational w @ [code]\<rparr>
      else w\<lparr>cw_status := Some code, cw_sent_header := cw_header w\<rparr>)"

definition cw_write :: "(nat \<Rightarrow> nat) \<Rightarrow> bytes \<Rightarrow> client_writer \<Rightarrow> nat \<times> bool \<times> client_writer" where
  "cw_write accepts p w =
     (let w = cw_write_header 200 w;
          n = min (length p) (accepts (length (cw_body w)))
      in (n, n < length p, w\<lparr>cw_body := cw_body w @ take n p\<rparr>))"

record metric_writer =
  mw_writer :: client_writer
  mw_status_code :: int

definition new_metric_response_writer :: "client_writer \<Rightarrow> metric_writer" where
  "new_metric_response_writer w = \<lparr>mw_writer = w, mw_status_code = 0\<rparr>"

definition write_header :: "int \<Rightarrow> metric_writer \<Rightarrow> metric_writer" where
  "write_header status_code w =
     (let w = (if mw_status_code w = 0 then w\<lparr>mw_status_code := status_code\<rparr> else w)
      in w\<lparr>mw_writer := cw_write_header status_code (mw_writer w)\<rparr>)"

definition write_body ::
  "(nat \<Rightarrow> nat) \<Rightarrow> request_metric_state \<Rightarrow> bytes \<Rightarrow> metric_writer \<times> metric_log \<Rightarrow>
     bool \<times> metric_writer \<times> metric_log" where
  "write_body accepts s p st =
     (case st of (w, log) \<Rightarrow>
        let w = (if mw_status_code w = 0 then w\<lparr>mw_status_code := 200\<rparr> else w)
        in case cw_write accepts p (mw_writer w) of
             (n, failed, u) \<Rightarrow>
               (failed, w\<lparr>mw_writer := u\<rparr>,
                add_transport_bytes
                  \<lparr>tl_leg = leg_client, tl_streaming = rm_streaming s, tl_direction = direction_write\<rparr>
                  (int n) log))"

text \<open>\<open>http.Error\<close>: it clears what described another body and sends the text with a newline.\<close>

definition http_error_header :: "header \<Rightarrow> header" where
  "http_error_header h =
     (let h = header_del h ''Content-Length'';
          h = header_set h ''Content-Type'' ''text/plain; charset=utf-8''
      in header_set h ''X-Content-Type-Options'' ''nosniff'')"

definition http_error ::
  "(nat \<Rightarrow> nat) \<Rightarrow> request_metric_state \<Rightarrow> string \<Rightarrow> int \<Rightarrow> metric_writer \<times> metric_log \<Rightarrow>
     metric_writer \<times> metric_log" where
  "http_error accepts s msg code st =
     (case st of (w, log) \<Rightarrow>
        let w = w\<lparr>mw_writer := (mw_writer w)\<lparr>cw_header := http_error_header (cw_header (mw_writer w))\<rparr>\<rparr>;
            w = write_header code w
        in snd (write_body accepts s (msg @ [CHR 0x0A]) (w, log)))"

section \<open>Laws\<close>

text \<open>The recorded status is the one the client got, provided no informational status was written.\<close>

definition writer_ok :: "metric_writer \<Rightarrow> bool" where
  "writer_ok w \<longleftrightarrow>
     mw_status_code w = (case cw_status (mw_writer w) of None \<Rightarrow> 0 | Some c \<Rightarrow> c) \<and>
     cw_status (mw_writer w) \<noteq> Some 0"

lemma writer_ok_new: "cw_status w = None \<Longrightarrow> writer_ok (new_metric_response_writer w)"
  by (simp add: writer_ok_def new_metric_response_writer_def)

lemma writer_ok_write_header:
  "code \<noteq> 0 \<Longrightarrow> \<not> informational code \<Longrightarrow> writer_ok w \<Longrightarrow> writer_ok (write_header code w)"
  by (auto simp: writer_ok_def write_header_def cw_write_header_def Let_def split: option.splits)

text \<open>After an informational status the recorded status is that one, not the final one.\<close>

lemma informational_status_recorded:
  "mw_status_code (write_header 200 (write_header 103 (new_metric_response_writer w))) = 103"
  by (simp add: write_header_def new_metric_response_writer_def)

lemma not_informational [simp]: "\<not> informational 200" "\<not> informational 401" "\<not> informational 400"
  "\<not> informational 502" "\<not> informational 101" "\<not> informational 503"
  by (simp_all add: informational_def)

lemma writer_ok_write_body:
  "writer_ok w \<Longrightarrow> write_body accepts s p (w, log) = (failed, w', log') \<Longrightarrow> writer_ok w'"
  by (auto simp: writer_ok_def write_body_def cw_write_def cw_write_header_def Let_def split: option.splits)

text \<open>The bytes counted on the client leg are the bytes the client's connection accepted.\<close>

lemma write_body_bytes:
  assumes "write_body accepts s p (w, log) = (failed, w', log')"
  shows "log_sum Transport_Bytes_Total [(''leg'', leg_client), (''direction'', direction_write)] log' =
         log_sum Transport_Bytes_Total [(''leg'', leg_client), (''direction'', direction_write)] log +
         int (length (cw_body (mw_writer w'))) - int (length (cw_body (mw_writer w)))"
proof -
  have b: "cw_body (cw_write_header c u) = cw_body u" for c u
    by (simp add: cw_write_header_def)
  have m: "cw_body (mw_writer (if P then w\<lparr>mw_status_code := 200\<rparr> else w)) = cw_body (mw_writer w)" for P
    by simp
  show ?thesis
    using assms
    by (auto simp: write_body_def cw_write_def Let_def add_transport_bytes_def b m
        metric_simps attrs_match_def split: if_splits)
qed

lemma record_round_trip_once:
  "record_round_trip now oc st = (s, log) \<Longrightarrow> record_round_trip now' oc' (s, log) = (s, log)"
  by (auto simp: record_round_trip_def Let_def split: prod.splits if_splits)

lemma streaming_sticky [simp]:
  "rm_streaming s \<Longrightarrow> rm_streaming (set_backend p b s)"
  "rm_streaming s \<Longrightarrow> rm_streaming (set_request_info i a s)"
  by (auto simp: set_backend_def set_request_info_def Let_def split: option.splits)

end
