(* ===== verification/Body_Reader.thy ===== *)
theory Body_Reader
  imports Audit_Prelude
begin

text \<open>
  \<open>io.ReadCloser\<close> bodies.  A source is a script of what its successive \<open>Read\<close> calls deliver; a read
  never returns more than the buffer holds.  \<open>observedReadCloser\<close> of \<open>pkg/proxy/handler.go\<close> wraps
  any reader and reports the bytes it passes on and, once, how the stream ended.  The locale
  \<open>body_reader\<close> is what a consumer such as \<open>spoolBody\<close> relies on: reads are bounded, deliver the
  content in order, and come to an end.
\<close>

datatype read_err = EOF | Read_Failed

type_synonym 'r read_fn = "'r \<Rightarrow> nat \<Rightarrow> bytes \<times> read_err option \<times> 'r"

section \<open>Scripted sources\<close>

type_synonym body_script = "(bytes \<times> read_err option) list"

fun script_read :: "body_script read_fn" where
  "script_read [] n = ([], Some EOF, [])"
| "script_read ((c, e) # rest) n =
     (if length c \<le> n then (c, e, rest) else (take n c, None, (drop n c, e) # rest))"

fun script_content :: "body_script \<Rightarrow> bytes" where
  "script_content [] = []"
| "script_content ((c, None) # rest) = c @ script_content rest"
| "script_content ((c, Some e) # rest) = c"

fun script_ending :: "body_script \<Rightarrow> read_err" where
  "script_ending [] = EOF"
| "script_ending ((c, None) # rest) = script_ending rest"
| "script_ending ((c, Some e) # rest) = e"

fun script_weight :: "body_script \<Rightarrow> nat" where
  "script_weight [] = 0"
| "script_weight ((c, e) # rest) = Suc (length c) + script_weight rest"

section \<open>observedReadCloser\<close>

definition outcome_backend_close :: string where "outcome_backend_close = ''backend_close''"
definition outcome_client_cancel :: string where "outcome_client_cancel = ''client_cancel''"
definition outcome_read_error :: string where "outcome_read_error = ''read_error''"

text \<open>
  The callbacks \<open>observe\<close> and \<open>onClose\<close> are nil or not; what they are called with is logged.
\<close>

record 'r observed =
  inner :: 'r
  observing :: bool
  on_close_set :: bool
  observed_sizes :: "nat list"
  close_outcomes :: "string list"

definition observe_read_closer :: "'r option \<Rightarrow> 'r observed option" where
  "observe_read_closer body =
     (case body of None \<Rightarrow> None
      | Some b \<Rightarrow> Some \<lparr>inner = b, observing = True, on_close_set = False,
                          observed_sizes = [], close_outcomes = []\<rparr>)"

definition observe_close :: "'r option \<Rightarrow> 'r observed option" where
  "observe_close body =
     (case body of None \<Rightarrow> None
      | Some b \<Rightarrow> Some \<lparr>inner = b, observing = False, on_close_set = True,
                          observed_sizes = [], close_outcomes = []\<rparr>)"

definition observed_read :: "'r read_fn \<Rightarrow> 'r observed read_fn" where
  "observed_read rd r n =
     (case rd (inner r) n of (p, err, i) \<Rightarrow>
        let r = r\<lparr>inner := i\<rparr>;
            r = (if 0 < length p \<and> observing r
                 then r\<lparr>observed_sizes := observed_sizes r @ [length p]\<rparr> else r);
            r = (if err \<noteq> None \<and> on_close_set r
                 then r\<lparr>close_outcomes := close_outcomes r @
                           [if err = Some EOF then outcome_backend_close else outcome_read_error],
                         on_close_set := False\<rparr>
                 else r)
        in (p, err, r))"

definition observed_close :: "('r \<Rightarrow> 'r) \<Rightarrow> 'r observed \<Rightarrow> 'r observed" where
  "observed_close close_inner r =
     (let r = (if on_close_set r
               then r\<lparr>close_outcomes := close_outcomes r @ [outcome_client_cancel], on_close_set := False\<rparr>
               else r)
      in r\<lparr>inner := close_inner (inner r)\<rparr>)"

section \<open>The contract of a body reader\<close>

locale body_reader =
  fixes read :: "'r read_fn"
    and content :: "'r \<Rightarrow> bytes"
    and ending :: "'r \<Rightarrow> read_err"
    and weight :: "'r \<Rightarrow> nat"
  assumes read_bounded: "read r n = (c, e, r') \<Longrightarrow> length c \<le> n"
    and read_more: "0 < n \<Longrightarrow> read r n = (c, None, r') \<Longrightarrow>
          content r = c @ content r' \<and> ending r = ending r' \<and> weight r' < weight r"
    and read_last: "0 < n \<Longrightarrow> read r n = (c, Some x, r') \<Longrightarrow> content r = c \<and> ending r = x"
begin

text \<open>Wrapping a reader in \<open>observedReadCloser\<close> changes nothing its consumer can see.\<close>

lemma observed_is_body_reader:
  "body_reader (observed_read read) (\<lambda>r. content (inner r)) (\<lambda>r. ending (inner r)) (\<lambda>r. weight (inner r))"
  by unfold_locales
     (auto simp: observed_read_def Let_def split: prod.splits if_splits
       dest: read_bounded read_more read_last)

end

lemma script_read_more:
  assumes "0 < n" "script_read r n = (c, None, r')"
  shows "script_content r = c @ script_content r' \<and> script_ending r = script_ending r' \<and>
         script_weight r' < script_weight r"
proof (cases r)
  case (Cons x rest)
  obtain b e where x: "x = (b, e)" by (cases x)
  show ?thesis
  proof (cases "length b \<le> n")
    case True
    with assms Cons x show ?thesis by auto
  next
    case False
    with assms Cons x show ?thesis by (cases e) auto
  qed
qed (use assms in simp)

lemma script_read_last:
  "script_read r n = (c, Some e, r') \<Longrightarrow> script_content r = c \<and> script_ending r = e"
  by (cases "(r, n)" rule: script_read.cases) (auto split: if_splits)

interpretation script: body_reader script_read script_content script_ending script_weight
proof (unfold_locales, goal_cases)
  case (1 r n c e r')
  then show ?case by (cases "(r, n)" rule: script_read.cases) (auto split: if_splits)
qed (simp_all add: script_read_more script_read_last)

interpretation observed: body_reader "observed_read script_read" "\<lambda>r. script_content (inner r)"
    "\<lambda>r. script_ending (inner r)" "\<lambda>r. script_weight (inner r)"
  by (rule script.observed_is_body_reader)

section \<open>The end of a stream is reported exactly once\<close>

text \<open>A history of the calls a consumer makes: reads with a buffer size, and closes.\<close>

datatype body_call = Do_Read nat | Do_Close

fun run_call :: "'r read_fn \<Rightarrow> ('r \<Rightarrow> 'r) \<Rightarrow> body_call \<Rightarrow> 'r observed \<Rightarrow> 'r observed" where
  "run_call rd cl (Do_Read n) r = snd (snd (observed_read rd r n))"
| "run_call rd cl Do_Close r = observed_close cl r"

definition armed_or_reported :: "'r observed \<Rightarrow> bool" where
  "armed_or_reported r \<longleftrightarrow> (if on_close_set r then close_outcomes r = [] else length (close_outcomes r) = 1)"

lemma run_call_armed_or_reported:
  "armed_or_reported r \<Longrightarrow> armed_or_reported (run_call rd cl c r)"
  by (cases c) (auto simp: armed_or_reported_def observed_read_def observed_close_def Let_def
      split: prod.splits)

lemma run_calls_armed_or_reported:
  "armed_or_reported r \<Longrightarrow> armed_or_reported (fold (run_call rd cl) cs r)"
  by (induction cs arbitrary: r) (auto simp: run_call_armed_or_reported)

lemma run_call_disarmed:
  "\<not> on_close_set r \<Longrightarrow> \<not> on_close_set (run_call rd cl c r) \<and> close_outcomes (run_call rd cl c r) = close_outcomes r"
  by (cases c) (auto simp: observed_read_def observed_close_def Let_def split: prod.splits)

lemma run_calls_disarmed:
  "\<not> on_close_set r \<Longrightarrow>
     \<not> on_close_set (fold (run_call rd cl) cs r) \<and> close_outcomes (fold (run_call rd cl) cs r) = close_outcomes r"
proof (induction cs arbitrary: r)
  case (Cons c cs)
  then show ?case using run_call_disarmed [of r rd cl c] by simp
qed simp

lemma close_disarms: "\<not> on_close_set (run_call rd cl Do_Close r)"
  by (simp add: observed_close_def Let_def)

text \<open>
  C36: on every sequence of reads and closes of a body wrapped by \<open>observeClose\<close> the stream's outcome
  is reported at most once, exactly once when the sequence closes the body, and what has been
  reported is never revised.
\<close>

theorem stream_outcome_reported_once:
  "case observe_close (Some s) of
     None \<Rightarrow> False
   | Some b \<Rightarrow>
       length (close_outcomes (fold (run_call rd cl) cs b)) \<le> 1 \<and>
       length (close_outcomes (fold (run_call rd cl) (cs @ Do_Close # cs') b)) = 1 \<and>
       prefix (close_outcomes (fold (run_call rd cl) cs b))
              (close_outcomes (fold (run_call rd cl) (cs @ cs') b))"
proof -
  let ?b = "\<lparr>inner = s, observing = False, on_close_set = True, observed_sizes = [], close_outcomes = []\<rparr>"
  let ?r = "\<lambda>xs. fold (run_call rd cl) xs ?b"
  have inv: "armed_or_reported (?r xs)" for xs
    by (rule run_calls_armed_or_reported) (simp add: armed_or_reported_def)
  have once: "length (close_outcomes (?r cs)) \<le> 1"
    using inv [of cs] by (auto simp: armed_or_reported_def split: if_splits)
  have "\<not> on_close_set (fold (run_call rd cl) cs' (run_call rd cl Do_Close (?r cs)))"
    by (rule run_calls_disarmed [OF close_disarms, THEN conjunct1])
  then have "\<not> on_close_set (?r (cs @ Do_Close # cs'))" by simp
  then have closed: "length (close_outcomes (?r (cs @ Do_Close # cs'))) = 1"
    using inv [of "cs @ Do_Close # cs'"] by (simp add: armed_or_reported_def)
  have "prefix (close_outcomes (?r cs)) (close_outcomes (?r (cs @ cs')))"
  proof (cases "on_close_set (?r cs)")
    case True
    then show ?thesis using inv [of cs] by (simp add: armed_or_reported_def)
  next
    case False
    then show ?thesis using run_calls_disarmed [OF False] by simp
  qed
  with once closed show ?thesis by (simp add: observe_close_def)
qed

end
