(* ===== verification/Temp_Files.thy ===== *)
theory Temp_Files
  imports Audit_Prelude
begin

text \<open>
  The operating-system calls of \<open>pkg/proxy/body_spool.go\<close>: \<open>os.CreateTemp\<close>, \<open>File.Write\<close>,
  \<open>File.Close\<close>, \<open>os.Open\<close> and \<open>os.Remove\<close>.  The state is the content of the files; every call
  advances a counter.  The environment decides which calls fail, how much a failing write has
  already written, how far an open file can be read when reading it fails, and which random names
  \<open>CreateTemp\<close> tries, so theorems hold for every pattern of failures.
\<close>

record os_state =
  files :: "string \<rightharpoonup> bytes"
  os_ticks :: nat

datatype os_op = Op_Create | Op_Write | Op_Close | Op_Open | Op_Read | Op_Remove

record os_env =
  io_fails :: "os_op \<Rightarrow> nat \<Rightarrow> bool"
  short_write :: "nat \<Rightarrow> nat"
  short_read :: "nat \<Rightarrow> nat"
  random_name :: "nat \<Rightarrow> string"
  default_temp_dir :: string
  alloc_max :: nat

datatype os_error = Op_Failed os_op | Already_Exists | Not_Exist

type_synonym 'a os_result = "(os_error + 'a) \<times> os_state"

definition os_tick :: "os_state \<Rightarrow> os_state" where
  "os_tick s = s\<lparr>os_ticks := Suc (os_ticks s)\<rparr>"

definition join_path :: "string \<Rightarrow> string \<Rightarrow> string" where
  "join_path dir name = (if suffix ''/'' dir then dir @ name else dir @ ''/'' @ name)"

text \<open>Exclusive creation is retried with a new random name while the name is taken.\<close>

function create_try :: "os_env \<Rightarrow> nat \<Rightarrow> string \<Rightarrow> os_state \<Rightarrow> string os_result" where
  "create_try env tries base s =
     (let name = base @ random_name env (os_ticks s)
      in if io_fails env Op_Create (os_ticks s) then (Inl (Op_Failed Op_Create), os_tick s)
         else if files s name = None then
           (Inr name, os_tick (s\<lparr>files := (files s)(name \<mapsto> [])\<rparr>))
         else if 1 < tries then create_try env (tries - 1) base (os_tick s)
         else (Inl Already_Exists, os_tick s))"
  by pat_completeness auto
termination
  by (relation "measure (\<lambda>(env, tries, base, s). tries)") auto

declare create_try.simps [simp del]

definition create_temp :: "os_env \<Rightarrow> string \<Rightarrow> string \<Rightarrow> os_state \<Rightarrow> string os_result" where
  "create_temp env dir name s =
     create_try env 10000 (join_path (if dir = '''' then default_temp_dir env else dir) name) s"

text \<open>\<open>File.Write\<close> reports an error whenever it wrote less than it was given.\<close>

definition write_file :: "os_env \<Rightarrow> string \<Rightarrow> bytes \<Rightarrow> os_state \<Rightarrow> unit os_result" where
  "write_file env p data s =
     (let old = (case files s p of None \<Rightarrow> [] | Some d \<Rightarrow> d);
          failed = io_fails env Op_Write (os_ticks s);
          done = (if failed then take (short_write env (os_ticks s)) data else data)
      in (if failed then Inl (Op_Failed Op_Write) else Inr (),
          os_tick (s\<lparr>files := (files s)(p \<mapsto> old @ done)\<rparr>)))"

definition close_file :: "os_env \<Rightarrow> os_state \<Rightarrow> unit os_result" where
  "close_file env s =
     (if io_fails env Op_Close (os_ticks s) then Inl (Op_Failed Op_Close) else Inr (), os_tick s)"

definition open_file :: "os_env \<Rightarrow> string \<Rightarrow> os_state \<Rightarrow> bytes os_result" where
  "open_file env p s =
     (if io_fails env Op_Open (os_ticks s) then Inl (Op_Failed Op_Open)
      else case files s p of None \<Rightarrow> Inl Not_Exist | Some d \<Rightarrow> Inr d, os_tick s)"

definition remove_file :: "os_env \<Rightarrow> string \<Rightarrow> os_state \<Rightarrow> unit os_result" where
  "remove_file env p s =
     (if io_fails env Op_Remove (os_ticks s) then (Inl (Op_Failed Op_Remove), os_tick s)
      else if files s p = None then (Inl Not_Exist, os_tick s)
      else (Inr (), os_tick (s\<lparr>files := (files s)(p := None)\<rparr>)))"

section \<open>Laws\<close>

text \<open>
  From \<open>s\<close> to \<open>s'\<close> no file that was there has changed, and a new file is there only because removing it failed
  in between, or because of \<open>gave_up\<close>.
\<close>

definition removal_failed :: "os_env \<Rightarrow> os_state \<Rightarrow> os_state \<Rightarrow> bool" where
  "removal_failed env s s' \<longleftrightarrow> (\<exists>t. os_ticks s \<le> t \<and> t < os_ticks s' \<and> io_fails env Op_Remove t)"

definition tidy :: "os_env \<Rightarrow> bool \<Rightarrow> os_state \<Rightarrow> os_state \<Rightarrow> bool" where
  "tidy env gave_up s s' \<longleftrightarrow>
     os_ticks s \<le> os_ticks s' \<and>
     (\<forall>q. files s' q = files s q \<or> files s q = None \<and> (gave_up \<or> removal_failed env s s'))"

lemma removal_failed_mono:
  "removal_failed env s s' \<Longrightarrow> os_ticks r \<le> os_ticks s \<Longrightarrow> os_ticks s' \<le> os_ticks t \<Longrightarrow> removal_failed env r t"
  unfolding removal_failed_def by (meson le_trans less_le_trans)

lemma tidy_same: "files s' = files s \<Longrightarrow> os_ticks s \<le> os_ticks s' \<Longrightarrow> tidy env p s s'"
  by (simp add: tidy_def)

lemma tidy_trans:
  assumes "tidy env p s s'" "tidy env p s' s''"
  shows "tidy env p s s''"
proof -
  have o: "os_ticks s \<le> os_ticks s'" "os_ticks s' \<le> os_ticks s''" using assms by (simp_all add: tidy_def)
  have m: "removal_failed env s s'" if "removal_failed env s s'" using that .
  have "removal_failed env s s''" if "removal_failed env s s' \<or> removal_failed env s' s''"
    using that removal_failed_mono o by (meson le_refl)
  then show ?thesis using assms o unfolding tidy_def by (metis le_trans)
qed

text \<open>A file that is created, lives while others come and go, and is removed.\<close>

lemma tidy_removed:
  assumes "files s p = None" "files s1 = (files s)(p \<mapsto> d)" "os_ticks s \<le> os_ticks s1"
    and "tidy env g s1 s2" "remove_file env p s2 = (r, s3)"
  shows "tidy env g s s3"
proof -
  have t: "os_ticks s3 = Suc (os_ticks s2)" "os_ticks s1 \<le> os_ticks s2"
    using assms(4,5) by (auto simp: remove_file_def tidy_def os_tick_def split: if_splits)
  have q: "files s3 q = files s2 q" if "q \<noteq> p" for q
    using assms(5) that by (auto simp: remove_file_def os_tick_def split: if_splits)
  have p: "files s3 p = None \<or> removal_failed env s s3"
    using assms(5) t assms(3) by (auto simp: remove_file_def os_tick_def removal_failed_def split: if_splits)
  have m: "removal_failed env s1 s2 \<Longrightarrow> removal_failed env s s3"
    using t assms(3) by (auto intro: removal_failed_mono)
  have "files s3 r = files s r \<or> files s r = None \<and> (g \<or> removal_failed env s s3)" for r
  proof (cases "r = p")
    case True
    then show ?thesis using p assms(1) by auto
  next
    case False
    then have "files s3 r = files s2 r" "files s1 r = files s r" using q assms(2) by simp_all
    then show ?thesis using m assms(4) unfolding tidy_def by metis
  qed
  with t assms(3) show ?thesis by (simp add: tidy_def)
qed

lemma tidy_no_failure:
  "tidy env False s s' \<Longrightarrow> \<forall>t. \<not> io_fails env Op_Remove t \<Longrightarrow> files s' = files s"
  by (auto simp: tidy_def removal_failed_def)

lemma tidy_weaken: "tidy env g s s' \<Longrightarrow> (g \<Longrightarrow> g') \<Longrightarrow> tidy env g' s s'"
  by (auto simp: tidy_def)

lemma os_ticks_steps [simp]:
  "os_ticks (os_tick s) = Suc (os_ticks s)"
  "os_ticks (snd (write_file env p d s)) = Suc (os_ticks s)"
  "os_ticks (snd (close_file env s)) = Suc (os_ticks s)"
  "os_ticks (snd (open_file env p s)) = Suc (os_ticks s)"
  "os_ticks (snd (remove_file env p s)) = Suc (os_ticks s)"
  by (simp_all add: os_tick_def write_file_def close_file_def open_file_def remove_file_def Let_def)

lemma files_os_tick [simp]: "files (os_tick s) = files s"
  by (simp add: os_tick_def)

lemma create_try_files:
  "create_try env tries base s = (out, s') \<Longrightarrow>
     (case out of Inl _ \<Rightarrow> files s' = files s
      | Inr p \<Rightarrow> files s p = None \<and> files s' = (files s)(p \<mapsto> []) \<and> prefix base p)"
proof (induction env tries base s rule: create_try.induct)
  case (1 env tries base s)
  show ?case
  proof (cases "io_fails env Op_Create (os_ticks s) \<or> files s (base @ random_name env (os_ticks s)) = None
      \<or> \<not> 1 < tries")
    case True
    with "1.prems" show ?thesis by (auto simp: create_try.simps [of env tries base s] Let_def split: if_splits)
  next
    case False
    with 1 show ?thesis
      by (auto simp: create_try.simps [of env tries base s] Let_def split: sum.splits)
  qed
qed

lemma create_try_ticks: "os_ticks s < os_ticks (snd (create_try env tries base s))"
proof (induction env tries base s rule: create_try.induct)
  case (1 env tries base s)
  show ?case
    using "1.IH" [OF refl] by (subst create_try.simps) (auto simp: Let_def intro: Suc_lessD)
qed

lemma create_temp_ticks: "os_ticks s < os_ticks (snd (create_temp env dir name s))"
  by (simp add: create_temp_def create_try_ticks)

lemma create_temp_files [file_simps]:
  "create_temp env dir name s = (Inl e, s') \<Longrightarrow> files s' = files s"
  "create_temp env dir name s = (Inr p, s') \<Longrightarrow> files s p = None \<and> files s' = (files s)(p \<mapsto> [])"
  using create_try_files by (fastforce simp: create_temp_def)+

lemma create_temp_path_nonempty:
  "create_temp env dir name s = (Inr p, s') \<Longrightarrow> name \<noteq> '''' \<Longrightarrow> p \<noteq> ''''"
  using create_try_files [of env 10000 _ s "Inr p" s'] unfolding create_temp_def join_path_def
  by (fastforce simp: prefix_def split: if_splits)

lemma create_temp_fresh:
  assumes "\<forall>t. \<not> io_fails env Op_Create t"
    and "files s (join_path (if dir = '''' then default_temp_dir env else dir) name
            @ random_name env (os_ticks s)) = None"
  shows "\<exists>p s'. create_temp env dir name s = (Inr p, s')"
  using assms by (simp add: create_temp_def create_try.simps Let_def)

lemma files_close [file_simps]: "files (snd (close_file env s)) = files s"
  by (simp add: close_file_def)

lemma files_open [file_simps]: "files (snd (open_file env p s)) = files s"
  by (simp add: open_file_def)

lemma files_write [file_simps]:
  "write_file env p data s = (Inr x, s') \<Longrightarrow> files s p = Some d \<Longrightarrow> files s' = (files s)(p \<mapsto> d @ data)"
  "write_file env p data s = (Inl e, s') \<Longrightarrow> (files s')(p := None) = (files s)(p := None)"
  by (auto simp: write_file_def Let_def split: if_splits)

lemma files_remove [file_simps]:
  "(files (snd (remove_file env p s)))(p := None) = (files s)(p := None)"
  "\<forall>t. \<not> io_fails env Op_Remove t \<Longrightarrow> files (snd (remove_file env p s)) = (files s)(p := None)"
  by (auto simp: remove_file_def fun_upd_idem)

end
