(* ===== verification/Body_Spool.thy ===== *)
theory Body_Spool
  imports Body_Reader Temp_Files
begin

text \<open>
  \<open>pkg/proxy/body_spool.go\<close>: \<open>spoolBody\<close> copies a body to a temporary file and keeps a bounded
  prefix in memory for the audit event.  The copy loop runs until the reader ends or something
  fails; it is a partial function, and inside the locale \<open>body_reader\<close> it is shown to return.  The
  operating system and its failures are those of \<open>Temp_Files\<close>.
\<close>

definition copy_buffer_size :: nat where
  "copy_buffer_size = 32 * 1024"

record spooled_body =
  sp_path :: string
  captured :: bytes
  sp_size :: int64
  truncated :: bool

datatype spool_error =
    Create_Temp_Error os_error
  | Write_Temp_Error os_error
  | Read_Body_Error
  | Close_Temp_Error os_error
  | Makeslice_Panic

definition buffer_capacity :: "int64 \<Rightarrow> int" where
  "buffer_capacity max_capture_bytes =
     (if sint max_capture_bytes \<le> 0 then 0 else sint max_capture_bytes)"

section \<open>The copy loop\<close>

definition capture_chunk :: "int64 \<Rightarrow> bytes \<Rightarrow> spooled_body \<Rightarrow> spooled_body" where
  "capture_chunk max_capture_bytes chunk res =
     (let res = res\<lparr>sp_size := sp_size res + of_nat (length chunk)\<rparr>
      in if int (length (captured res)) < sint max_capture_bytes then
           let remaining = sint max_capture_bytes - int (length (captured res));
               remaining = (if int (length chunk) < remaining then int (length chunk) else remaining)
           in res\<lparr>captured := captured res @ take (nat remaining) chunk\<rparr>
         else res)"

text \<open>\<open>file.Close()\<close> then \<open>os.Remove(file.Name())\<close>, both results ignored.\<close>

definition discard_file :: "os_env \<Rightarrow> string \<Rightarrow> os_state \<Rightarrow> os_state" where
  "discard_file env p s = snd (remove_file env p (snd (close_file env s)))"

text \<open>
  One iteration: \<open>Inl\<close> when the loop is left (with the result, the reader and the state), \<open>Inr\<close> when it
  goes on.
\<close>

definition spool_step ::
  "'r read_fn \<Rightarrow> os_env \<Rightarrow> int64 \<Rightarrow> 'r \<Rightarrow> spooled_body \<Rightarrow> os_state \<Rightarrow>
     ((spool_error + spooled_body) \<times> 'r \<times> os_state) + ('r \<times> spooled_body \<times> os_state)" where
  "spool_step rd env max_capture_bytes r res s =
     (case rd r copy_buffer_size of (chunk, read_err, r') \<Rightarrow>
        (case (if 0 < length chunk then write_file env (sp_path res) chunk s else (Inr (), s)) of
           (Inl e, s1) \<Rightarrow> Inl (Inl (Write_Temp_Error e), r', discard_file env (sp_path res) s1)
         | (Inr _, s1) \<Rightarrow>
             let res1 = (if 0 < length chunk then capture_chunk max_capture_bytes chunk res else res)
             in case read_err of
                  Some EOF \<Rightarrow> Inl (Inr res1, r', s1)
                | Some Read_Failed \<Rightarrow>
                    Inl (Inl Read_Body_Error, r', discard_file env (sp_path res) s1)
                | None \<Rightarrow> Inr (r', res1, s1)))"

partial_function (option) spool_loop ::
  "'r read_fn \<Rightarrow> os_env \<Rightarrow> int64 \<Rightarrow> 'r \<Rightarrow> spooled_body \<Rightarrow> os_state \<Rightarrow>
     ((spool_error + spooled_body) \<times> 'r \<times> os_state) option" where
  "spool_loop rd env max_capture_bytes r res s =
     (case spool_step rd env max_capture_bytes r res s of
        Inl finished \<Rightarrow> Some finished
      | Inr next \<Rightarrow>
          spool_loop rd env max_capture_bytes (fst next) (fst (snd next)) (snd (snd next)))"

section \<open>spoolBody, Open and Cleanup\<close>

text \<open>
  \<open>close_body\<close> is the body's \<open>Close\<close>, deferred on every way out; \<open>no_body\<close> is \<open>http.NoBody\<close>, used for a
  nil body.
\<close>

definition spool_body ::
  "'r read_fn \<Rightarrow> ('r \<Rightarrow> 'r) \<Rightarrow> 'r \<Rightarrow> os_env \<Rightarrow> 'r option \<Rightarrow> string \<Rightarrow> int64 \<Rightarrow> os_state \<Rightarrow>
     ((spool_error + spooled_body) \<times> 'r \<times> os_state) option" where
  "spool_body rd close_body no_body env body temp_dir max_capture_bytes s =
     (let r = (case body of None \<Rightarrow> no_body | Some b \<Rightarrow> b)
      in case create_temp env temp_dir ''audit-pass-through-body-'' s of
           (Inl e, s1) \<Rightarrow> Some (Inl (Create_Temp_Error e), close_body r, s1)
         | (Inr p, s1) \<Rightarrow>
             if int (alloc_max env) < buffer_capacity max_capture_bytes
             then Some (Inl Makeslice_Panic, close_body r, s1)
             else
               (case spool_loop rd env max_capture_bytes r
                       \<lparr>sp_path = p, captured = [], sp_size = 0, truncated = False\<rparr> s1 of
                  None \<Rightarrow> None
                | Some (Inl e, r', s2) \<Rightarrow> Some (Inl e, close_body r', s2)
                | Some (Inr res, r', s2) \<Rightarrow>
                    (case close_file env s2 of
                       (Inl e, s3) \<Rightarrow>
                         Some (Inl (Close_Temp_Error e), close_body r', snd (remove_file env p s3))
                     | (Inr _, s3) \<Rightarrow>
                         Some (Inr (res\<lparr>truncated := sint max_capture_bytes < sint (sp_size res)\<rparr>),
                               close_body r', s3))))"

definition spooled_open :: "os_env \<Rightarrow> spooled_body \<Rightarrow> os_state \<Rightarrow> bytes os_result" where
  "spooled_open env b s = open_file env (sp_path b) s"

text \<open>A nil receiver and an empty path are accepted.\<close>

definition spooled_cleanup :: "os_env \<Rightarrow> spooled_body option \<Rightarrow> os_state \<Rightarrow> unit os_result" where
  "spooled_cleanup env b s =
     (case b of None \<Rightarrow> (Inr (), s)
      | Some b \<Rightarrow> if sp_path b = '''' then (Inr (), s) else remove_file env (sp_path b) s)"

text \<open>
  What \<open>Open\<close> returned, as the reader it is: the content, or as much of it as can be read before a read fails.
\<close>

definition reopened :: "os_env \<Rightarrow> os_state \<Rightarrow> bytes \<Rightarrow> body_script" where
  "reopened env s content =
     (if io_fails env Op_Read (os_ticks s)
      then [(take (short_read env (os_ticks s)) content, None), ([], Some Read_Failed)]
      else [(content, None)])"

lemma reopened_whole:
  "\<not> io_fails env Op_Read (os_ticks s) \<Longrightarrow> reopened env s content = [(content, None)]"
  by (simp add: reopened_def)

lemma reopened_reads:
  "prefix (script_content (reopened env s content)) content"
  "script_ending (reopened env s content) = EOF \<Longrightarrow> reopened env s content = [(content, None)]"
  "script_ending (reopened env s content) = Read_Failed \<Longrightarrow> io_fails env Op_Read (os_ticks s)"
  by (auto simp: reopened_def take_is_prefix split: if_splits)

section \<open>What has been spooled so far\<close>

text \<open>
  Invariant of the loop: the file holds \<open>pre\<close>, memory holds its first \<open>max_capture_bytes\<close> bytes, the
  size counts it, and no other file has changed since \<open>F\<close>.
\<close>

definition spooling ::
  "(string \<rightharpoonup> bytes) \<Rightarrow> int64 \<Rightarrow> bytes \<Rightarrow> spooled_body \<Rightarrow> os_state \<Rightarrow> bool" where
  "spooling F m pre res s \<longleftrightarrow>
     F (sp_path res) = None \<and> files s = F(sp_path res \<mapsto> pre) \<and>
     captured res = take (nat (sint m)) pre \<and> sp_size res = of_nat (length pre)"

lemma capture_chunk_take:
  assumes "captured res = take (nat (sint m)) pre" "sp_size res = of_nat (length pre)"
  shows "captured (capture_chunk m chunk res) = take (nat (sint m)) (pre @ chunk)"
    and "sp_size (capture_chunk m chunk res) = of_nat (length (pre @ chunk))"
    and "sp_path (capture_chunk m chunk res) = sp_path res"
proof -
  let ?m = "nat (sint m)"
  show "captured (capture_chunk m chunk res) = take ?m (pre @ chunk)"
  proof (cases "int (length (captured res)) < sint m")
    case True
    then have all: "take ?m pre = pre" using assms(1) by simp
    then have cap: "captured res = pre" using assms(1) by simp
    have "0 \<le> sint m" using True by linarith
    then obtain M where M: "sint m = int M" by (metis zero_le_imp_eq_int)
    have "take (nat (if int (length chunk) < int M - int (length pre) then int (length chunk)
             else int M - int (length pre))) chunk = take (M - length pre) chunk"
      by (auto simp: nat_diff_distrib' not_less)
    with True all cap M show ?thesis
      by (simp add: capture_chunk_def Let_def)
  next
    case False
    then have "?m \<le> length pre" using assms(1) by auto
    with False assms(1) show ?thesis by (simp add: capture_chunk_def)
  qed
qed (use assms in \<open>simp_all add: capture_chunk_def Let_def\<close>)

lemma discard_file_files:
  "(files (discard_file env p s))(p := None) = (files s)(p := None)"
  "\<forall>t. \<not> io_fails env Op_Remove t \<Longrightarrow> files (discard_file env p s) = (files s)(p := None)"
  by (simp_all add: discard_file_def file_simps)

text \<open>
  How the loop fails: with the cause, with every file but its own as it found them, and with its own gone
  unless the last call, which was to remove it, failed.
\<close>

definition spool_failed ::
  "os_env \<Rightarrow> (string \<rightharpoonup> bytes) \<Rightarrow> string \<Rightarrow> read_err \<Rightarrow> spool_error \<Rightarrow> os_state \<Rightarrow> bool" where
  "spool_failed env F p ending e s \<longleftrightarrow>
     (files s)(p := None) = F \<and> (files s = F \<or> (\<exists>t. Suc t = os_ticks s \<and> io_fails env Op_Remove t)) \<and>
     (case e of
        Write_Temp_Error _ \<Rightarrow> \<exists>t. io_fails env Op_Write t
      | Read_Body_Error \<Rightarrow> ending = Read_Failed
      | _ \<Rightarrow> False)"

lemma spooling_write:
  assumes "spooling F m pre res s" "write_file env (sp_path res) chunk s = (Inr x, s1)"
  shows "spooling F m (pre @ chunk) (capture_chunk m chunk res) s1"
proof -
  have "files s1 = (files s)(sp_path res \<mapsto> pre @ chunk)"
    using assms by (intro files_write(1)) (auto simp: spooling_def)
  with assms(1) show ?thesis by (simp add: spooling_def capture_chunk_take)
qed

lemma discard_clean:
  assumes "F p = None" "(files s)(p := None) = F"
  shows "(files (discard_file env p s))(p := None) = F \<and>
         (files (discard_file env p s) = F \<or>
          (\<exists>t. Suc t = os_ticks (discard_file env p s) \<and> io_fails env Op_Remove t))"
  using assms discard_file_files(1) [where env = env and p = p and s = s]
  by (auto simp: discard_file_def remove_file_def close_file_def fun_upd_idem)

lemma spooling_files: "spooling F m pre res s \<Longrightarrow> (files s)(sp_path res := None) = F"
  by (auto simp: spooling_def fun_upd_idem)

text \<open>The calls of the loop only move the counter on.\<close>

lemma spool_step_ticks:
  "case spool_step rd env m r res s of
     Inr (r', res', s') \<Rightarrow> os_ticks s \<le> os_ticks s'
   | Inl (out, r', s') \<Rightarrow> os_ticks s \<le> os_ticks s'"
proof -
  obtain chunk err r' where rd: "rd r copy_buffer_size = (chunk, err, r')" by (metis prod_cases3)
  obtain w s1 where w: "(if 0 < length chunk then write_file env (sp_path res) chunk s else (Inr (), s)) = (w, s1)"
    by (metis surj_pair)
  have "os_ticks s \<le> os_ticks s1"
    using arg_cong [OF w, of "\<lambda>x. os_ticks (snd x)"] by (simp split: if_splits)
  then show ?thesis
    unfolding spool_step_def rd prod.case w
    by (simp add: discard_file_def Let_def split: sum.split option.split read_err.split)
qed

lemma write_file_fails: "write_file env p d s = (Inl e, s') \<Longrightarrow> \<exists>t. io_fails env Op_Write t"
  by (auto simp: write_file_def Let_def split: if_splits)

context body_reader
begin

lemma spool_step_outcome:
  assumes inv: "spooling F m pre res s"
  shows "case spool_step read env m r res s of
           Inr (r', res', s') \<Rightarrow>
             (\<exists>c. content r = c @ content r' \<and> spooling F m (pre @ c) res' s') \<and>
             ending r = ending r' \<and> weight r' < weight r \<and> sp_path res' = sp_path res
         | Inl (Inr res', r', s') \<Rightarrow>
             ending r = EOF \<and> spooling F m (pre @ content r) res' s' \<and> sp_path res' = sp_path res
         | Inl (Inl e, r', s') \<Rightarrow> spool_failed env F (sp_path res) (ending r) e s'"
proof -
  have fresh: "F (sp_path res) = None" using inv by (simp add: spooling_def)
  obtain chunk err r' where rd: "read r copy_buffer_size = (chunk, err, r')"
    by (metis prod_cases3)
  obtain w s1 where w: "(if 0 < length chunk then write_file env (sp_path res) chunk s else (Inr (), s)) = (w, s1)"
    by (metis surj_pair)
  have pos: "0 < copy_buffer_size" by (simp add: copy_buffer_size_def)
  let ?res1 = "if 0 < length chunk then capture_chunk m chunk res else res"
  have path: "sp_path ?res1 = sp_path res" by (simp add: capture_chunk_def Let_def)
  show ?thesis
  proof (cases w)
    case (Inl e)
    then have "write_file env (sp_path res) chunk s = (Inl e, s1)" using w by (auto split: if_splits)
    then have "\<exists>t. io_fails env Op_Write t" "(files s1)(sp_path res := None) = F"
      using write_file_fails files_write(2) spooling_files [OF inv] by metis+
    with discard_clean [of F "sp_path res", OF fresh] show ?thesis
      unfolding spool_step_def rd prod.case w Inl by (simp add: spool_failed_def)
  next
    case (Inr x)
    have inv1: "spooling F m (pre @ chunk) ?res1 s1"
      using w Inr inv spooling_write [OF inv] by (auto split: if_splits)
    show ?thesis
    proof (cases err)
      case None
      with read_more [OF pos, of r chunk r'] rd
      have "content r = chunk @ content r'" "ending r = ending r'" "weight r' < weight r" by auto
      with inv1 path None show ?thesis
        unfolding spool_step_def rd prod.case w Inr by (simp add: Let_def)
    next
      case (Some e)
      have last: "content r = chunk" "ending r = e" using read_last [OF pos] rd Some by auto
      have "spool_failed env F (sp_path res) Read_Failed Read_Body_Error (discard_file env (sp_path res) s1)"
        using discard_clean [of F "sp_path res" s1, OF fresh] spooling_files [OF inv1] path
        by (simp add: spool_failed_def)
      with last inv1 path Some show ?thesis
        unfolding spool_step_def rd prod.case w Inr by (cases e) (simp_all add: Let_def)
    qed
  qed
qed

lemma spool_loop_outcome:
  assumes "spooling F m pre res s"
  shows "\<exists>out r' s'. spool_loop read env m r res s = Some (out, r', s') \<and> os_ticks s \<le> os_ticks s' \<and>
           (case out of
              Inr res' \<Rightarrow> ending r = EOF \<and> spooling F m (pre @ content r) res' s' \<and> sp_path res' = sp_path res
            | Inl e \<Rightarrow> spool_failed env F (sp_path res) (ending r) e s')"
  using assms
proof (induction "weight r" arbitrary: r pre res s rule: less_induct)
  case less
  note step = spool_step_outcome [OF less.prems, of env r]
  note ticks = spool_step_ticks [where rd = read and env = env and m = m and r = r and res = res and s = s]
  show ?case
  proof (cases "spool_step read env m r res s")
    case (Inl fin)
    obtain out r' s' where "fin = (out, r', s')" by (cases fin)
    with step ticks Inl show ?thesis by (auto simp: spool_loop.simps [of read env m r res s] split: sum.splits)
  next
    case (Inr nx)
    obtain r' res' s' where n: "nx = (r', res', s')" by (cases nx)
    with step Inr obtain c where c: "content r = c @ content r'" "spooling F m (pre @ c) res' s'"
      "ending r = ending r'" "weight r' < weight r" "sp_path res' = sp_path res"
      by auto
    have "spool_loop read env m r res s = spool_loop read env m r' res' s'"
      using Inr n by (simp add: spool_loop.simps [of read env m r res s])
    moreover have "os_ticks s \<le> os_ticks s'" using ticks Inr n by simp
    moreover obtain out q t where "spool_loop read env m r' res' s' = Some (out, q, t)" "os_ticks s' \<le> os_ticks t"
      "case out of Inr res'' \<Rightarrow> ending r' = EOF \<and> spooling F m ((pre @ c) @ content r') res'' t \<and> sp_path res'' = sp_path res'
         | Inl e \<Rightarrow> spool_failed env F (sp_path res') (ending r') e t"
      using less.hyps [OF c(4,2)] by blast
    ultimately show ?thesis using c(3,5) by (intro exI [of _ out] exI [of _ q] exI [of _ t]) (simp add: c(1) split: sum.splits)
  qed
qed

end

text \<open>
  What a failure may leave in the directory: nothing, or one new file that could not be removed in the
  course of it.
\<close>

definition discarded :: "os_env \<Rightarrow> os_state \<Rightarrow> os_state \<Rightarrow> bool" where
  "discarded env s s' \<longleftrightarrow>
     files s' = files s \<or>
     (\<exists>p d. files s p = None \<and> files s' = (files s)(p \<mapsto> d) \<and> removal_failed env s s')"

lemma discarded_tidy: "discarded env s s' \<Longrightarrow> os_ticks s \<le> os_ticks s' \<Longrightarrow> tidy env False s s'"
  by (auto simp: discarded_def tidy_def split: if_splits)

lemma discardedI:
  assumes "files s p = None" "(files s')(p := None) = files s" "os_ticks s < os_ticks s'"
    and "files s' = files s \<or> (\<exists>t. Suc t = os_ticks s' \<and> io_fails env Op_Remove t)"
  shows "discarded env s s'"
proof (cases "files s' p")
  case None
  then have "files s' = files s" using assms(2) by (simp add: fun_upd_idem)
  then show ?thesis by (simp add: discarded_def)
next
  case (Some d)
  then have "files s' \<noteq> files s" using assms(1) by auto
  then obtain t where "Suc t = os_ticks s'" "io_fails env Op_Remove t" using assms(4) by blast
  then have "removal_failed env s s'" using assms(3) unfolding removal_failed_def by (metis less_Suc_eq_le lessI)
  moreover have "files s' = (files s)(p \<mapsto> d)" using assms(2) Some by (metis fun_upd_triv fun_upd_upd)
  ultimately show ?thesis using assms(1) unfolding discarded_def by blast
qed

text \<open>
  The whole routine: it returns; what it returns on success is determined by the content alone;
  and on failure it says why, and what becomes of the file.
\<close>

definition spool_outcome ::
  "os_env \<Rightarrow> string \<Rightarrow> bytes \<Rightarrow> read_err \<Rightarrow> int64 \<Rightarrow> os_state \<Rightarrow>
     spool_error + spooled_body \<Rightarrow> os_state \<Rightarrow> bool" where
  "spool_outcome env dir data ending m s out s' \<longleftrightarrow>
     os_ticks s \<le> os_ticks s' \<and>
     (case out of
        Inr res \<Rightarrow>
          ending = EOF \<and> sp_path res \<noteq> '''' \<and> files s (sp_path res) = None \<and> files s' = (files s)(sp_path res \<mapsto> data) \<and>
          captured res = take (nat (sint m)) data \<and> sp_size res = of_nat (length data) \<and>
          truncated res = (sint m < sint (of_nat (length data) :: int64))
      | Inl Makeslice_Panic \<Rightarrow>
          int (alloc_max env) < sint m \<and> (\<exists>p. files s p = None \<and> files s' = (files s)(p \<mapsto> []))
      | Inl e \<Rightarrow>
          discarded env s s' \<and>
          (case e of
             Create_Temp_Error x \<Rightarrow>
               files s' = files s \<and> create_temp env dir ''audit-pass-through-body-'' s = (Inl x, s')
           | Write_Temp_Error _ \<Rightarrow> \<exists>t. io_fails env Op_Write t
           | Close_Temp_Error _ \<Rightarrow> \<exists>t. io_fails env Op_Close t
           | Read_Body_Error \<Rightarrow> ending = Read_Failed
           | Makeslice_Panic \<Rightarrow> False))"

context body_reader
begin

lemma spool_body_outcome:
  "\<exists>out r' s'. spool_body read cl nb env (Some r) dir m s = Some (out, r', s') \<and>
           spool_outcome env dir (content r) (ending r) m s out s'"
proof -
  obtain c s1 where c: "create_temp env dir ''audit-pass-through-body-'' s = (c, s1)" by fastforce
  show ?thesis
  proof (cases c)
    case (Inl e)
    then show ?thesis
      using c file_simps(1) [of env dir _ s e s1] create_temp_ticks [of s env dir "''audit-pass-through-body-''"]
      by (auto simp: spool_body_def spool_outcome_def discarded_def)
  next
    case (Inr p)
    let ?res = "\<lparr>sp_path = p, captured = [], sp_size = 0, truncated = False\<rparr>"
    have p: "files s p = None" "files s1 = (files s)(p \<mapsto> [])" "p \<noteq> ''''"
      using c Inr create_temp_files(2) [of env dir _ s p s1] create_temp_path_nonempty [of env dir _ s p s1]
      by auto
    have t1: "os_ticks s < os_ticks s1" using create_temp_ticks [of s env dir "''audit-pass-through-body-''"] c by simp
    from p(1,2) have "spooling (files s) m [] ?res s1" by (simp add: spooling_def)
    from spool_loop_outcome [OF this, of env r, simplified spooled_body.simps append_Nil]
    obtain out r' s' where
      loop: "spool_loop read env m r ?res s1 = Some (out, r', s')" and t2: "os_ticks s1 \<le> os_ticks s'"
      and out: "case out of
          Inr res' \<Rightarrow> ending r = EOF \<and> spooling (files s) m (content r) res' s' \<and> sp_path res' = p
        | Inl e \<Rightarrow> spool_failed env (files s) p (ending r) e s'" by blast
    show ?thesis
    proof (cases "int (alloc_max env) < buffer_capacity m")
      case True
      then have "int (alloc_max env) < sint m" by (auto simp: buffer_capacity_def split: if_splits)
      with True c Inr p(1,2) t1 show ?thesis by (auto simp: spool_body_def spool_outcome_def)
    next
      case False
      note body = spool_body_def [of read cl nb env "Some r" dir m s, simplified c Inr]
      show ?thesis
      proof (cases out)
        fix e assume e: "out = Inl e"
        then have f: "spool_failed env (files s) p (ending r) e s'" using out by simp
        then have "discarded env s s'" using t1 t2 p(1) by (intro discardedI [of s p]) (auto simp: spool_failed_def)
        with e f t1 t2 show ?thesis
          by (cases e) (simp_all add: body False loop spool_outcome_def spool_failed_def)
      next
        fix res assume res: "out = Inr res"
        obtain k s3 where k: "close_file env s' = (k, s3)" by fastforce
        then have f3: "files s3 = files s'" "os_ticks s3 = Suc (os_ticks s')"
          using files_close [of env s'] os_ticks_steps(3) [of env s'] by simp_all
        show ?thesis
        proof (cases k)
          fix e assume "k = Inl e"
          moreover from this k have "\<exists>t. io_fails env Op_Close t" by (auto simp: close_file_def split: if_splits)
          moreover have f: "(files s')(p := None) = files s"
            using spooling_files out res by fastforce
          moreover have "discarded env s (snd (remove_file env p s3))"
            using p(1) f f3 t1 t2
            by (intro discardedI [of s p]) (auto simp: remove_file_def fun_upd_idem)
          ultimately show ?thesis
            using k res f3 t1 t2 by (auto simp: body False loop spool_outcome_def)
        next
          fix x assume "k = Inr x"
          with k res f3 out p t1 t2 show ?thesis
            by (auto simp: body False loop spool_outcome_def spooling_def)
        qed
      qed
    qed
  qed
qed

end

section \<open>Properties\<close>

text \<open>
  C18: \<open>spoolBody\<close> returns for every body and every pattern of operating-system failures.  On success
  the file holds the whole body, memory its first \<open>maxCaptureBytes\<close> bytes, and the size and the
  truncation flag are those of the body.  On failure the cause is a failed operation, a failed read or
  a capture buffer that cannot be allocated; every other file is as it was, and a file of its own is left
  behind only if removing it failed in the course of the call, or if the allocation panicked,
  which leaves the new file empty in the directory.
\<close>

theorem spool_body_exact:
  "\<exists>out b' s'. spool_body (observed_read script_read) cl nb env (Some b) dir m s = Some (out, b', s') \<and>
     spool_outcome env dir (script_content (inner b)) (script_ending (inner b)) m s out s'"
  by (rule observed.spool_body_outcome)

lemma spool_body_outcomeD:
  assumes "spool_body (observed_read script_read) cl nb env (Some b) dir m s = Some (out, b', s')"
  shows "spool_outcome env dir (script_content (inner b)) (script_ending (inner b)) m s out s'"
  using assms observed.spool_body_outcome [of cl nb env b dir m s] by auto

text \<open>
  C20: with a positive limit, a body is marked truncated exactly when what was captured is not the
  whole of it.
\<close>

theorem truncated_iff_incomplete:
  assumes "spool_body (observed_read script_read) cl nb env (Some b) dir m s = Some (Inr res, b', s')"
    and "0 < sint m" "length (script_content (inner b)) < 2 ^ 63"
  shows "truncated res \<longleftrightarrow> captured res \<noteq> script_content (inner b)"
  using spool_body_outcomeD [OF assms(1)] assms(2) sint_of_nat_int64 [OF assms(3)]
  by (auto simp: spool_outcome_def)

text \<open>
  C21: the life of a temporary file.  A spooled body opens to exactly the bytes of the body, as often
  as it is opened, and cleaning it up puts the file system back to what it was before the body was
  spooled.
\<close>

theorem spool_open_cleanup:
  assumes "spool_body (observed_read script_read) cl nb env (Some b) dir m s = Some (Inr res, b', s1)"
    and "\<forall>t. \<not> io_fails env Op_Open t" "\<forall>t. \<not> io_fails env Op_Remove t"
    and "spooled_open env res s1 = (c, s2)" "spooled_open env res s2 = (c', s3)"
    and "spooled_cleanup env (Some res) s3 = (k, s4)"
  shows "c = Inr (script_content (inner b)) \<and> c' = Inr (script_content (inner b)) \<and>
         k = Inr () \<and> files s4 = files s"
proof -
  note out = spool_body_outcomeD [OF assms(1)]
  have f: "files s2 = files s1" "files s3 = files s1"
    using files_open [of env "sp_path res"] assms(4,5) by (metis snd_conv spooled_open_def)+
  with out assms(2-) show ?thesis
    by (auto simp: spool_outcome_def spooled_open_def spooled_cleanup_def open_file_def
        remove_file_def fun_upd_idem)
qed

text \<open>
  When no operation fails, the first random name is free and the limit fits in memory, a body
  that ends in \<open>io.EOF\<close> is spooled successfully.
\<close>

lemma spool_body_succeeds:
  assumes "\<forall>op t. \<not> io_fails env op t"
    and "files s (join_path (if dir = '''' then default_temp_dir env else dir) ''audit-pass-through-body-''
            @ random_name env (os_ticks s)) = None"
    and "sint m \<le> int (alloc_max env)" "script_ending (inner b) = EOF"
  shows "\<exists>res b' s'. spool_body (observed_read script_read) cl nb env (Some b) dir m s = Some (Inr res, b', s')"
proof -
  obtain p s1 where c: "create_temp env dir ''audit-pass-through-body-'' s = (Inr p, s1)"
    using create_temp_fresh [OF _ assms(2)] assms(1) by blast
  obtain out b' s' where o: "spool_body (observed_read script_read) cl nb env (Some b) dir m s = Some (out, b', s')"
    and out: "spool_outcome env dir (script_content (inner b)) (script_ending (inner b)) m s out s'"
    using observed.spool_body_outcome by blast
  show ?thesis
  proof (cases out)
    case (Inl e)
    with out c assms have False by (cases e) (auto simp: spool_outcome_def)
    then show ?thesis ..
  next
    case (Inr res)
    with o show ?thesis by blast
  qed
qed

section \<open>Witnesses\<close>

definition quiet_env :: os_env where
  "quiet_env = \<lparr>io_fails = (\<lambda>_ _. False), short_write = (\<lambda>_. 0), short_read = (\<lambda>_. 0), random_name = (\<lambda>_. ''1''),
                default_temp_dir = ''/tmp'', alloc_max = 4096\<rparr>"

definition empty_os :: os_state where
  "empty_os = \<lparr>files = Map.empty, os_ticks = 0\<rparr>"

definition sample_body :: "body_script observed" where
  "sample_body = \<lparr>inner = [(''ab'', None), (''cde'', Some EOF)], observing = True, on_close_set = False,
                  observed_sizes = [], close_outcomes = []\<rparr>"

definition sample_path :: string where
  "sample_path = ''/tmp/audit-pass-through-body-1''"

definition sample_spooled :: spooled_body where
  "sample_spooled = \<lparr>sp_path = sample_path, captured = ''abc'', sp_size = 5, truncated = True\<rparr>"

lemma sample_spool:
  "spool_body (observed_read script_read) id sample_body quiet_env (Some sample_body) '''' 3 empty_os =
     Some (Inr sample_spooled, sample_body\<lparr>inner := [], observed_sizes := [2, 3]\<rparr>,
           \<lparr>files = [sample_path \<mapsto> ''abcde''], os_ticks = 4\<rparr>)"
  by (simp add: spool_body_def create_temp_def create_try.simps join_path_def quiet_env_def empty_os_def
      sample_body_def sample_path_def sample_spooled_def spool_loop.simps spool_step_def
      observed_read_def copy_buffer_size_def write_file_def close_file_def capture_chunk_def
      buffer_capacity_def Let_def os_tick_def suffix_to_prefix)

lemma truncated_iff_incomplete_witness:
  "truncated sample_spooled \<longleftrightarrow> captured sample_spooled \<noteq> script_content (inner sample_body)"
  by (rule truncated_iff_incomplete [OF sample_spool]) (simp_all add: sample_body_def)

lemma spool_open_cleanup_witness:
  "files (snd (spooled_cleanup quiet_env (Some sample_spooled)
     \<lparr>files = [sample_path \<mapsto> ''abcde''], os_ticks = 6\<rparr>)) = files empty_os"
proof -
  let ?s = "\<lambda>n. \<lparr>files = [sample_path \<mapsto> ''abcde''], os_ticks = n\<rparr>"
  have o1: "spooled_open quiet_env sample_spooled (?s 4) = (Inr ''abcde'', ?s 5)"
    and o2: "spooled_open quiet_env sample_spooled (?s 5) = (Inr ''abcde'', ?s 6)"
    by (simp_all add: spooled_open_def open_file_def quiet_env_def sample_spooled_def os_tick_def)
  obtain k s4 where c: "spooled_cleanup quiet_env (Some sample_spooled) (?s 6) = (k, s4)" by fastforce
  have "files s4 = files empty_os"
    using spool_open_cleanup [OF sample_spool _ _ o1 o2 c] by (simp add: quiet_env_def)
  with c show ?thesis by simp
qed

lemma sample_body_spools:
  "\<exists>res b' s'. spool_body (observed_read script_read) id sample_body quiet_env (Some sample_body) '''' 3 empty_os
     = Some (Inr res, b', s')"
  by (rule spool_body_succeeds) (simp_all add: quiet_env_def empty_os_def sample_body_def)

end
