(* ===== verification/Response_Copy.thy ===== *)
theory Response_Copy
  imports Request_Metrics Body_Spool
begin

text \<open>
  Copying a body to the client: the loop of \<open>io.Copy\<close> (audited path) and of the reverse proxy's
  \<open>copyBuffer\<close> (passthrough path, which flushes after every write) over the metric response writer, and the
  observation of bodies by \<open>observeTransportBytes\<close>.
\<close>

section \<open>The loop\<close>

datatype copy_result = Copied | Copy_Write_Error | Copy_Read_Error

definition copy_step ::
  "'r read_fn \<Rightarrow> (nat \<Rightarrow> nat) \<Rightarrow> request_metric_state \<Rightarrow> 'r \<Rightarrow> metric_writer \<times> metric_log \<Rightarrow>
     (copy_result \<times> 'r \<times> metric_writer \<times> metric_log) + ('r \<times> metric_writer \<times> metric_log)" where
  "copy_step rd accepts s r st =
     (case rd r copy_buffer_size of (chunk, read_err, r') \<Rightarrow>
        (case (if 0 < length chunk then write_body accepts s chunk st else (False, st)) of
           (failed, st') \<Rightarrow>
             if failed then Inl (Copy_Write_Error, r', st')
             else case read_err of
                    Some EOF \<Rightarrow> Inl (Copied, r', st')
                  | Some Read_Failed \<Rightarrow> Inl (Copy_Read_Error, r', st')
                  | None \<Rightarrow> Inr (r', st')))"

partial_function (option) copy_loop ::
  "'r read_fn \<Rightarrow> (nat \<Rightarrow> nat) \<Rightarrow> request_metric_state \<Rightarrow> 'r \<Rightarrow> metric_writer \<times> metric_log \<Rightarrow>
     (copy_result \<times> 'r \<times> metric_writer \<times> metric_log) option" where
  "copy_loop rd accepts s r st =
     (case copy_step rd accepts s r st of
        Inl finished \<Rightarrow> Some finished
      | Inr next \<Rightarrow> copy_loop rd accepts s (fst next) (snd next))"

text \<open>What the observers of one body add to the byte counter.\<close>

definition observe_transport_bytes :: "string \<Rightarrow> bool \<Rightarrow> string \<Rightarrow> nat list \<Rightarrow> metric_log \<Rightarrow> metric_log" where
  "observe_transport_bytes leg streaming direction sizes log =
     fold (\<lambda>n. add_transport_bytes \<lparr>tl_leg = leg, tl_streaming = streaming, tl_direction = direction\<rparr> (int n)) sizes log"

section \<open>What a copy does\<close>

definition add_body :: "bytes \<Rightarrow> metric_writer \<Rightarrow> metric_writer" where
  "add_body bs w = w\<lparr>mw_writer := (mw_writer w)\<lparr>cw_body := cw_body (mw_writer w) @ bs\<rparr>\<rparr>"

definition header_written :: "metric_writer \<Rightarrow> bool" where
  "header_written w \<longleftrightarrow> cw_status (mw_writer w) \<noteq> None \<and> mw_status_code w \<noteq> 0"

text \<open>The part of a log that belongs to one instrument.\<close>

definition log_of :: "instrument \<Rightarrow> metric_log \<Rightarrow> metric_log" where
  "log_of i log = filter (\<lambda>m. ms_instrument m = i) log"

definition only_bytes :: "metric_log \<Rightarrow> metric_log \<Rightarrow> bool" where
  "only_bytes log log' \<longleftrightarrow> (\<forall>i. i = Transport_Bytes_Total \<or> log_of i log' = log_of i log)"

lemma only_bytes_refl [simp]: "only_bytes log log"
  by (simp add: only_bytes_def)

lemma only_bytes_trans: "only_bytes a b \<Longrightarrow> only_bytes b c \<Longrightarrow> only_bytes a c"
  unfolding only_bytes_def by metis

lemma only_bytes_add [simp]: "only_bytes log (add_transport_bytes l n log)"
  by (simp add: only_bytes_def add_transport_bytes_def log_of_def measure_def)

lemma only_bytes_observe [simp]: "only_bytes log (observe_transport_bytes leg b d sizes log)"
proof (induction sizes arbitrary: log)
  case (Cons n sizes)
  show ?case
    using only_bytes_trans [OF only_bytes_add Cons.IH]
    by (simp add: observe_transport_bytes_def)
qed (simp add: observe_transport_bytes_def)

lemma add_body_simps [simp]:
  "add_body [] w = w"
  "add_body b (add_body a w) = add_body (a @ b) w"
  "mw_status_code (add_body a w) = mw_status_code w"
  "cw_status (mw_writer (add_body a w)) = cw_status (mw_writer w)"
  "cw_sent_header (mw_writer (add_body a w)) = cw_sent_header (mw_writer w)"
  "cw_header (mw_writer (add_body a w)) = cw_header (mw_writer w)"
  "cw_body (mw_writer (add_body a w)) = cw_body (mw_writer w) @ a"
  "header_written (add_body a w) = header_written w"
  by (simp_all add: add_body_def header_written_def)

lemma write_body_written:
  assumes "header_written w"
  obtains n log' where "write_body accepts s p (w, log) = (n < length p, add_body (take n p) w, log')"
    "n \<le> length p" "only_bytes log log'" "n < length p \<Longrightarrow> \<exists>k. accepts k < length p"
proof
  let ?n = "min (length p) (accepts (length (cw_body (mw_writer w))))"
  let ?log = "add_transport_bytes \<lparr>tl_leg = leg_client, tl_streaming = rm_streaming s, tl_direction = direction_write\<rparr>
      (int ?n) log"
  show "write_body accepts s p (w, log) = (?n < length p, add_body (take ?n p) w, ?log)"
    using assms by (auto simp: write_body_def header_written_def cw_write_def cw_write_header_def add_body_def Let_def)
  show "?n \<le> length p" "only_bytes log ?log" by simp_all
  show "\<exists>k. accepts k < length p" if "?n < length p" using that by (auto simp: min_def split: if_splits)
qed

definition copy_outcome ::
  "(nat \<Rightarrow> nat) \<Rightarrow> bytes \<Rightarrow> read_err \<Rightarrow> metric_writer \<times> metric_log \<Rightarrow> copy_result \<Rightarrow> metric_writer \<times> metric_log \<Rightarrow> bool" where
  "copy_outcome accepts data ending st res st' \<longleftrightarrow>
     (\<exists>bs. fst st' = add_body bs (fst st) \<and> prefix bs data \<and> only_bytes (snd st) (snd st') \<and>
        (case res of
           Copied \<Rightarrow> bs = data \<and> ending = EOF
         | Copy_Read_Error \<Rightarrow> bs = data \<and> ending = Read_Failed
         | Copy_Write_Error \<Rightarrow> \<exists>k. accepts k < copy_buffer_size))"

lemma copy_outcome_more:
  assumes "copy_outcome accepts d e (add_body c w, log1) res st'" "only_bytes log log1"
  shows "copy_outcome accepts (c @ d) e (w, log) res st'"
proof -
  obtain bs where bs: "fst st' = add_body bs (add_body c w)" "prefix bs d" "only_bytes log1 (snd st')"
    "case res of Copied \<Rightarrow> bs = d \<and> e = EOF | Copy_Read_Error \<Rightarrow> bs = d \<and> e = Read_Failed
       | Copy_Write_Error \<Rightarrow> \<exists>k. accepts k < copy_buffer_size"
    using assms(1) unfolding copy_outcome_def by auto
  then show ?thesis
    using only_bytes_trans [OF assms(2) bs(3)] unfolding copy_outcome_def
    by (intro exI [of _ "c @ bs"]) (auto split: copy_result.splits)
qed

lemma copy_buffer_positive: "0 < copy_buffer_size"
  by (simp add: copy_buffer_size_def)

lemma write_body_bytes_only:
  assumes "write_body accepts s p (w, log) = (failed, w', log')"
  shows "only_bytes log log'"
  using assms by (auto simp: write_body_def Let_def split: prod.splits)

context body_reader
begin

text \<open>The loop always ends; it only reads, and only counts bytes.\<close>

lemma copy_loop_total:
  assumes pres: "\<And>r n. P r \<Longrightarrow> P (snd (snd (read r n)))" and "P r"
  shows "\<exists>res r' st'. copy_loop read accepts s r st = Some (res, r', st') \<and> P r' \<and> only_bytes (snd st) (snd st')"
  using \<open>P r\<close>
proof (induction "weight r" arbitrary: r st rule: less_induct)
  case less
  obtain c e r1 where rd: "read r copy_buffer_size = (c, e, r1)" by (metis prod_cases3)
  then have p1: "P r1" using pres [OF less.prems, of copy_buffer_size] by simp
  obtain failed st1 where wr: "(if 0 < length c then write_body accepts s c st else (False, st)) = (failed, st1)"
    by (metis surj_pair)
  then have ob: "only_bytes (snd st) (snd st1)"
    by (cases st; cases st1) (auto split: if_splits dest: write_body_bytes_only)
  note step = copy_step_def [of read accepts s r st, unfolded rd prod.case wr]
  show ?case
  proof (cases "failed \<or> e \<noteq> None")
    case True
    then show ?thesis
      using p1 ob
      by (subst copy_loop.simps) (cases st1; cases e; auto simp: step split: read_err.splits)
  next
    case False
    then have "weight r1 < weight r" using read_more [OF copy_buffer_positive, of r c r1] rd by simp
    from less.hyps [OF this p1, of st1] only_bytes_trans [OF ob] False show ?thesis
      by (subst copy_loop.simps) (auto simp: step)
  qed
qed

lemma copy_loop_outcome:
  assumes "header_written w"
  shows "\<exists>res r' st'. copy_loop read accepts s r (w, log) = Some (res, r', st') \<and>
           copy_outcome accepts (content r) (ending r) (w, log) res st'"
  using assms
proof (induction "weight r" arbitrary: r w log rule: less_induct)
  case less
  obtain c e r1 where rd: "read r copy_buffer_size = (c, e, r1)" by (metis prod_cases3)
  obtain n log1 where wr: "(if 0 < length c then write_body accepts s c (w, log) else (False, w, log)) =
        (n < length c, add_body (take n c) w, log1)"
    and n: "n \<le> length c" "only_bytes log log1" "n < length c \<Longrightarrow> \<exists>k. accepts k < length c"
  proof (cases "c = []")
    case True
    then show ?thesis using that [of 0 log] by simp
  next
    case False
    with write_body_written [OF less.prems, of accepts s c log] that show ?thesis
      by (metis length_greater_0_conv)
  qed
  note step = copy_step_def [of read accepts s r "(w, log)", unfolded rd prod.case wr]
  have le: "length c \<le> copy_buffer_size" using read_bounded [OF rd] .
  show ?case
  proof (cases "n < length c")
    case True
    have "prefix (take n c) (content r)"
      using read_more [OF copy_buffer_positive, of r c r1] read_last [OF copy_buffer_positive, of r c _ r1] rd
        take_is_prefix [of n c] by (cases e) (auto intro: prefix_order.trans)
    moreover have "\<exists>k. accepts k < copy_buffer_size" using n(3) [OF True] le by (meson less_le_trans)
    ultimately have "copy_outcome accepts (content r) (ending r) (w, log) Copy_Write_Error (add_body (take n c) w, log1)"
      using n(2) by (auto simp: copy_outcome_def)
    then show ?thesis using True by (subst copy_loop.simps) (simp add: step)
  next
    case False
    then have all: "n = length c" using n(1) by simp
    show ?thesis
    proof (cases e)
      case None
      note m = read_more [OF copy_buffer_positive rd [unfolded None]]
      have hw: "header_written (add_body c w)" using less.prems by simp
      from m less.hyps [OF _ hw, of r1 log1] obtain res r' st' where
        "copy_loop read accepts s r1 (add_body c w, log1) = Some (res, r', st')"
        "copy_outcome accepts (content r1) (ending r1) (add_body c w, log1) res st'" by auto
      then show ?thesis
        using m all None copy_outcome_more [OF _ n(2), of accepts "content r1" "ending r1" c w res st']
        by (subst copy_loop.simps) (simp add: step)
    next
      case (Some x)
      note l = read_last [OF copy_buffer_positive rd [unfolded Some]]
      have "copy_outcome accepts (content r) (ending r) (w, log)
          (case x of EOF \<Rightarrow> Copied | Read_Failed \<Rightarrow> Copy_Read_Error) (add_body c w, log1)"
        using l n(2) by (cases x) (auto simp: copy_outcome_def)
      then show ?thesis
        using all Some by (cases x) (subst copy_loop.simps, simp add: step)+
    qed
  qed
qed

end

end
