(* ===== verification/Response_Observer.thy ===== *)
theory Response_Observer
  imports Response_Copy
begin

text \<open>
  \<open>observePassthroughResponse\<close> and \<open>observeAuditedBackendResponse\<close> of \<open>pkg/proxy/handler.go\<close>, with the
  layers they put around a response body.  A raw body of a 101 response can be written to; a wrapped one
  is only an \<open>io.ReadCloser\<close>.
\<close>

datatype resp_body =
    Raw_Body body_script
  | Counted_Body "body_script observed"
  | Stream_Body "body_script observed observed"

definition script_close :: "body_script \<Rightarrow> body_script" where
  "script_close b = []"

fun resp_read :: "resp_body read_fn" where
  "resp_read (Raw_Body b) n = (case script_read b n of (p, e, b') \<Rightarrow> (p, e, Raw_Body b'))"
| "resp_read (Counted_Body b) n = (case observed_read script_read b n of (p, e, b') \<Rightarrow> (p, e, Counted_Body b'))"
| "resp_read (Stream_Body b) n =
     (case observed_read (observed_read script_read) b n of (p, e, b') \<Rightarrow> (p, e, Stream_Body b'))"

fun resp_close :: "resp_body \<Rightarrow> resp_body" where
  "resp_close (Raw_Body b) = Raw_Body (script_close b)"
| "resp_close (Counted_Body b) = Counted_Body (observed_close script_close b)"
| "resp_close (Stream_Body b) = Stream_Body (observed_close (observed_close script_close) b)"

fun resp_script :: "resp_body \<Rightarrow> body_script" where
  "resp_script (Raw_Body b) = b"
| "resp_script (Counted_Body b) = inner b"
| "resp_script (Stream_Body b) = inner (inner b)"

definition resp_writable :: "resp_body \<Rightarrow> bool" where
  "resp_writable b = (case b of Raw_Body _ \<Rightarrow> True | _ \<Rightarrow> False)"

text \<open>What the layers have observed: the sizes of the reads, and how a stream ended.\<close>

fun resp_sizes :: "resp_body \<Rightarrow> nat list" where
  "resp_sizes (Raw_Body b) = []"
| "resp_sizes (Counted_Body b) = observed_sizes b"
| "resp_sizes (Stream_Body b) = observed_sizes (inner b)"

fun resp_outcomes :: "resp_body \<Rightarrow> string list" where
  "resp_outcomes (Stream_Body b) = close_outcomes b"
| "resp_outcomes _ = []"

definition observe_counted :: "resp_body \<Rightarrow> resp_body" where
  "observe_counted b =
     (case b of
        Raw_Body s \<Rightarrow> (case observe_read_closer (Some s) of None \<Rightarrow> b | Some ob \<Rightarrow> Counted_Body ob)
      | _ \<Rightarrow> b)"

definition observe_stream :: "resp_body \<Rightarrow> resp_body" where
  "observe_stream b =
     (case b of
        Counted_Body c \<Rightarrow> (case observe_close (Some c) of None \<Rightarrow> b | Some ob \<Rightarrow> Stream_Body ob)
      | _ \<Rightarrow> b)"

section \<open>Observing a response\<close>

text \<open>
  \<open>state\<close> is the metric state found in the context of the response's request, \<open>None\<close> when there is no
  response, no request or no state.  The last component is the \<open>done\<close> function of a started stream.
\<close>

definition observe_passthrough_response ::
  "instant \<Rightarrow> resp_body http_response \<Rightarrow> request_metric_state option \<Rightarrow> metric_log \<Rightarrow>
     resp_body http_response \<times> request_metric_state option \<times> metric_log \<times> stream_done option" where
  "observe_passthrough_response now resp state log =
     (case state of
        None \<Rightarrow> (resp, None, log, None)
      | Some state \<Rightarrow>
          let streaming = (is_streaming_response (Some resp) \<or> rm_streaming state);
              state = set_backend (rs_proto resp) streaming state
          in case record_round_trip now outcome_ok (state, log) of
               (state, log) \<Rightarrow>
                 if rs_status_code resp = 101 then (resp, Some state, log, None)
                 else
                   let resp = resp\<lparr>rs_body := observe_counted (rs_body resp)\<rparr>
                   in if \<not> streaming then (resp, Some state, log, None)
                      else
                        case stream_started now
                               \<lparr>sl_kind = stream_kind state, sl_outcome = '''',
                                sl_inbound_proto = rm_inbound_proto state, sl_backend_proto = rs_proto resp\<rparr> log of
                          (sd, log) \<Rightarrow>
                            (resp\<lparr>rs_body := observe_stream (rs_body resp)\<rparr>, Some state, log, Some sd))"

definition observe_audited_backend_response ::
  "instant \<Rightarrow> body_script http_response \<Rightarrow> request_metric_state option \<Rightarrow> metric_log \<Rightarrow>
     body_script observed option \<times> request_metric_state option \<times> metric_log" where
  "observe_audited_backend_response now resp state log =
     (case state of
        None \<Rightarrow> (observe_read_closer (Some (rs_body resp)), None, log)
      | Some state \<Rightarrow>
          (case record_round_trip now outcome_ok (set_backend (rs_proto resp) False state, log) of
             (state, log) \<Rightarrow> (observe_read_closer (Some (rs_body resp)), Some state, log)))"

text \<open>The callbacks of the layers, run on what they have observed.\<close>

definition settle_body :: "instant \<Rightarrow> bool \<Rightarrow> stream_done option \<Rightarrow> resp_body \<Rightarrow> metric_log \<Rightarrow> metric_log" where
  "settle_body now streaming sd b log =
     (let log = observe_transport_bytes leg_backend streaming direction_read (resp_sizes b) log
      in case sd of
           None \<Rightarrow> log
         | Some sd \<Rightarrow> fold (\<lambda>outcome log. stream_finished sd outcome now log) (resp_outcomes b) log)"

section \<open>Laws\<close>

lemma stream_contract:
  "body_reader (observed_read (observed_read script_read)) (\<lambda>r. script_content (inner (inner r)))
     (\<lambda>r. script_ending (inner (inner r))) (\<lambda>r. script_weight (inner (inner r)))"
  by (rule observed.observed_is_body_reader)

interpretation stream: body_reader "observed_read (observed_read script_read)"
    "\<lambda>r. script_content (inner (inner r))" "\<lambda>r. script_ending (inner (inner r))"
    "\<lambda>r. script_weight (inner (inner r))"
  by (rule stream_contract)

lemma resp_read_bounded: "resp_read b n = (c, e, b') \<Longrightarrow> length c \<le> n"
  by (cases b) (auto split: prod.splits dest: script.read_bounded observed.read_bounded stream.read_bounded)

lemma resp_read_more:
  "0 < n \<Longrightarrow> resp_read b n = (c, None, b') \<Longrightarrow>
     script_content (resp_script b) = c @ script_content (resp_script b') \<and>
     script_ending (resp_script b) = script_ending (resp_script b') \<and>
     script_weight (resp_script b') < script_weight (resp_script b)"
  by (cases b) (auto split: prod.splits dest: script.read_more observed.read_more stream.read_more)

lemma resp_read_last:
  "0 < n \<Longrightarrow> resp_read b n = (c, Some x, b') \<Longrightarrow>
     script_content (resp_script b) = c \<and> script_ending (resp_script b) = x"
  by (cases b) (auto split: prod.splits dest: script.read_last observed.read_last stream.read_last)

interpretation resp: body_reader resp_read "\<lambda>b. script_content (resp_script b)"
    "\<lambda>b. script_ending (resp_script b)" "\<lambda>b. script_weight (resp_script b)"
  by unfold_locales (auto simp: resp_read_bounded dest: resp_read_more resp_read_last)

text \<open>Reading never changes what kind of layer a body has; a stream stays armed until it has reported.\<close>

fun resp_armed :: "resp_body \<Rightarrow> bool" where
  "resp_armed (Stream_Body b) = armed_or_reported b"
| "resp_armed _ = True"

lemma resp_read_armed: "resp_armed b \<Longrightarrow> resp_armed (snd (snd (resp_read b n)))"
  using run_call_armed_or_reported [of _ "observed_read script_read" _ "Do_Read n"]
  by (cases b) (auto split: prod.splits simp: prod_eq_iff)

lemma observed_close_reports: "armed_or_reported r \<Longrightarrow> length (close_outcomes (observed_close cl r)) = 1"
  by (cases r) (auto simp: observed_close_def armed_or_reported_def Let_def split: if_splits)

lemma resp_close_reports:
  "resp_armed (Stream_Body b) \<Longrightarrow> length (resp_outcomes (resp_close (Stream_Body b))) = 1"
  by (simp add: observed_close_reports)

definition is_stream :: "resp_body \<Rightarrow> bool" where
  "is_stream b = (case b of Stream_Body _ \<Rightarrow> True | _ \<Rightarrow> False)"

lemma is_stream_read [simp]: "is_stream (snd (snd (resp_read b n))) = is_stream b"
  by (cases b) (auto simp: is_stream_def split: prod.splits)

end
