(* ===== verification/Identity_Extractor.thy ===== *)
theory Identity_Extractor
  imports Http_Message
begin

text \<open>
  \<open>pkg/identity\<close>: the extractor of \<open>requestheader.go\<close> and the trust controller of \<open>cluster.go\<close>.  The
  authenticators, the certificate verifier and the two controllers are Kubernetes library code: they are
  the fields of the records \<open>auth_lib\<close> and \<open>trust_lib\<close>, arguments of the definitions that call them.
\<close>

section \<open>The extractor\<close>

text \<open>
  \<open>AuthenticateRequest\<close>: the response (\<open>None\<close> for nil) with its user (\<open>None\<close> for nil), \<open>ok\<close> and the
  error.  \<open>user.Info\<close> has the four attributes of \<open>user_info\<close>.
\<close>

type_synonym 'e auth_result = "user_info option option \<times> bool \<times> 'e option"
type_synonym 'e request_authenticator = "http_request \<Rightarrow> 'e auth_result"

record 'e extractor =
  authenticator :: "'e request_authenticator option"
  requires_verified :: bool

definition empty_user :: user_info where
  "empty_user = \<lparr>username = '''', uid = '''', groups = [], extra = []\<rparr>"

text \<open>The headers of a request that carries nothing else, as \<open>FromHeaders\<close> builds it.\<close>

definition header_request :: "header \<Rightarrow> http_request" where
  "header_request h =
     \<lparr>rq_method = '''', rq_url = \<lparr>scheme = '''', url_host = '''', path = '''', raw_path = '''',
        force_query = False, raw_query = ''''\<rparr>, rq_proto = '''', rq_header = h, rq_host = '''',
      rq_request_uri = '''', rq_remote_addr = '''', rq_content_length = 0\<rparr>"

record ('v, 'e) auth_lib =
  headerrequest_new :: "string list \<Rightarrow> string list \<Rightarrow> string list \<Rightarrow> string list \<Rightarrow> 'e + 'e request_authenticator"
  new_static_verifier_from_file :: "string \<Rightarrow> 'e + 'v option"
  new_verify_options_secure ::
    "'v \<Rightarrow> string list \<Rightarrow> string list \<Rightarrow> string list \<Rightarrow> string list \<Rightarrow> string list \<Rightarrow> 'e request_authenticator"

datatype 'e extractor_error =
    Library_Error 'e
  | Load_CA_Error 'e
  | Verifier_Not_Configured
  | Client_Required
  | CA_Controller_Error 'e
  | Trust_Not_Initialized

text \<open>
  \<open>filepath.Clean\<close> on slash-separated paths: the elements kept so far, innermost first.
\<close>

definition clean_elem :: "bool \<Rightarrow> string \<Rightarrow> string list \<Rightarrow> string list" where
  "clean_elem rooted e kept =
     (if e = '''' \<or> e = ''.'' then kept
      else if e = ''..'' then
        (if kept \<noteq> [] \<and> hd kept \<noteq> ''..'' then tl kept
         else if rooted then kept
         else ''..'' # kept)
      else e # kept)"

definition filepath_clean :: "string \<Rightarrow> string" where
  "filepath_clean p =
     (let rooted = (p \<noteq> [] \<and> hd p = CHR ''/'');
          kept = rev (fold (clean_elem rooted) (split_on CHR ''/'' p) [])
      in if rooted then ''/'' @ join_with ''/'' kept
         else if kept = [] then ''.'' else join_with ''/'' kept)"

definition name_headers :: "string list" where "name_headers = [''X-Remote-User'']"
definition uid_headers :: "string list" where "uid_headers = [''X-Remote-Uid'']"
definition group_headers :: "string list" where "group_headers = [''X-Remote-Group'']"
definition extra_prefixes :: "string list" where "extra_prefixes = [''X-Remote-Extra-'']"

definition new_authenticator ::
  "('v, 'e) auth_lib \<Rightarrow> string \<Rightarrow> string list \<Rightarrow> 'e extractor_error + 'e request_authenticator" where
  "new_authenticator lib client_ca_file allowed_names =
     (if client_ca_file = '''' then
        (case headerrequest_new lib name_headers uid_headers group_headers extra_prefixes of
           Inl e \<Rightarrow> Inl (Library_Error e)
         | Inr a \<Rightarrow> Inr a)
      else
        (case new_static_verifier_from_file lib (filepath_clean client_ca_file) of
           Inl e \<Rightarrow> Inl (Load_CA_Error e)
         | Inr None \<Rightarrow> Inl Verifier_Not_Configured
         | Inr (Some v) \<Rightarrow>
             Inr (new_verify_options_secure lib v allowed_names
                    name_headers uid_headers group_headers extra_prefixes)))"

definition new_extractor ::
  "('v, 'e) auth_lib \<Rightarrow> string \<Rightarrow> string list \<Rightarrow> 'e extractor_error + 'e extractor" where
  "new_extractor lib client_ca_file allowed_names =
     (case new_authenticator lib client_ca_file allowed_names of
        Inl e \<Rightarrow> Inl e
      | Inr a \<Rightarrow> Inr \<lparr>authenticator = Some a, requires_verified = (client_ca_file \<noteq> '''')\<rparr>)"

definition requires_verified_headers :: "'e extractor option \<Rightarrow> bool" where
  "requires_verified_headers e = (case e of None \<Rightarrow> False | Some e \<Rightarrow> requires_verified e)"

text \<open>
  \<open>FromRequest\<close>.  The clone of the request and of its headers protects the caller's copy from the
  authenticator; a value of the model cannot be changed behind its owner's back.
\<close>

definition from_request ::
  "'e extractor option \<Rightarrow> http_request option \<Rightarrow> user_info \<times> bool \<times> 'e option" where
  "from_request e request =
     (case e of
        None \<Rightarrow> (empty_user, False, None)
      | Some e \<Rightarrow>
     (case authenticator e of
        None \<Rightarrow> (empty_user, False, None)
      | Some auth \<Rightarrow>
     (case request of
        None \<Rightarrow> (empty_user, False, None)
      | Some request \<Rightarrow>
        (case auth request of
           (response, ok, err) \<Rightarrow>
             if err \<noteq> None \<or> \<not> ok then (empty_user, ok, err)
             else (case response of
                     Some (Some user) \<Rightarrow>
                       (let info = \<lparr>username = username user, uid = uid user, groups = groups user, extra = []\<rparr>;
                            info = (if 0 < length (extra user) then info\<lparr>extra := extra user\<rparr> else info)
                        in (info, True, None))
                   | _ \<Rightarrow> (empty_user, ok, err))))))"

definition from_headers :: "('v, 'e) auth_lib \<Rightarrow> header \<Rightarrow> user_info" where
  "from_headers lib headers =
     (case new_extractor lib '''' [] of
        Inl _ \<Rightarrow> empty_user
      | Inr extractor \<Rightarrow>
          (case from_request (Some extractor) (Some (header_request headers)) of
             (user, _, err) \<Rightarrow> if err \<noteq> None then empty_user else user))"

section \<open>The cluster trust controller\<close>

definition authentication_config_map_namespace :: string where
  "authentication_config_map_namespace = ''kube-system''"

definition authentication_config_map_name :: string where
  "authentication_config_map_name = ''extension-apiserver-authentication''"

text \<open>
  The two embedded controllers, with states \<open>'c\<close> and \<open>'h\<close>: their constructors with the names they are
  given, one synchronous load each, what their background loops have made of them at the \<open>n\<close>-th look, and the
  snapshots the authenticator and \<open>Ready\<close> read.
\<close>

record ('k, 'c, 'h, 'v, 'e) trust_lib =
  new_ca_controller :: "string \<Rightarrow> string \<Rightarrow> string \<Rightarrow> string \<Rightarrow> 'k \<Rightarrow> 'e + 'c"
  new_headers_controller ::
    "string \<Rightarrow> string \<Rightarrow> 'k \<Rightarrow> string \<Rightarrow> string \<Rightarrow> string \<Rightarrow> string \<Rightarrow> string \<Rightarrow> 'h"
  ca_run_once :: "'c \<Rightarrow> 'e option \<times> 'c"
  headers_run_once :: "'h \<Rightarrow> 'e option \<times> 'h"
  ca_run :: "nat \<Rightarrow> 'c \<Rightarrow> 'c"
  headers_run :: "nat \<Rightarrow> 'h \<Rightarrow> 'h"
  ca_verify_options :: "'c \<Rightarrow> 'v \<times> bool"
  username_headers :: "'h \<Rightarrow> string list"
  new_aggregate :: "'e option list \<Rightarrow> 'e option"

record ('c, 'h) trust_controller =
  tc_ca :: 'c
  tc_headers :: 'h

definition new_request_header_trust_controller ::
  "('k, 'c, 'h, 'v, 'e) trust_lib \<Rightarrow> 'k \<Rightarrow> 'e extractor_error + ('c, 'h) trust_controller" where
  "new_request_header_trust_controller lib client =
     (case new_ca_controller lib ''client-ca'' authentication_config_map_namespace
             authentication_config_map_name ''requestheader-client-ca-file'' client of
        Inl e \<Rightarrow> Inl (CA_Controller_Error e)
      | Inr ca \<Rightarrow>
          Inr \<lparr>tc_ca = ca,
               tc_headers = new_headers_controller lib authentication_config_map_name
                 authentication_config_map_namespace client ''requestheader-username-headers''
                 ''requestheader-uid-headers'' ''requestheader-group-headers''
                 ''requestheader-extra-headers-prefix'' ''requestheader-allowed-names''\<rparr>)"

definition trust_run_once ::
  "('k, 'c, 'h, 'v, 'e) trust_lib \<Rightarrow> ('c, 'h) trust_controller option \<Rightarrow>
     'e extractor_error option \<times> ('c, 'h) trust_controller option" where
  "trust_run_once lib c =
     (case c of
        None \<Rightarrow> (Some Trust_Not_Initialized, None)
      | Some c \<Rightarrow>
          (case ca_run_once lib (tc_ca c) of
             (e1, ca) \<Rightarrow>
               (case headers_run_once lib (tc_headers c) of
                  (e2, hs) \<Rightarrow>
                    (map_option Library_Error (new_aggregate lib [e1, e2]), Some \<lparr>tc_ca = ca, tc_headers = hs\<rparr>))))"

text \<open>\<open>Run\<close> starts both loops; the controller as they have left it at the \<open>n\<close>-th look.\<close>

definition trust_run ::
  "('k, 'c, 'h, 'v, 'e) trust_lib \<Rightarrow> nat \<Rightarrow> ('c, 'h) trust_controller option \<Rightarrow> ('c, 'h) trust_controller option" where
  "trust_run lib n c =
     (case c of
        None \<Rightarrow> None
      | Some c \<Rightarrow> Some \<lparr>tc_ca = ca_run lib n (tc_ca c), tc_headers = headers_run lib n (tc_headers c)\<rparr>)"

definition trust_ready ::
  "('k, 'c, 'h, 'v, 'e) trust_lib \<Rightarrow> ('c, 'h) trust_controller option \<Rightarrow> bool" where
  "trust_ready lib c =
     (case c of
        None \<Rightarrow> False
      | Some c \<Rightarrow>
          if \<not> snd (ca_verify_options lib (tc_ca c)) then False
          else 0 < length (username_headers lib (tc_headers c)))"

text \<open>
  \<open>NewClusterExtractor\<close>.  The authenticator reads the controller's snapshots at every request: it is the
  argument \<open>new_dynamic\<close> of the controller it is built on.
\<close>

definition new_cluster_extractor ::
  "('k, 'c, 'h, 'v, 'e) trust_lib \<Rightarrow> (('c, 'h) trust_controller \<Rightarrow> 'e request_authenticator) \<Rightarrow> 'k option \<Rightarrow>
     'e extractor_error + 'e extractor \<times> ('c, 'h) trust_controller" where
  "new_cluster_extractor lib new_dynamic client =
     (case client of
        None \<Rightarrow> Inl Client_Required
      | Some client \<Rightarrow>
          (case new_request_header_trust_controller lib client of
             Inl e \<Rightarrow> Inl e
           | Inr controller \<Rightarrow>
               Inr (\<lparr>authenticator = Some (new_dynamic controller), requires_verified = True\<rparr>, controller)))"

section \<open>Laws\<close>

lemma from_request_nil [simp]:
  "from_request None r = (empty_user, False, None)"
  "from_request e None = (empty_user, False, None)"
  by (simp_all add: from_request_def split: option.splits)

lemma user_info_rebuild:
  "(let info = \<lparr>username = username u, uid = uid u, groups = groups u, extra = []\<rparr>
    in if 0 < length (extra u) then info\<lparr>extra := extra u\<rparr> else info) = u"
  by (cases u) (auto simp: Let_def)

text \<open>
  The identity the proxy acts on.  An identity is reported only for a request that the authenticator
  accepted without error and named a user for, and it is then exactly that user; in every other case the
  user is empty, and \<open>ok\<close> and the error are passed on unchanged, so a nil user with \<open>ok\<close> set is reported as
  the empty user, trusted.
\<close>

lemma from_request_spec:
  "from_request (Some \<lparr>authenticator = Some auth, requires_verified = v\<rparr>) (Some r) =
     (case auth r of
        (Some (Some user), True, None) \<Rightarrow> (user, True, None)
      | (_, ok, err) \<Rightarrow> (empty_user, ok, err))"
  using user_info_rebuild
  by (auto simp: from_request_def Let_def split: prod.splits option.splits bool.splits)

text \<open>
  The file-backed extractor requires verified headers exactly when a CA file is configured, and
  without one the list of allowed names has no influence on the identities it reports.
\<close>

lemma extractor_verification_mode:
  "(case new_extractor lib ca names of
      Inl _ \<Rightarrow> True
    | Inr e \<Rightarrow> requires_verified_headers (Some e) = (ca \<noteq> '''') \<and> authenticator e \<noteq> None) \<and>
   new_extractor lib '''' names = new_extractor lib '''' names' \<and>
   (case new_cluster_extractor tlib new_dynamic client of
      Inl _ \<Rightarrow> True
    | Inr (e, c) \<Rightarrow> requires_verified_headers (Some e) \<and> authenticator e = Some (new_dynamic c))"
  by (auto simp: new_extractor_def new_authenticator_def new_cluster_extractor_def requires_verified_headers_def
      split: sum.splits option.splits)

text \<open>\<open>filepath.Clean\<close> of the mounted path of a CA bundle, and of a path with parent elements.\<close>

lemma filepath_clean_examples:
  "filepath_clean ''/etc/certs//ca.crt'' = ''/etc/certs/ca.crt''"
  "filepath_clean ''../x/./../ca.crt'' = ''../ca.crt''"
  "filepath_clean '''' = ''.''"
  by code_simp+

end
