(* ===== verification/Go_Json.thy ===== *)
theory Go_Json
  imports Go_Url
begin

text \<open>
  The part of \<open>encoding/json\<close> that the audit builder uses: \<open>json.Valid\<close> and the syntax tree
  \<open>json.Unmarshal\<close> works on (a recursive-descent parser with the scanner's grammar, its nesting limit
  of 10000 and Go's treatment of escapes, surrogates and invalid UTF-8), and \<open>json.Marshal\<close> of a map
  with plain ASCII keys.  The parser's fuel counts calls on a path; \<open>parse_value_mono\<close> shows that a
  result never depends on it, and one more than the length of the input is always enough.
\<close>

datatype json =
    J_Null
  | J_Bool bool
  | J_Num string
  | J_Str string
  | J_Arr "json list"
  | J_Obj "(string \<times> json) list"

section \<open>Scanning\<close>

definition is_json_space :: "char \<Rightarrow> bool" where
  "is_json_space c \<longleftrightarrow> c = CHR '' '' \<or> c = CHR 0x09 \<or> c = CHR 0x0D \<or> c = CHR 0x0A"

definition skip_ws :: "string \<Rightarrow> string" where
  "skip_ws s = dropWhile is_json_space s"

text \<open>The next byte that is no white space, if it is the expected one, consumed.\<close>

definition expect :: "char \<Rightarrow> string \<Rightarrow> string option" where
  "expect c s = (case skip_ws s of [] \<Rightarrow> None | x # t \<Rightarrow> if x = c then Some t else None)"

text \<open>A string after its opening quote: the raw bytes up to the closing quote, and the rest.\<close>

fun scan_string :: "string \<Rightarrow> (string \<times> string) option" where
  "scan_string [] = None"
| "scan_string (c # cs) =
     (if c = CHR 0x22 then Some ([], cs)
      else if c = CHR 0x5C then
        (if cs = [] then None
         else if hd cs \<in> set (CHR 0x22 # CHR 0x5C # ''/bfnrt'') then
           map_option (\<lambda>(r, t). (c # hd cs # r, t)) (scan_string (drop 1 cs))
         else if hd cs = CHR ''u'' \<and> 5 \<le> length cs \<and> list_all is_hex (take 4 (drop 1 cs)) then
           map_option (\<lambda>(r, t). (c # take 5 cs @ r, t)) (scan_string (drop 5 cs))
         else None)
      else if of_char c < (32 :: nat) then None
      else map_option (\<lambda>(r, t). (c # r, t)) (scan_string cs))"

definition scan_int :: "string \<Rightarrow> (string \<times> string) option" where
  "scan_int s =
     (case s of
        [] \<Rightarrow> None
      | c # t \<Rightarrow>
          if c = CHR ''0'' then Some ([c], t)
          else if is_digit c then Some (takeWhile is_digit s, dropWhile is_digit s)
          else None)"

definition scan_digits :: "string \<Rightarrow> (string \<times> string) option" where
  "scan_digits s =
     (if takeWhile is_digit s = [] then None else Some (takeWhile is_digit s, dropWhile is_digit s))"

definition scan_frac :: "string \<Rightarrow> (string \<times> string) option" where
  "scan_frac s =
     (if s \<noteq> [] \<and> hd s = CHR ''.'' then
        map_option (\<lambda>(d, t). (CHR ''.'' # d, t)) (scan_digits (drop 1 s))
      else Some ([], s))"

definition scan_exp :: "string \<Rightarrow> (string \<times> string) option" where
  "scan_exp s =
     (if s \<noteq> [] \<and> (hd s = CHR ''e'' \<or> hd s = CHR ''E'') then
        (let t = drop 1 s;
             sign = (if t \<noteq> [] \<and> (hd t = CHR ''+'' \<or> hd t = CHR ''-'') then [hd t] else [])
         in map_option (\<lambda>(d, t). (hd s # sign @ d, t)) (scan_digits (drop (length sign) t)))
      else Some ([], s))"

definition scan_number :: "string \<Rightarrow> (string \<times> string) option" where
  "scan_number s =
     (let sign = (if s \<noteq> [] \<and> hd s = CHR ''-'' then ''-'' else '''')
      in case scan_int (drop (length sign) s) of
           None \<Rightarrow> None
         | Some (i, t) \<Rightarrow>
             (case scan_frac t of
                None \<Rightarrow> None
              | Some (f, t) \<Rightarrow>
                  map_option (\<lambda>(e, t). (sign @ i @ f @ e, t)) (scan_exp t)))"

section \<open>Unquoting\<close>

definition in_range :: "nat \<Rightarrow> nat \<Rightarrow> char \<Rightarrow> bool" where
  "in_range lo hi c \<longleftrightarrow> lo \<le> of_char c \<and> of_char c \<le> hi"

text \<open>The number of bytes of the rune at the front; 0 when it is no valid UTF-8.\<close>

definition utf8_len :: "string \<Rightarrow> nat" where
  "utf8_len s =
     (let b = (\<lambda>i lo hi. i < length s \<and> in_range lo hi (s ! i)); c = (\<lambda>i. b i 0x80 0xBF)
      in if b 0 0 0x7F then 1
         else if b 0 0xC2 0xDF \<and> c 1 then 2
         else if b 0 0xE0 0xE0 \<and> b 1 0xA0 0xBF \<and> c 2 then 3
         else if b 0 0xED 0xED \<and> b 1 0x80 0x9F \<and> c 2 then 3
         else if b 0 0xE1 0xEF \<and> \<not> b 0 0xED 0xED \<and> c 1 \<and> c 2 then 3
         else if b 0 0xF0 0xF0 \<and> b 1 0x90 0xBF \<and> c 2 \<and> c 3 then 4
         else if b 0 0xF4 0xF4 \<and> b 1 0x80 0x8F \<and> c 2 \<and> c 3 then 4
         else if b 0 0xF1 0xF3 \<and> c 1 \<and> c 2 \<and> c 3 then 4
         else 0)"

definition encode_rune :: "nat \<Rightarrow> string" where
  "encode_rune r =
     (if r < 0x80 then [char_of r]
      else if r < 0x800 then [char_of (0xC0 + r div 64), char_of (0x80 + r mod 64)]
      else if r < 0x10000 then
        [char_of (0xE0 + r div 4096), char_of (0x80 + r div 64 mod 64), char_of (0x80 + r mod 64)]
      else
        [char_of (0xF0 + r div 262144), char_of (0x80 + r div 4096 mod 64),
         char_of (0x80 + r div 64 mod 64), char_of (0x80 + r mod 64)])"

definition replacement_rune :: nat where
  "replacement_rune = 0xFFFD"

definition hex4 :: "string \<Rightarrow> nat" where
  "hex4 s = foldl (\<lambda>n c. 16 * n + unhex c) 0 (take 4 s)"

text \<open>\<open>utf16.DecodeRune\<close> of the escape \<open>rr\<close> and of the \<open>\u\<close> escape that may follow it.\<close>

definition decode_surrogates :: "nat \<Rightarrow> string \<Rightarrow> nat option" where
  "decode_surrogates rr s =
     (if 6 \<le> length s \<and> hd s = CHR 0x5C \<and> s ! 1 = CHR ''u'' \<and> rr < 0xDC00 \<and>
         0xDC00 \<le> hex4 (drop 2 s) \<and> hex4 (drop 2 s) < 0xE000
      then Some (0x10000 + (rr - 0xD800) * 1024 + (hex4 (drop 2 s) - 0xDC00))
      else None)"

definition unescape_char :: "char \<Rightarrow> char" where
  "unescape_char c =
     (if c = CHR ''b'' then CHR 0x08 else if c = CHR ''f'' then CHR 0x0C
      else if c = CHR ''n'' then CHR 0x0A else if c = CHR ''r'' then CHR 0x0D
      else if c = CHR ''t'' then CHR 0x09 else c)"

text \<open>\<open>unquote\<close> on the raw bytes of a string the scanner has accepted.\<close>

function unquote :: "string \<Rightarrow> string" where
  "unquote [] = []"
| "unquote (c # cs) =
     (if c = CHR 0x5C then
        (if cs = [] then []
         else if hd cs = CHR ''u'' then
           (let rr = hex4 (drop 1 cs); t = drop 5 cs
            in if 0xD800 \<le> rr \<and> rr < 0xE000 then
                 (case decode_surrogates rr t of
                    Some r \<Rightarrow> encode_rune r @ unquote (drop 6 t)
                  | None \<Rightarrow> encode_rune replacement_rune @ unquote t)
               else encode_rune rr @ unquote t)
         else unescape_char (hd cs) # unquote (drop 1 cs))
      else if utf8_len (c # cs) = 0 then encode_rune replacement_rune @ unquote cs
      else take (utf8_len (c # cs)) (c # cs) @ unquote (drop (utf8_len (c # cs)) (c # cs)))"
  by pat_completeness auto
termination
  by (relation "measure length") auto

declare unquote.simps [simp del]

section \<open>Parsing\<close>

definition max_nesting_depth :: nat where
  "max_nesting_depth = 10000"

text \<open>A string, a keyword or a number.\<close>

definition parse_literal :: "string \<Rightarrow> (json \<times> string) option" where
  "parse_literal s =
     (if prefix [CHR 0x22] s then
        map_option (\<lambda>(r, t). (J_Str (unquote r), t)) (scan_string (drop 1 s))
      else if prefix ''true'' s then Some (J_Bool True, drop (length ''true'') s)
      else if prefix ''false'' s then Some (J_Bool False, drop (length ''false'') s)
      else if prefix ''null'' s then Some (J_Null, drop (length ''null'') s)
      else map_option (\<lambda>(r, t). (J_Num r, t)) (scan_number s))"

fun parse_value :: "nat \<Rightarrow> nat \<Rightarrow> string \<Rightarrow> (json \<times> string) option"
  and parse_elems :: "nat \<Rightarrow> nat \<Rightarrow> string \<Rightarrow> (json list \<times> string) option"
  and parse_members :: "nat \<Rightarrow> nat \<Rightarrow> string \<Rightarrow> ((string \<times> json) list \<times> string) option"
where
  "parse_value 0 d s = None"
| "parse_value (Suc n) d s =
     (case skip_ws s of
        [] \<Rightarrow> None
      | c # cs \<Rightarrow>
          if c = CHR ''{'' then
            (if max_nesting_depth \<le> d then None
             else case expect CHR ''}'' cs of
                    Some t \<Rightarrow> Some (J_Obj [], t)
                  | None \<Rightarrow> map_option (\<lambda>(m, t). (J_Obj m, t)) (parse_members n (Suc d) cs))
          else if c = CHR ''['' then
            (if max_nesting_depth \<le> d then None
             else case expect CHR '']'' cs of
                    Some t \<Rightarrow> Some (J_Arr [], t)
                  | None \<Rightarrow> map_option (\<lambda>(m, t). (J_Arr m, t)) (parse_elems n (Suc d) cs))
          else parse_literal (c # cs))"
| "parse_elems 0 d s = None"
| "parse_elems (Suc n) d s =
     (case parse_value n d s of
        None \<Rightarrow> None
      | Some (v, t) \<Rightarrow>
          (case expect CHR '']'' t of
             Some t \<Rightarrow> Some ([v], t)
           | None \<Rightarrow>
               (case expect CHR '','' t of
                  None \<Rightarrow> None
                | Some t \<Rightarrow> map_option (\<lambda>(vs, t). (v # vs, t)) (parse_elems n d t))))"
| "parse_members 0 d s = None"
| "parse_members (Suc n) d s =
     (case Option.bind (expect CHR 0x22 s) scan_string of
        None \<Rightarrow> None
      | Some (k, t) \<Rightarrow>
          (case Option.bind (expect CHR '':'' t) (parse_value n d) of
             None \<Rightarrow> None
           | Some (v, t) \<Rightarrow>
               (case expect CHR ''}'' t of
                  Some t \<Rightarrow> Some ([(unquote k, v)], t)
                | None \<Rightarrow>
                    (case expect CHR '','' t of
                       None \<Rightarrow> None
                     | Some t \<Rightarrow> map_option (\<lambda>(m, t). ((unquote k, v) # m, t)) (parse_members n d t)))))"

definition parse_json :: "bytes \<Rightarrow> json option" where
  "parse_json s =
     (case parse_value (Suc (length s)) 0 s of
        None \<Rightarrow> None
      | Some (v, t) \<Rightarrow> if skip_ws t = [] then Some v else None)"

definition json_valid :: "bytes \<Rightarrow> bool" where
  "json_valid s \<longleftrightarrow> parse_json s \<noteq> None"

section \<open>Marshalling a map\<close>

text \<open>\<open>json.Marshal\<close> sorts the keys of a map; the keys used need no escaping.\<close>

definition member_text :: "string \<times> string \<Rightarrow> string" where
  "member_text kv = CHR 0x22 # fst kv @ CHR 0x22 # CHR '':'' # snd kv"

definition marshal_object :: "(string \<times> string) list \<Rightarrow> string" where
  "marshal_object kvs = ''{'' @ join_with '','' (map member_text (sort_key fst kvs)) @ ''}''"

section \<open>The parser's fuel\<close>

lemma length_skip_ws: "length (skip_ws s) \<le> length s"
  by (simp add: skip_ws_def length_dropWhile_le)

lemma expect_consumes: "expect c s = Some t \<Longrightarrow> length t < length s"
  using length_skip_ws [of s] by (auto simp: expect_def split: list.splits if_splits)

lemma scan_string_cases:
  assumes "scan_string (c # cs) = Some (r, t)"
  shows "t = cs \<or> (\<exists>k r'. scan_string (drop k cs) = Some (r', t))"
proof -
  have "\<exists>r'. scan_string (drop 0 cs) = Some (r', t)"
    if "map_option (\<lambda>(r, t). (c # r, t)) (scan_string cs) = Some (r, t)"
    using that by auto
  then show ?thesis
    using assms by (auto simp only: scan_string.simps split: if_splits)
qed

lemma scan_string_consumes: "scan_string s = Some (r, t) \<Longrightarrow> length t < length s"
proof (induction s arbitrary: r rule: length_induct)
  case (1 s)
  show ?case
  proof (cases s)
    case (Cons c cs)
    have ih: "length t < length (drop k cs)" if "scan_string (drop k cs) = Some (r', t)" for k r'
      using 1(1) [rule_format, of "drop k cs" r'] that Cons by (simp add: le_imp_less_Suc)
    show ?thesis
      using scan_string_cases [of c cs r t] 1(2) Cons by (auto dest!: ih)
  qed (use 1 in simp)
qed

lemma length_dropWhile_digit: "takeWhile p s \<noteq> [] \<Longrightarrow> length (dropWhile p s) < length s"
  by (cases s) (auto simp: le_imp_less_Suc length_dropWhile_le split: if_splits)

lemma scan_digits_consumes: "scan_digits s = Some (r, t) \<Longrightarrow> length t < length s"
  using length_dropWhile_digit [of is_digit s] by (auto simp: scan_digits_def split: if_splits)

lemma scan_int_consumes: "scan_int s = Some (r, t) \<Longrightarrow> length t < length s"
  by (auto simp: scan_int_def le_imp_less_Suc length_dropWhile_le split: list.splits if_splits)

lemma scan_frac_consumes: "scan_frac s = Some (r, t) \<Longrightarrow> length t \<le> length s"
  by (auto simp: scan_frac_def split: if_splits dest: scan_digits_consumes)

lemma scan_exp_consumes: "scan_exp s = Some (r, t) \<Longrightarrow> length t \<le> length s"
  by (auto simp: scan_exp_def Let_def split: if_splits dest: scan_digits_consumes)

lemma scan_number_consumes:
  assumes "scan_number s = Some (r, t)"
  shows "length t < length s"
proof -
  define sign where "sign = (if s \<noteq> [] \<and> hd s = CHR ''-'' then ''-'' else '''')"
  obtain i u f w e where
    "scan_int (drop (length sign) s) = Some (i, u)" "scan_frac u = Some (f, w)" "scan_exp w = Some (e, t)"
    using assms by (auto simp: scan_number_def Let_def sign_def [symmetric] split: option.splits)
  then show ?thesis
    by (auto dest!: scan_int_consumes scan_frac_consumes scan_exp_consumes)
qed

lemmas scan_consumes = expect_consumes scan_string_consumes scan_number_consumes

text \<open>A result consumes input, and any fuel as large as what it consumes gives the same result.\<close>

definition fuel_ok :: "(nat \<Rightarrow> nat \<Rightarrow> string \<Rightarrow> ('a \<times> string) option) \<Rightarrow> nat \<Rightarrow> bool" where
  "fuel_ok p m \<longleftrightarrow>
     (\<forall>d s v t. p m d s = Some (v, t) \<longrightarrow>
        length t < length s \<and> (\<forall>n. length s \<le> length t + n \<longrightarrow> p n d s = Some (v, t)))"

lemma fuel_okD:
  assumes "fuel_ok p m" "p m d s = Some (v, t)"
  shows "length t < length s" "length s \<le> length t + n \<Longrightarrow> p n d s = Some (v, t)"
  using assms unfolding fuel_ok_def by blast+

lemma keyword_consumes:
  assumes "(if prefix p s then Some (x, drop (length p) s) else r) = Some (v, t)" "p \<noteq> []"
    and "r = Some (v, t) \<Longrightarrow> length t < length s"
  shows "length t < length s"
proof (cases "prefix p s")
  case True
  then obtain u where "s = p @ u" by (auto simp: prefix_def)
  then show ?thesis using True assms(1,2) by auto
qed (use assms in simp)

lemma parse_literal_consumes:
  assumes "parse_literal s = Some (v, t)"
  shows "length t < length s"
proof (cases "prefix [CHR 0x22] s")
  case True
  then obtain r where "scan_string (drop 1 s) = Some (r, t)"
    using assms by (auto simp: parse_literal_def)
  then show ?thesis using scan_string_consumes by fastforce
next
  case False
  have n: "map_option (\<lambda>(r, t). (J_Num r, t)) (scan_number s) = Some (v, t) \<Longrightarrow> length t < length s"
    by (auto dest: scan_number_consumes)
  have nl: "(if prefix ''null'' s then Some (J_Null, drop (length ''null'') s)
      else map_option (\<lambda>(r, t). (J_Num r, t)) (scan_number s)) = Some (v, t) \<Longrightarrow> length t < length s"
    by (erule keyword_consumes [OF _ _ n]) auto
  have fl: "(if prefix ''false'' s then Some (J_Bool False, drop (length ''false'') s)
      else if prefix ''null'' s then Some (J_Null, drop (length ''null'') s)
      else map_option (\<lambda>(r, t). (J_Num r, t)) (scan_number s)) = Some (v, t) \<Longrightarrow> length t < length s"
    by (erule keyword_consumes [OF _ _ nl]) auto
  have "(if prefix ''true'' s then Some (J_Bool True, drop (length ''true'') s)
      else if prefix ''false'' s then Some (J_Bool False, drop (length ''false'') s)
      else if prefix ''null'' s then Some (J_Null, drop (length ''null'') s)
      else map_option (\<lambda>(r, t). (J_Num r, t)) (scan_number s)) = Some (v, t)"
    using assms unfolding parse_literal_def if_not_P [OF False] .
  then show ?thesis by (rule keyword_consumes [OF _ _ fl]) auto
qed

lemma parse_value_step:
  assumes e: "fuel_ok parse_elems m" and mm: "fuel_ok parse_members m"
  shows "fuel_ok parse_value (Suc m)"
  unfolding fuel_ok_def
proof (intro allI impI)
  fix d s v t
  assume r: "parse_value (Suc m) d s = Some (v, t)"
  then obtain c cs where s: "skip_ws s = c # cs" by (auto split: list.splits)
  have l: "Suc (length cs) \<le> length s" using length_skip_ws [of s] s by simp
  let ?goal = "length t < length s \<and> (\<forall>n. length s \<le> length t + n \<longrightarrow> parse_value n d s = Some (v, t))"
  have goal: ?goal if "length t < length s"
    and "\<And>n. length s \<le> length t + Suc n \<Longrightarrow> parse_value (Suc n) d s = Some (v, t)"
    using that by (metis add_0_right leD not0_implies_Suc)
  consider (obj) "c = CHR ''{''" "d < max_nesting_depth" | (arr) "c = CHR ''[''" "d < max_nesting_depth"
    | (lit) "c \<noteq> CHR ''{''" "c \<noteq> CHR ''[''"
    using r s by (auto simp: not_le split: if_splits)
  then show ?goal
  proof cases
    case obj
    show ?thesis
    proof (cases "expect CHR ''}'' cs")
      case None
      then obtain ms where ms: "parse_members m (Suc d) cs = Some (ms, t)" "v = J_Obj ms"
        using r s obj by auto
      show ?thesis
        by (rule goal) (use s obj None l ms fuel_okD(1) [OF mm ms(1)] fuel_okD(2) [OF mm ms(1)] in auto)
    next
      case (Some u)
      show ?thesis
        by (rule goal) (use r s obj Some l expect_consumes [OF Some] in auto)
    qed
  next
    case arr
    show ?thesis
    proof (cases "expect CHR '']'' cs")
      case None
      then obtain ms where ms: "parse_elems m (Suc d) cs = Some (ms, t)" "v = J_Arr ms"
        using r s arr by auto
      show ?thesis
        by (rule goal) (use s arr None l ms fuel_okD(1) [OF e ms(1)] fuel_okD(2) [OF e ms(1)] in auto)
    next
      case (Some u)
      show ?thesis
        by (rule goal) (use r s arr Some l expect_consumes [OF Some] in auto)
    qed
  next
    case lit
    show ?thesis
      by (rule goal) (use r s lit l parse_literal_consumes [of "c # cs" v t] in auto)
  qed
qed

lemma parse_elems_step:
  assumes pv: "fuel_ok parse_value m" and e: "fuel_ok parse_elems m"
  shows "fuel_ok parse_elems (Suc m)"
  unfolding fuel_ok_def
proof (intro allI impI)
  fix d s vs t
  assume r: "parse_elems (Suc m) d s = Some (vs, t)"
  then obtain v u where v: "parse_value m d s = Some (v, u)" by (auto split: option.splits)
  note lu = fuel_okD(1) [OF pv v]
  consider (last) "expect CHR '']'' u = Some t" "vs = [v]"
    | (more) w vs' where "expect CHR '']'' u = None" "expect CHR '','' u = Some w"
        "parse_elems m d w = Some (vs', t)" "vs = v # vs'"
    using r v by (auto split: option.splits)
  then show "length t < length s \<and> (\<forall>n. length s \<le> length t + n \<longrightarrow> parse_elems n d s = Some (vs, t))"
  proof cases
    case last
    then have lt: "length t < length u" by (auto dest: expect_consumes)
    have "parse_elems (Suc n) d s = Some (vs, t)" if "length s \<le> length t + Suc n" for n
      using fuel_okD(2) [OF pv v, of n] that lt last by auto
    then show ?thesis using lu lt by (metis add_0_right leD less_trans not0_implies_Suc)
  next
    case more
    then have lt: "length w < length u" "length t < length w"
      by (auto dest: expect_consumes fuel_okD(1) [OF e])
    have "parse_elems (Suc n) d s = Some (vs, t)" if "length s \<le> length t + Suc n" for n
      using fuel_okD(2) [OF pv v, of n] fuel_okD(2) [OF e more(3), of n] that lu lt more by auto
    then show ?thesis using lu lt by (metis add_0_right leD less_trans not0_implies_Suc)
  qed
qed

lemma parse_members_step:
  assumes pv: "fuel_ok parse_value m" and e: "fuel_ok parse_members m"
  shows "fuel_ok parse_members (Suc m)"
  unfolding fuel_ok_def
proof (intro allI impI)
  fix d s vs t
  assume r: "parse_members (Suc m) d s = Some (vs, t)"
  then obtain q k b a v u where k: "expect CHR 0x22 s = Some q" "scan_string q = Some (k, b)"
    and a: "expect CHR '':'' b = Some a" and v: "parse_value m d a = Some (v, u)"
    by (auto simp: bind_eq_Some_conv split: option.splits)
  have lu: "length a < length s" "length u < length a"
    using k a by (auto dest!: scan_consumes intro: fuel_okD(1) [OF pv v])
  consider (last) "expect CHR ''}'' u = Some t" "vs = [(unquote k, v)]"
    | (more) w vs' where "expect CHR ''}'' u = None" "expect CHR '','' u = Some w"
        "parse_members m d w = Some (vs', t)" "vs = (unquote k, v) # vs'"
    using r k a v by (auto split: option.splits)
  then show "length t < length s \<and> (\<forall>n. length s \<le> length t + n \<longrightarrow> parse_members n d s = Some (vs, t))"
  proof cases
    case last
    then have lt: "length t < length u" by (auto dest: expect_consumes)
    have "parse_members (Suc n) d s = Some (vs, t)" if "length s \<le> length t + Suc n" for n
      using fuel_okD(2) [OF pv v, of n] that lt lu last k a by auto
    then show ?thesis using lu lt by (metis add_0_right leD less_trans not0_implies_Suc)
  next
    case more
    then have lt: "length w < length u" "length t < length w"
      by (auto dest: expect_consumes fuel_okD(1) [OF e])
    have "parse_members (Suc n) d s = Some (vs, t)" if "length s \<le> length t + Suc n" for n
      using fuel_okD(2) [OF pv v, of n] fuel_okD(2) [OF e more(3), of n] that lu lt more k a by auto
    then show ?thesis using lu lt by (metis add_0_right leD less_trans not0_implies_Suc)
  qed
qed

lemma parse_fuel: "fuel_ok parse_value m \<and> fuel_ok parse_elems m \<and> fuel_ok parse_members m"
proof (induction m)
  case 0
  then show ?case by (simp add: fuel_ok_def)
next
  case (Suc m)
  then show ?case by (simp add: parse_value_step parse_elems_step parse_members_step)
qed

lemmas parse_value_consumes = fuel_okD(1) [OF conjunct1 [OF parse_fuel]]

lemma parse_value_mono:
  assumes "parse_value m d s = Some r" "length s \<le> n"
  shows "parse_value n d s = Some r"
  using fuel_okD(2) [OF conjunct1 [OF parse_fuel], of m d s "fst r" "snd r" n] assms by simp

lemma parse_jsonI: "parse_value m 0 s = Some (v, t) \<Longrightarrow> skip_ws t = [] \<Longrightarrow> parse_json s = Some v"
  using parse_value_mono [of m 0 s "(v, t)" "Suc (length s)"] by (simp add: parse_json_def)

section \<open>What a marshalled map parses to\<close>

definition plain_char :: "char \<Rightarrow> bool" where
  "plain_char c \<longleftrightarrow> (let n = of_char c :: nat in 32 \<le> n \<and> n < 128) \<and> c \<noteq> CHR 0x22 \<and> c \<noteq> CHR 0x5C"

text \<open>A text that, followed by a comma or a closing brace, parses to one scalar.\<close>

definition scalar_text :: "string \<Rightarrow> json \<Rightarrow> bool" where
  "scalar_text v j \<longleftrightarrow>
     (\<forall>n d c t. c = CHR '','' \<or> c = CHR ''}'' \<longrightarrow> parse_value (Suc n) d (v @ c # t) = Some (j, c # t))"

lemma scan_string_plain: "list_all plain_char k \<Longrightarrow> scan_string (k @ CHR 0x22 # t) = Some (k, t)"
  by (induction k) (simp_all add: plain_char_def Let_def)

lemma utf8_len_plain: "plain_char c \<Longrightarrow> utf8_len (c # cs) = Suc 0"
  by (simp add: utf8_len_def plain_char_def Let_def in_range_def)

lemma unquote_plain: "list_all plain_char k \<Longrightarrow> unquote k = k"
proof (induction k)
  case (Cons c k)
  then show ?case
    using utf8_len_plain [of c k] by (simp add: unquote.simps(2) plain_char_def)
qed (simp add: unquote.simps)

lemma digit_not_special:
  assumes "is_digit c"
  shows "\<not> is_json_space c" "c \<noteq> CHR ''{''" "c \<noteq> CHR ''[''" "c \<noteq> CHR 0x22" "c \<noteq> CHR ''t''"
    "c \<noteq> CHR ''f''" "c \<noteq> CHR ''n''" "c \<noteq> CHR ''-''"
  using assms by (auto simp: is_digit_def is_json_space_def Let_def)

lemma takeWhile_digits:
  assumes "\<forall>c\<in>set ds. is_digit c" "\<not> is_digit c"
  shows "takeWhile is_digit (ds @ c # t) = ds" "dropWhile is_digit (ds @ c # t) = c # t"
  using assms by (induction ds) auto

lemma scan_int_digits:
  assumes "\<not> is_digit c"
  shows "scan_int (nat_digits n @ c # t) = Some (nat_digits n, c # t)"
proof (cases "n = 0")
  case True
  moreover have "nat_digits 0 = ''0''" by code_simp
  ultimately show ?thesis by (simp add: scan_int_def)
next
  case False
  obtain x xs where x: "nat_digits n = x # xs" by (cases "nat_digits n") auto
  have d: "\<forall>c\<in>set (nat_digits n). is_digit c" by (simp add: nat_digits_digits)
  show ?thesis
    using nat_digits_hd [OF False] takeWhile_digits [OF d assms, of t] d
    by (auto simp: scan_int_def x)
qed

lemma scan_number_itoa:
  assumes "c = CHR '','' \<or> c = CHR ''}''"
  shows "scan_number (itoa i @ c # t) = Some (itoa i, c # t)"
proof -
  have nd: "\<not> is_digit c" using assms by (auto simp: is_digit_def)
  have e: "scan_frac (c # t) = Some ([], c # t)" "scan_exp (c # t) = Some ([], c # t)"
    using assms by (auto simp: scan_frac_def scan_exp_def)
  obtain x xs where x: "nat_digits (nat i) = x # xs" by (cases "nat_digits (nat i)") auto
  have "is_digit x" using nat_digits_digits [of x "nat i"] x by simp
  then have "x \<noteq> CHR ''-''" by (rule digit_not_special)
  then show ?thesis
    using scan_int_digits [OF nd, of "nat i" t] scan_int_digits [OF nd, of "nat (- i)" t] x
    by (simp add: scan_number_def itoa_def e)
qed

lemma itoa_scalar: "scalar_text (itoa i) (J_Num (itoa i))"
  unfolding scalar_text_def
proof (intro allI impI)
  fix n d t and c :: char
  assume c: "c = CHR '','' \<or> c = CHR ''}''"
  obtain x xs where x: "itoa i = x # xs" by (cases "itoa i") (auto simp: itoa_def split: if_splits)
  have "x = CHR ''-'' \<or> is_digit x"
    using x nat_digits_digits [of x "nat i"] by (auto simp: itoa_def split: if_splits)
  then have ns: "\<not> is_json_space x" "x \<noteq> CHR ''{''" "x \<noteq> CHR ''[''" "x \<noteq> CHR 0x22"
    "x \<noteq> CHR ''t''" "x \<noteq> CHR ''f''" "x \<noteq> CHR ''n''"
    by (auto dest: digit_not_special simp: is_json_space_def)
  have "parse_literal (itoa i @ c # t) = Some (J_Num (itoa i), c # t)"
    using ns scan_number_itoa [OF c, of i t] by (simp add: parse_literal_def x)
  then show "parse_value (Suc n) d (itoa i @ c # t) = Some (J_Num (itoa i), c # t)"
    using ns by (simp add: skip_ws_def x)
qed

lemma true_scalar: "scalar_text ''true'' (J_Bool True)"
  by (simp add: scalar_text_def skip_ws_def is_json_space_def parse_literal_def)

lemma skip_ws_quote [simp]: "skip_ws (CHR 0x22 # t) = CHR 0x22 # t"
  and skip_ws_colon [simp]: "skip_ws (CHR '':'' # t) = CHR '':'' # t"
  and skip_ws_comma [simp]: "skip_ws (CHR '','' # t) = CHR '','' # t"
  and skip_ws_brace [simp]: "skip_ws (CHR ''}'' # t) = CHR ''}'' # t"
  and skip_ws_open [simp]: "skip_ws (CHR ''{'' # t) = CHR ''{'' # t"
  by (simp_all add: skip_ws_def is_json_space_def)

lemma parse_members_texts:
  assumes "kvs \<noteq> []" "list_all2 (\<lambda>kv (k, j). fst kv = k \<and> list_all plain_char k \<and> scalar_text (snd kv) j) kvs m"
  shows "parse_members (Suc (length kvs)) d (join_with '','' (map member_text kvs) @ CHR ''}'' # t) = Some (m, t)"
  using assms
proof (induction kvs arbitrary: m)
  case (Cons kv kvs)
  then obtain k j m' where m: "m = (k, j) # m'" "fst kv = k" "list_all plain_char k" "scalar_text (snd kv) j"
    and rest: "list_all2 (\<lambda>kv (k, j). fst kv = k \<and> list_all plain_char k \<and> scalar_text (snd kv) j) kvs m'"
    by (cases m) auto
  have v: "parse_value (Suc n) d (snd kv @ c # u) = Some (j, c # u)" if "c = CHR '','' \<or> c = CHR ''}''" for n c u
    using m(4) that unfolding scalar_text_def by blast
  show ?case
  proof (cases kvs)
    case Nil
    then show ?thesis
      using m rest v
      by (simp add: member_text_def expect_def scan_string_plain unquote_plain del: parse_value.simps)
  next
    case (Cons kv' kvs')
    with Cons.IH [OF _ rest] m v show ?thesis
      by (simp add: member_text_def expect_def scan_string_plain unquote_plain join_with_Cons
          del: parse_value.simps)
  qed
qed simp

theorem parse_marshal_object:
  assumes "kvs \<noteq> []" "list_all2 (\<lambda>kv (k, j). fst kv = k \<and> list_all plain_char k \<and> scalar_text (snd kv) j) (sort_key fst kvs) m"
  shows "parse_json (marshal_object kvs) = Some (J_Obj m)"
proof -
  have ne: "sort_key fst kvs \<noteq> []" using assms(1) by (metis length_0_conv length_sort)
  let ?body = "join_with '','' (map member_text (sort_key fst kvs)) @ ''}''"
  have "marshal_object kvs = CHR ''{'' # ?body"
    by (simp add: marshal_object_def)
  moreover have "expect CHR ''}'' ?body = None"
    using ne by (cases "sort_key fst kvs"; cases "tl (sort_key fst kvs)")
      (auto simp: expect_def member_text_def join_with_Cons)
  moreover have "parse_members (Suc (length (sort_key fst kvs))) (Suc 0) ?body = Some (m, [])"
    by (rule parse_members_texts [OF ne assms(2)])
  ultimately have "parse_value (Suc (Suc (length (sort_key fst kvs)))) 0 (marshal_object kvs) = Some (J_Obj m, [])"
    by (simp add: max_nesting_depth_def)
  then show ?thesis by (rule parse_jsonI) (simp add: skip_ws_def)
qed

end
