(* ===== verification/Audit_Builder.thy ===== *)
theory Audit_Builder
  imports Http_Message Go_Json
begin

text \<open>
  \<open>pkg/audit/builder.go\<close>: from one proxied exchange to one audit event.  The decoding of the object
  metadata follows \<open>encoding/json\<close> (exact field name first, then case-insensitive; \<open>null\<close> changes
  nothing; a mismatched type makes the whole decoding fail but does not stop it; a repeated key is decoded
  over the earlier one).  The decoding of a \<open>metav1.Status\<close> is third-party code: it is the parameter
  \<open>unmarshal_status\<close>, and \<open>uuid.NewUUID\<close> is the argument \<open>new_uuid\<close>.
\<close>

section \<open>The data\<close>

record audit_input =
  in_request :: "http_request option"
  in_request_info :: "request_info option"
  in_user :: user_info
  in_request_body :: bytes
  in_request_body_bytes :: int64
  in_request_body_truncated :: bool
  in_response_body :: bytes
  in_response_body_bytes :: int64
  in_response_body_truncated :: bool
  in_response_status_code :: int
  in_request_received_at :: instant
  in_response_completed_at :: instant

record builder =
  max_body_bytes :: int64

definition new_builder :: "int64 \<Rightarrow> builder" where
  "new_builder n = \<lparr>max_body_bytes = n\<rparr>"

datatype build_error = Request_Required | Request_Info_Required

text \<open>The fields of \<open>metav1.Status\<close> the builder touches; \<open>st_rest\<close> is the others, \<open>None\<close> their zero.\<close>

record 's status =
  st_kind :: string
  st_api_version :: string
  st_code :: int32
  st_rest :: "'s option"

record unknown =
  raw :: bytes
  content_type :: string

record object_meta =
  om_name :: string
  om_namespace :: string
  om_uid :: string
  om_resource_version :: string

record object_reference =
  ref_api_group :: string
  ref_api_version :: string
  ref_resource :: string
  ref_subresource :: string
  ref_name :: string
  ref_namespace :: string
  ref_uid :: string
  ref_resource_version :: string

record 's audit_event =
  ev_level :: string
  ev_audit_id :: string
  ev_stage :: string
  ev_request_uri :: string
  ev_verb :: string
  ev_user :: user_info
  ev_user_agent :: string
  ev_source_ips :: "string list"
  ev_response_status :: "'s status"
  ev_request_received :: instant
  ev_stage_timestamp :: instant
  ev_object_ref :: "object_reference option"
  ev_request_object :: "unknown option"
  ev_response_object :: "unknown option"
  ev_annotations :: "(string \<times> string) list"

record 's event_list =
  el_api_version :: string
  el_kind :: string
  el_items :: "'s audit_event list"

definition truncation_annotation_prefix :: string where
  "truncation_annotation_prefix = ''audit-pass-through.configbutler.io/''"

section \<open>Small helpers\<close>

definition namespace_value :: "string \<Rightarrow> string" where
  "namespace_value ns = (if ns = '''' then '''' else ns)"

fun first_non_empty :: "string list \<Rightarrow> string" where
  "first_non_empty [] = ''''"
| "first_non_empty (v # vs) = (if trim_space v \<noteq> '''' then v else first_non_empty vs)"

definition audit_id_from_request :: "string \<Rightarrow> http_request \<Rightarrow> string" where
  "audit_id_from_request new_uuid req =
     (let value = trim_space (header_get (rq_header req) ''Audit-ID'')
      in if value \<noteq> '''' then value else new_uuid)"

definition append_ip :: "string \<Rightarrow> string set \<times> string list \<Rightarrow> string set \<times> string list" where
  "append_ip value st =
     (case st of (seen, ips) \<Rightarrow>
        (let value = trim_space value
         in if value = '''' then (seen, ips)
            else if value \<in> seen then (seen, ips)
            else (insert value seen, ips @ [value])))"

definition collect_source_ips :: "http_request \<Rightarrow> string list" where
  "collect_source_ips req =
     (let st = fold append_ip (split_on CHR '','' (header_get (rq_header req) ''X-Forwarded-For'')) ({}, []);
          st = append_ip (header_get (rq_header req) ''X-Real-IP'') st
      in case split_host_port (rq_remote_addr req) of
           Inr (h, _) \<Rightarrow> snd (append_ip h st)
         | Inl _ \<Rightarrow> snd (append_ip (rq_remote_addr req) st))"

section \<open>Object metadata\<close>

definition empty_meta :: object_meta where
  "empty_meta = \<lparr>om_name = '''', om_namespace = '''', om_uid = '''', om_resource_version = ''''\<rparr>"

text \<open>The field of a struct that a key selects.\<close>

definition match_field :: "string list \<Rightarrow> string \<Rightarrow> string option" where
  "match_field names key =
     (if key \<in> set names then Some key else List.find (\<lambda>f. equal_fold f key) names)"

text \<open>Decoding a value into a string field: the new value and whether an error is saved.\<close>

fun decode_string :: "json \<Rightarrow> string \<Rightarrow> string \<times> bool" where
  "decode_string (J_Str s) old = (s, False)"
| "decode_string J_Null old = (old, False)"
| "decode_string _ old = (old, True)"

definition decode_meta_field :: "string \<times> json \<Rightarrow> object_meta \<times> bool \<Rightarrow> object_meta \<times> bool" where
  "decode_meta_field kv st =
     (case st of (m, failed) \<Rightarrow>
       (case match_field [''name'', ''namespace'', ''uid'', ''resourceVersion''] (fst kv) of
          None \<Rightarrow> (m, failed)
        | Some f \<Rightarrow>
            if f = ''name'' then
              (case decode_string (snd kv) (om_name m) of (s, e) \<Rightarrow> (m\<lparr>om_name := s\<rparr>, failed \<or> e))
            else if f = ''namespace'' then
              (case decode_string (snd kv) (om_namespace m) of (s, e) \<Rightarrow> (m\<lparr>om_namespace := s\<rparr>, failed \<or> e))
            else if f = ''uid'' then
              (case decode_string (snd kv) (om_uid m) of (s, e) \<Rightarrow> (m\<lparr>om_uid := s\<rparr>, failed \<or> e))
            else
              (case decode_string (snd kv) (om_resource_version m) of
                 (s, e) \<Rightarrow> (m\<lparr>om_resource_version := s\<rparr>, failed \<or> e))))"

fun decode_meta :: "json \<Rightarrow> object_meta \<times> bool \<Rightarrow> object_meta \<times> bool" where
  "decode_meta (J_Obj kvs) st = fold decode_meta_field kvs st"
| "decode_meta J_Null st = st"
| "decode_meta _ st = (fst st, True)"

fun decode_carrier :: "json \<Rightarrow> object_meta \<times> bool \<Rightarrow> object_meta \<times> bool" where
  "decode_carrier (J_Obj kvs) st =
     fold (\<lambda>kv st. if match_field [''metadata''] (fst kv) = None then st else decode_meta (snd kv) st) kvs st"
| "decode_carrier J_Null st = st"
| "decode_carrier _ st = (fst st, True)"

definition decode_object_meta :: "bytes \<Rightarrow> object_meta" where
  "decode_object_meta body =
     (if trim_space body = [] then empty_meta
      else case parse_json body of
             None \<Rightarrow> empty_meta
           | Some j \<Rightarrow>
               (case decode_carrier j (empty_meta, False) of
                  (m, failed) \<Rightarrow> if failed then empty_meta else m))"

section \<open>The parts of an event\<close>

definition build_object_reference :: "request_info \<Rightarrow> object_meta \<Rightarrow> object_meta \<Rightarrow> object_reference" where
  "build_object_reference info request_meta response_meta =
     (let ref = \<lparr>ref_api_group = api_group info, ref_api_version = api_version info,
                 ref_resource = resource info, ref_subresource = subresource info,
                 ref_name = first_non_empty [info_name info, om_name request_meta, om_name response_meta],
                 ref_namespace = first_non_empty [namespace_value (info_namespace info),
                   om_namespace request_meta, om_namespace response_meta],
                 ref_uid = first_non_empty [om_uid response_meta, om_uid request_meta],
                 ref_resource_version = ''''\<rparr>;
          rv = first_non_empty [om_resource_version response_meta, om_resource_version request_meta]
      in if rv \<noteq> '''' then ref\<lparr>ref_resource_version := rv\<rparr> else ref)"

text \<open>\<open>json.Marshal\<close> of the map; it cannot fail on a Boolean and two integers.\<close>

definition truncated_payload :: "bytes \<Rightarrow> int64 \<Rightarrow> bytes" where
  "truncated_payload body original_size =
     marshal_object
       [(''truncated'', format_bool True),
        (''originalSizeBytes'', itoa (sint original_size)),
        (''capturedBytes'', itoa (int (length body)))]"

definition build_unknown :: "bytes \<Rightarrow> int64 \<Rightarrow> bool \<Rightarrow> unknown option \<times> bool" where
  "build_unknown body original_size trunc =
     (if length (trim_space body) = 0 then (None, False)
      else if trunc then
        (Some \<lparr>raw = truncated_payload body original_size, content_type = ''application/json''\<rparr>, True)
      else if \<not> json_valid body then (None, False)
      else (Some \<lparr>raw = body, content_type = ''application/json''\<rparr>, False))"

definition build_response_status :: "(bytes \<Rightarrow> 's status option) \<Rightarrow> int \<Rightarrow> bytes \<Rightarrow> 's status" where
  "build_response_status unmarshal_status code body =
     (let fallback = \<lparr>st_kind = '''', st_api_version = '''', st_code = word_of_int code, st_rest = None\<rparr>
      in if 0 < length (trim_space body) then
           (case unmarshal_status body of
              None \<Rightarrow> fallback
            | Some st \<Rightarrow>
                if equal_fold (st_kind st) ''Status'' then
                  (let st = (if st_api_version st = '''' then st\<lparr>st_api_version := ''v1''\<rparr> else st);
                       st = (if st_kind st = '''' then st\<lparr>st_kind := ''Status''\<rparr> else st);
                       st = (if st_code st = 0 then st\<lparr>st_code := word_of_int code\<rparr> else st)
                   in st)
                else fallback)
         else fallback)"

section \<open>Build and Wrap\<close>

definition build ::
  "(bytes \<Rightarrow> 's status option) \<Rightarrow> string \<Rightarrow> builder \<Rightarrow> audit_input \<Rightarrow> build_error + 's audit_event" where
  "build unmarshal_status new_uuid b input =
     (case in_request input of
        None \<Rightarrow> Inl Request_Required
      | Some req \<Rightarrow>
     (case in_request_info input of
        None \<Rightarrow> Inl Request_Info_Required
      | Some info \<Rightarrow>
        (let request_meta = decode_object_meta (in_request_body input);
             response_meta = decode_object_meta (in_response_body input);
             event = \<lparr>ev_level = ''RequestResponse'', ev_audit_id = audit_id_from_request new_uuid req,
                      ev_stage = ''ResponseComplete'', ev_request_uri = request_uri (rq_url req),
                      ev_verb = verb info, ev_user = in_user input, ev_user_agent = user_agent req,
                      ev_source_ips = collect_source_ips req,
                      ev_response_status =
                        build_response_status unmarshal_status (in_response_status_code input) (in_response_body input),
                      ev_request_received = in_request_received_at input,
                      ev_stage_timestamp = in_response_completed_at input,
                      ev_object_ref = None, ev_request_object = None, ev_response_object = None,
                      ev_annotations = []\<rparr>;
             event = (if is_resource_request info
                      then event\<lparr>ev_object_ref := Some (build_object_reference info request_meta response_meta)\<rparr>
                      else event);
             (request_object, request_truncated) =
               build_unknown (in_request_body input) (in_request_body_bytes input) (in_request_body_truncated input);
             event = (if request_object \<noteq> None then event\<lparr>ev_request_object := request_object\<rparr> else event);
             (response_object, response_truncated) =
               build_unknown (in_response_body input) (in_response_body_bytes input) (in_response_body_truncated input);
             event = (if response_object \<noteq> None then event\<lparr>ev_response_object := response_object\<rparr> else event);
             annotations = [];
             annotations = (if request_truncated
               then AList.update (truncation_annotation_prefix @ ''request-truncated'') ''true'' annotations
               else annotations);
             annotations = (if response_truncated
               then AList.update (truncation_annotation_prefix @ ''response-truncated'') ''true'' annotations
               else annotations);
             event = (if 0 < length annotations then event\<lparr>ev_annotations := annotations\<rparr> else event)
         in Inr event)))"

definition wrap :: "'s audit_event \<Rightarrow> 's event_list" where
  "wrap event = \<lparr>el_api_version = ''audit.k8s.io/v1'', el_kind = ''EventList'', el_items = [event]\<rparr>"

section \<open>Source addresses\<close>

text \<open>The candidates in the order the code reads them, and the reference: first occurrences.\<close>

definition source_candidates :: "http_request \<Rightarrow> string list" where
  "source_candidates req =
     split_on CHR '','' (header_get (rq_header req) ''X-Forwarded-For'') @
     [header_get (rq_header req) ''X-Real-IP''] @ [peer_host (rq_remote_addr req)]"

definition first_occurrences :: "'a list \<Rightarrow> 'a list" where
  "first_occurrences xs = rev (remdups (rev xs))"

lemma first_occurrences_Nil [simp]: "first_occurrences [] = []"
  by (simp add: first_occurrences_def)

lemma first_occurrences_snoc:
  "first_occurrences (xs @ [x]) = (if x \<in> set xs then first_occurrences xs else first_occurrences xs @ [x])"
  by (simp add: first_occurrences_def)

lemma set_first_occurrences [simp]: "set (first_occurrences xs) = set xs"
  and distinct_first_occurrences [simp]: "distinct (first_occurrences xs)"
  by (simp_all add: first_occurrences_def)

definition source_words :: "string list \<Rightarrow> string list" where
  "source_words vs = filter (\<lambda>v. v \<noteq> '''') (map trim_space vs)"

lemma fold_append_ip:
  "fold append_ip vs ({}, []) = (set (source_words vs), first_occurrences (source_words vs))"
  by (induction vs rule: rev_induct)
    (auto simp: source_words_def append_ip_def Let_def first_occurrences_snoc)

lemma append_ip_trim [simp]: "append_ip (trim_space v) st = append_ip v st"
  by (simp add: append_ip_def)

lemma collect_source_ips_fold:
  "collect_source_ips req = snd (fold append_ip (source_candidates req) ({}, []))"
  by (auto simp: collect_source_ips_def source_candidates_def peer_host_def Let_def
      split: sum.splits)

text \<open>
  C25: the source addresses of an event are the trimmed, non-blank words of the comma-separated
  X-Forwarded-For, X-Real-IP and the peer's host, in that order, each kept at its first occurrence only.\<close>

theorem source_ips_are_first_occurrences:
  "collect_source_ips req = first_occurrences (source_words (source_candidates req)) \<and>
   distinct (collect_source_ips req) \<and>
   set (collect_source_ips req) = set (map trim_space (source_candidates req)) - {''''}"
  by (auto simp: collect_source_ips_fold fold_append_ip source_words_def)

section \<open>Object metadata and references\<close>

lemma first_non_empty_eq_Nil:
  "trim_space (first_non_empty vs) = '''' \<longleftrightarrow> (\<forall>v\<in>set vs. trim_space v = '''')"
  by (induction vs) auto

lemma namespace_value_id [simp]: "namespace_value ns = ns"
  by (simp add: namespace_value_def)

lemma first_non_empty_member: "first_non_empty vs = '''' \<or> first_non_empty vs \<in> set vs"
  by (induction vs) auto

definition meta_fields :: "string list" where
  "meta_fields = [''name'', ''namespace'', ''uid'', ''resourceVersion'']"

text \<open>
  The reference for \<open>decodeObjectMeta\<close>: the members of every top-level object whose key matches
  \<open>metadata\<close>, in document order; of them the strings whose key matches a field; the last one counts.
\<close>

definition meta_members :: "(string \<times> json) list \<Rightarrow> (string \<times> json) list" where
  "meta_members kvs =
     concat (map (\<lambda>(k, v). case v of J_Obj m \<Rightarrow> if match_field [''metadata''] k = None then [] else m | _ \<Rightarrow> []) kvs)"

definition field_values :: "string \<Rightarrow> (string \<times> json) list \<Rightarrow> string list" where
  "field_values f kvs =
     concat (map (\<lambda>(k, v). case v of J_Str s \<Rightarrow> if match_field meta_fields k = Some f then [s] else [] | _ \<Rightarrow> []) kvs)"

definition is_object_or_null :: "json \<Rightarrow> bool" where
  "is_object_or_null v = (case v of J_Obj _ \<Rightarrow> True | J_Null \<Rightarrow> True | _ \<Rightarrow> False)"

definition is_string_or_null :: "json \<Rightarrow> bool" where
  "is_string_or_null v = (case v of J_Str _ \<Rightarrow> True | J_Null \<Rightarrow> True | _ \<Rightarrow> False)"

definition well_typed_meta :: "(string \<times> json) list \<Rightarrow> bool" where
  "well_typed_meta kvs \<longleftrightarrow>
     list_all (\<lambda>(k, v). match_field [''metadata''] k = None \<or> is_object_or_null v) kvs \<and>
     list_all (\<lambda>(k, v). match_field meta_fields k = None \<or> is_string_or_null v) (meta_members kvs)"

definition meta_of_members :: "(string \<times> json) list \<Rightarrow> object_meta" where
  "meta_of_members ms =
     \<lparr>om_name = last ('''' # field_values ''name'' ms),
      om_namespace = last ('''' # field_values ''namespace'' ms),
      om_uid = last ('''' # field_values ''uid'' ms),
      om_resource_version = last ('''' # field_values ''resourceVersion'' ms)\<rparr>"

lemma match_field_Some: "match_field names k = Some f \<Longrightarrow> f \<in> set names"
  by (auto simp: match_field_def find_Some_iff split: if_splits)

lemma meta_members_Nil [simp]: "meta_members [] = []"
  and meta_members_append: "meta_members (xs @ ys) = meta_members xs @ meta_members ys"
  by (simp_all add: meta_members_def)

lemma field_values_Nil [simp]: "field_values f [] = []"
  and field_values_append: "field_values f (xs @ ys) = field_values f xs @ field_values f ys"
  by (simp_all add: field_values_def)

lemma field_values_single:
  "field_values f [(k, v)] =
     (case v of J_Str s \<Rightarrow> if match_field meta_fields k = Some f then [s] else [] | _ \<Rightarrow> [])"
  by (simp add: field_values_def)

lemma decode_meta_field_step:
  "decode_meta_field (k, v) (meta_of_members ms, failed) =
     (meta_of_members (ms @ [(k, v)]),
      failed \<or> \<not> (match_field meta_fields k = None \<or> is_string_or_null v))"
proof (cases "match_field meta_fields k")
  case None
  then show ?thesis
    by (simp add: decode_meta_field_def meta_fields_def [symmetric] meta_of_members_def
        field_values_append field_values_single split: json.splits)
next
  case (Some f)
  then have "f = ''name'' \<or> f = ''namespace'' \<or> f = ''uid'' \<or> f = ''resourceVersion''"
    using match_field_Some [OF Some] by (auto simp: meta_fields_def)
  with Some show ?thesis
    by (elim disjE; cases v)
      (simp_all add: decode_meta_field_def meta_fields_def [symmetric] meta_of_members_def
        field_values_append field_values_single is_string_or_null_def)
qed

lemma fold_decode_meta_field:
  "fold decode_meta_field kvs (meta_of_members ms, failed) =
     (meta_of_members (ms @ kvs),
      failed \<or> \<not> list_all (\<lambda>(k, v). match_field meta_fields k = None \<or> is_string_or_null v) kvs)"
proof (induction kvs arbitrary: ms failed)
  case (Cons kv kvs)
  obtain k v where kv: "kv = (k, v)" by (cases kv)
  show ?case
    using Cons.IH [of "ms @ [kv]"] by (auto simp: kv decode_meta_field_step)
qed simp

lemma decode_meta_step:
  "decode_meta v (meta_of_members ms, failed) =
     (meta_of_members (ms @ (case v of J_Obj m \<Rightarrow> m | _ \<Rightarrow> [])),
      failed \<or> \<not> is_object_or_null v \<or>
      \<not> list_all (\<lambda>(k, v). match_field meta_fields k = None \<or> is_string_or_null v)
           (case v of J_Obj m \<Rightarrow> m | _ \<Rightarrow> []))"
  by (cases v) (auto simp: is_object_or_null_def fold_decode_meta_field)

lemma decode_carrier_members:
  "decode_carrier (J_Obj kvs) (empty_meta, False) = (meta_of_members (meta_members kvs), \<not> well_typed_meta kvs)"
proof (induction kvs rule: rev_induct)
  case Nil
  show ?case by (simp add: well_typed_meta_def meta_of_members_def empty_meta_def)
next
  case (snoc kv kvs)
  obtain k v where kv: "kv = (k, v)" by (cases kv)
  have m: "meta_members [(k, v)] =
      (if match_field [''metadata''] k = None then [] else case v of J_Obj m \<Rightarrow> m | _ \<Rightarrow> [])"
    by (cases v) (simp_all add: meta_members_def)
  show ?case
    using snoc by (auto simp: kv decode_meta_step meta_members_append m well_typed_meta_def simp del: decode_meta.simps)
qed

text \<open>
  C24: the metadata an event is enriched with.  \<open>decodeObjectMeta\<close> returns the empty metadata unless the
  body is a JSON object in which every value at a key matching \<open>metadata\<close> is an object or null and every
  value at a matching field is a string or null; otherwise every field is the last string given for it.
\<close>

theorem decode_object_meta_spec:
  "decode_object_meta body =
     (case (if trim_space body = [] then None else parse_json body) of
        Some (J_Obj kvs) \<Rightarrow> if well_typed_meta kvs then meta_of_members (meta_members kvs) else empty_meta
      | _ \<Rightarrow> empty_meta)"
proof (cases "parse_json body")
  case (Some j)
  then show ?thesis
    using decode_carrier_members by (cases j) (auto simp: decode_object_meta_def simp del: decode_carrier.simps(1))
qed (simp add: decode_object_meta_def)

section \<open>The recorded bodies\<close>

lemma marshalled_placeholder:
  "parse_json (truncated_payload body n) =
     Some (J_Obj [(''capturedBytes'', J_Num (itoa (int (length body)))),
                  (''originalSizeBytes'', J_Num (itoa (sint n))), (''truncated'', J_Bool True)])"
proof -
  let ?kvs = "[(''truncated'', ''true''), (''originalSizeBytes'', itoa (sint n)),
               (''capturedBytes'', itoa (int (length body)))]"
  have o: "''capturedBytes'' < ''originalSizeBytes''" "''originalSizeBytes'' < ''truncated''"
    "''capturedBytes'' < ''truncated''"
    by code_simp+
  have "sort_key fst ?kvs = [(''capturedBytes'', itoa (int (length body))),
      (''originalSizeBytes'', itoa (sint n)), (''truncated'', ''true'')]"
    using o by (simp add: less_le_not_le)
  moreover have "list_all plain_char ''capturedBytes''" "list_all plain_char ''originalSizeBytes''"
    "list_all plain_char ''truncated''"
    by code_simp+
  moreover have "truncated_payload body n = marshal_object ?kvs"
    by (simp add: truncated_payload_def format_bool_def)
  ultimately show ?thesis
    by (simp only:) (rule parse_marshal_object; simp add: itoa_scalar true_scalar)
qed

text \<open>
  C23: what an event records of a body.  Nothing for a blank body.  For a truncated body a placeholder
  that parses back to exactly the marker, the original and the captured size.  Otherwise the body itself,
  and only if it is valid JSON; so whatever is recorded is valid JSON.
\<close>

theorem build_unknown_spec:
  "(case build_unknown body original_size trunc of
      (None, flag) \<Rightarrow> \<not> flag \<and> (trim_space body = [] \<or> \<not> trunc \<and> \<not> json_valid body)
    | (Some u, flag) \<Rightarrow>
        content_type u = ''application/json'' \<and> json_valid (raw u) \<and> flag = trunc \<and>
        (if trunc then
           parse_json (raw u) =
             Some (J_Obj [(''capturedBytes'', J_Num (itoa (int (length body)))),
                          (''originalSizeBytes'', J_Num (itoa (sint original_size))),
                          (''truncated'', J_Bool True)])
         else raw u = body))"
  by (simp add: build_unknown_def marshalled_placeholder json_valid_def)

section \<open>The response status\<close>

text \<open>
  C27: the response status of an event.  A body that decodes to a Status, whatever the case of its Kind,
  keeps every field, its own nonzero code included, and gets \<open>v1\<close> and the HTTP code where it has none
  (the branch that would fill in a blank Kind is never taken); every other body gives the bare HTTP code,
  wrapped to 32 bits.
\<close>

theorem build_response_status_spec:
  "build_response_status unmarshal_status code body =
     (case Option.bind (if trim_space body = [] then None else unmarshal_status body)
             (\<lambda>st. if equal_fold (st_kind st) ''Status'' then Some st else None) of
        None \<Rightarrow> \<lparr>st_kind = '''', st_api_version = '''', st_code = word_of_int code, st_rest = None\<rparr>
      | Some st \<Rightarrow> \<lparr>st_kind = st_kind st,
                    st_api_version = (if st_api_version st = '''' then ''v1'' else st_api_version st),
                    st_code = (if st_code st = 0 then word_of_int code else st_code st),
                    st_rest = st_rest st\<rparr>)"
proof -
  have "st_kind st \<noteq> []" if "equal_fold (st_kind st) ''Status''" for st :: "'a status"
    using that by (auto simp: equal_fold_def)
  then show ?thesis
    by (auto simp: build_response_status_def Let_def split: option.splits)
qed

section \<open>The event as a whole\<close>

lemma annotation_keys_differ:
  "truncation_annotation_prefix @ ''request-truncated'' \<noteq> truncation_annotation_prefix @ ''response-truncated''"
  by simp

lemma truncated_flag: "snd (build_unknown body n trunc) \<longleftrightarrow> trunc \<and> trim_space body \<noteq> []"
  by (simp add: build_unknown_def)

lemma build_parts:
  assumes "in_request input = Some req" "in_request_info input = Some info"
  obtains ev where "build us new_uuid b input = Inr ev"
    "ev_level ev = ''RequestResponse''" "ev_stage ev = ''ResponseComplete''"
    "ev_audit_id ev = audit_id_from_request new_uuid req"
    "ev_verb ev = verb info" "ev_user ev = in_user input" "ev_request_uri ev = request_uri (rq_url req)"
    "ev_request_received ev = in_request_received_at input"
    "ev_stage_timestamp ev = in_response_completed_at input"
    "ev_source_ips ev = collect_source_ips req"
    "ev_response_status ev = build_response_status us (in_response_status_code input) (in_response_body input)"
    "ev_object_ref ev = (if is_resource_request info
       then Some (build_object_reference info (decode_object_meta (in_request_body input))
                    (decode_object_meta (in_response_body input))) else None)"
    "ev_request_object ev = fst (build_unknown (in_request_body input) (in_request_body_bytes input)
       (in_request_body_truncated input))"
    "ev_response_object ev = fst (build_unknown (in_response_body input) (in_response_body_bytes input)
       (in_response_body_truncated input))"
    "map_of (ev_annotations ev) =
       map_of ((if in_request_body_truncated input \<and> trim_space (in_request_body input) \<noteq> []
          then [(truncation_annotation_prefix @ ''request-truncated'', ''true'')] else []) @
        (if in_response_body_truncated input \<and> trim_space (in_response_body input) \<noteq> []
          then [(truncation_annotation_prefix @ ''response-truncated'', ''true'')] else []))"
proof -
  obtain ro rt where r: "build_unknown (in_request_body input) (in_request_body_bytes input)
      (in_request_body_truncated input) = (ro, rt)" by fastforce
  obtain po pt where p: "build_unknown (in_response_body input) (in_response_body_bytes input)
      (in_response_body_truncated input) = (po, pt)" by fastforce
  have f: "(in_request_body_truncated input \<and> trim_space (in_request_body input) \<noteq> []) = rt"
    "(in_response_body_truncated input \<and> trim_space (in_response_body input) \<noteq> []) = pt"
    using truncated_flag r p by (metis snd_conv)+
  show ?thesis
    by (rule that [of "projr (build us new_uuid b input)"])
      (unfold f, simp_all add: build_def assms r p Let_def)
qed

text \<open>
  C22: \<open>Build\<close> fails only for a missing request or a missing request info, in this order.  Every other input
  gives one ResponseComplete event at level RequestResponse with an object reference exactly for resource
  requests, and its annotations are exactly the truncation marks, \<open>true\<close> for a body that was truncated and
  of which something other than white space was captured.
\<close>

theorem build_event_spec:
  "(case build us new_uuid b input of
      Inl Request_Required \<Rightarrow> in_request input = None
    | Inl Request_Info_Required \<Rightarrow> in_request input \<noteq> None \<and> in_request_info input = None
    | Inr ev \<Rightarrow>
        in_request input \<noteq> None \<and> in_request_info input \<noteq> None \<and>
        ev_level ev = ''RequestResponse'' \<and> ev_stage ev = ''ResponseComplete'' \<and>
        (ev_object_ref ev \<noteq> None) = is_resource_request (the (in_request_info input)) \<and>
        (\<forall>k. map_of (ev_annotations ev) k =
           (if k = truncation_annotation_prefix @ ''request-truncated'' \<and>
                 in_request_body_truncated input \<and> trim_space (in_request_body input) \<noteq> [] \<or>
               k = truncation_annotation_prefix @ ''response-truncated'' \<and>
                 in_response_body_truncated input \<and> trim_space (in_response_body input) \<noteq> []
            then Some ''true'' else None)))"
proof (cases "in_request input")
  case (Some req)
  show ?thesis
  proof (cases "in_request_info input")
    case info: (Some info)
    show ?thesis
      by (rule build_parts [OF Some info, of us new_uuid b]) (auto simp: Some info)
  qed (simp add: build_def Some)
qed (simp add: build_def)

lemma object_reference_fields:
  "ref_api_group (build_object_reference info q p) = api_group info"
  "ref_api_version (build_object_reference info q p) = api_version info"
  "ref_resource (build_object_reference info q p) = resource info"
  "ref_subresource (build_object_reference info q p) = subresource info"
  "ref_name (build_object_reference info q p) = first_non_empty [info_name info, om_name q, om_name p]"
  "ref_namespace (build_object_reference info q p) =
     first_non_empty [info_namespace info, om_namespace q, om_namespace p]"
  "ref_uid (build_object_reference info q p) = first_non_empty [om_uid p, om_uid q]"
  "ref_resource_version (build_object_reference info q p) =
     first_non_empty [om_resource_version p, om_resource_version q]"
  by (simp_all only: build_object_reference_def Let_def split: if_split) auto

text \<open>
  C26: the object reference of an event.  Name and namespace come from the URL when it gives a non-blank
  one, else from the request body, else from the response body; UID and resource version come from the
  response body, else from the request body.  A source counts as blank when it is empty but for white
  space, and a source that is taken is taken as it stands.
\<close>

theorem object_reference_spec:
  "(case build_object_reference info request_meta response_meta of ref \<Rightarrow>
      (ref_api_group ref, ref_api_version ref, ref_resource ref, ref_subresource ref) =
        (api_group info, api_version info, resource info, subresource info) \<and>
      ref_name ref =
        (if trim_space (info_name info) \<noteq> '''' then info_name info
         else if trim_space (om_name request_meta) \<noteq> '''' then om_name request_meta
         else if trim_space (om_name response_meta) \<noteq> '''' then om_name response_meta else '''') \<and>
      ref_namespace ref =
        (if trim_space (info_namespace info) \<noteq> '''' then info_namespace info
         else if trim_space (om_namespace request_meta) \<noteq> '''' then om_namespace request_meta
         else if trim_space (om_namespace response_meta) \<noteq> '''' then om_namespace response_meta else '''') \<and>
      ref_uid ref =
        (if trim_space (om_uid response_meta) \<noteq> '''' then om_uid response_meta
         else if trim_space (om_uid request_meta) \<noteq> '''' then om_uid request_meta else '''') \<and>
      ref_resource_version ref =
        (if trim_space (om_resource_version response_meta) \<noteq> '''' then om_resource_version response_meta
         else if trim_space (om_resource_version request_meta) \<noteq> '''' then om_resource_version request_meta else ''''))"
  by (simp add: object_reference_fields)

text \<open>
  The limit of a builder has no effect on the events it builds: \<open>Build\<close> embeds an untruncated body
  of any size in full, the limit being applied only where the bodies are captured.
\<close>

lemma build_ignores_limit:
  "build us new_uuid (new_builder m) input = build us new_uuid (new_builder n) input"
  by (simp add: build_def)

end
