(* ===== verification/Webhook_Client.thy ===== *)
theory Webhook_Client
  imports Audit_Builder Body_Reader
begin

text \<open>
  \<open>pkg/webhook/client.go\<close>: the \<open>Sender\<close> interface as a locale, and the kubeconfig-backed client that
  provides it.  The Kubernetes client libraries that read the kubeconfig, \<open>json.Marshal\<close> of the third-party
  event types, the re-parsing of the endpoint and the network are fields of \<open>webhook_lib\<close>.
\<close>

section \<open>The interface\<close>

text \<open>
  What the handler relies on: a send without error has posted exactly one payload, that of the event
  list; a failed one has posted it or nothing.
\<close>

locale event_sender =
  fixes send :: "'l \<Rightarrow> 'w \<Rightarrow> 'err option \<times> 'w"
    and posts :: "'w \<Rightarrow> 'p list"
    and payload :: "'l \<Rightarrow> 'p"
  assumes send_ok: "send el w = (None, w') \<Longrightarrow> posts w' = posts w @ [payload el]"
    and send_failed: "send el w = (Some e, w') \<Longrightarrow> posts w' = posts w \<or> posts w' = posts w @ [payload el]"
begin

lemma posts_grow: "send el w = (r, w') \<Longrightarrow> \<exists>ps. posts w' = posts w @ ps \<and> length ps \<le> 1"
  by (cases r) (auto dest: send_ok send_failed)

lemma posts_after:
  "length (posts (snd (send el w))) \<le> Suc (length (posts w))"
  "fst (send el w) = None \<Longrightarrow> length (posts (snd (send el w))) = Suc (length (posts w))"
  using posts_grow [of el w "fst (send el w)" "snd (send el w)"] send_ok [of el w "snd (send el w)"]
  by (auto simp: prod_eq_iff)

end

section \<open>The client\<close>

definition max_error_response_body :: nat where
  "max_error_response_body = 4096"

record webhook_client =
  endpoint :: url
  client_timeout :: int

record webhook_request =
  wq_method :: string
  wq_url :: url
  wq_header :: header
  wq_body :: bytes

record webhook_response =
  wr_status_code :: int
  wr_status :: string
  wr_body :: body_script

record 'n webhook_world =
  wh_net :: 'n
  wh_posts :: "webhook_request list"
  wh_open_bodies :: int

record ('k, 's, 'n, 'e) webhook_lib =
  build_config_from_flags :: "string \<Rightarrow> 'e + 'k"
  transport_for :: "'k \<Rightarrow> 'e option"
  config_host :: "'k \<Rightarrow> string"
  parse_url :: "string \<Rightarrow> 'e + url"
  reparse :: "url \<Rightarrow> 'e + url"
  marshal_events :: "'s event_list \<Rightarrow> 'e + bytes"
  do_request :: "webhook_request \<Rightarrow> 'n \<Rightarrow> ('e + webhook_response) \<times> 'n"

datatype 'e webhook_error =
    Build_Rest_Config 'e
  | Build_Transport 'e
  | Parse_Webhook_Host 'e
  | Marshal_Event_List 'e
  | Build_Request 'e
  | Post_Payload 'e
  | Webhook_Responded string bytes

definition new_client_from_kubeconfig ::
  "('k, 's, 'n, 'e) webhook_lib \<Rightarrow> string \<Rightarrow> int \<Rightarrow> 'e webhook_error + webhook_client" where
  "new_client_from_kubeconfig lib p timeout =
     (case build_config_from_flags lib p of
        Inl e \<Rightarrow> Inl (Build_Rest_Config e)
      | Inr rest_config \<Rightarrow>
          (case transport_for lib rest_config of
             Some e \<Rightarrow> Inl (Build_Transport e)
           | None \<Rightarrow>
               (case parse_url lib (config_host lib rest_config) of
                  Inl e \<Rightarrow> Inl (Parse_Webhook_Host e)
                | Inr u \<Rightarrow> Inr \<lparr>endpoint = u, client_timeout = timeout\<rparr>)))"

definition client_endpoint :: "webhook_client option \<Rightarrow> url option" where
  "client_endpoint c = (case c of None \<Rightarrow> None | Some c \<Rightarrow> Some (endpoint c))"

text \<open>
  \<open>Send\<close>.  The response body is closed on every way out after \<open>Do\<close>; the read error of the message text
  is ignored, so what counts is the content before it, cut at the limit.
\<close>

definition client_send ::
  "('k, 's, 'n, 'e) webhook_lib \<Rightarrow> webhook_client \<Rightarrow> 's event_list \<Rightarrow> 'n webhook_world \<Rightarrow>
     'e webhook_error option \<times> 'n webhook_world" where
  "client_send lib c event_list w =
     (case marshal_events lib event_list of
        Inl e \<Rightarrow> (Some (Marshal_Event_List e), w)
      | Inr body \<Rightarrow>
     (case reparse lib (endpoint c) of
        Inl e \<Rightarrow> (Some (Build_Request e), w)
      | Inr u \<Rightarrow>
        (let req = \<lparr>wq_method = ''POST'', wq_url = u, wq_header = header_set [] ''Content-Type'' ''application/json'',
                    wq_body = body\<rparr>
         in case do_request lib req (wh_net w) of
              (Inl e, n) \<Rightarrow> (Some (Post_Payload e), w\<lparr>wh_net := n, wh_posts := wh_posts w @ [req]\<rparr>)
            | (Inr resp, n) \<Rightarrow>
                (let w = w\<lparr>wh_net := n, wh_posts := wh_posts w @ [req], wh_open_bodies := wh_open_bodies w + 1\<rparr>;
                     close = (\<lambda>w. w\<lparr>wh_open_bodies := wh_open_bodies w - 1\<rparr>)
                 in if 200 \<le> wr_status_code resp \<and> wr_status_code resp < 300 then (None, close w)
                    else
                      let response_body = take max_error_response_body (script_content (wr_body resp))
                      in (Some (Webhook_Responded (wr_status resp) response_body), close w)))))"

definition event_payload :: "('k, 's, 'n, 'e) webhook_lib \<Rightarrow> 's event_list \<Rightarrow> bytes" where
  "event_payload lib el = (case marshal_events lib el of Inl _ \<Rightarrow> '''' | Inr b \<Rightarrow> b)"

lemma client_send_contract:
  "event_sender (client_send lib c) (\<lambda>w. map wq_body (wh_posts w)) (event_payload lib)"
  by unfold_locales
    (auto simp: client_send_def event_payload_def Let_def split: sum.splits prod.splits if_splits)

interpretation client: event_sender "client_send lib c" "\<lambda>w. map wq_body (wh_posts w)" "event_payload lib"
  by (rule client_send_contract)

text \<open>
  C37: one \<open>Send\<close> makes at most one POST of the marshalled list as JSON and leaves no response body open.
  It reports success exactly when that POST was answered with a 2xx status, and the error message of any
  other answer quotes at most 4096 bytes of it.
\<close>

theorem client_send_spec:
  "(case client_send lib c el w of
      (r, w') \<Rightarrow>
        wh_open_bodies w' = wh_open_bodies w \<and>
        (case (marshal_events lib el, reparse lib (endpoint c)) of
           (Inr body, Inr u) \<Rightarrow>
             (let req = \<lparr>wq_method = ''POST'', wq_url = u, wq_header = [(''Content-Type'', [''application/json''])],
                         wq_body = body\<rparr>
              in wh_posts w' = wh_posts w @ [req] \<and>
                 (r = None) = (case fst (do_request lib req (wh_net w)) of
                    Inl _ \<Rightarrow> False | Inr resp \<Rightarrow> wr_status_code resp \<in> {200..<300}))
         | _ \<Rightarrow> r \<noteq> None \<and> w' = w) \<and>
        (case r of Some (Webhook_Responded _ text) \<Rightarrow> length text \<le> max_error_response_body | _ \<Rightarrow> True))"
proof -
  have h: "header_set [] ''Content-Type'' ''application/json'' = [(''Content-Type'', [''application/json''])]"
    by code_simp
  show ?thesis
    by (auto simp: client_send_def h Let_def split: sum.splits prod.splits if_splits)
qed

end
