(* ===== verification/Proxy_Handler.thy ===== *)
theory Proxy_Handler
  imports Upstream_Request Response_Observer Identity_Extractor Webhook_Client
begin

text \<open>
  The handler of \<open>pkg/proxy/handler.go\<close>: \<open>NewHandler\<close>, \<open>ServeHTTP\<close> with its audited and passthrough
  paths, and the audit job that \<open>serveAudited\<close> starts.  A request runs against the state of the process
  (\<open>process\<close>) and its own exchange (\<open>exchange\<close>).  The surroundings (clock, operating system, the client
  connection, the request-info resolver, the UUID source) are the record \<open>handler_env\<close>; the transport is
  a field of the handler, as in the code.  Deferred calls run where the Go function returns.
\<close>

section \<open>State\<close>

datatype log_level = Log_Info | Log_Warn | Log_Error

record milestones =
  first_request :: bool
  first_verified_request :: bool
  first_backend_ok :: bool
  first_webhook_ok :: bool

text \<open>
  The transport gets a request and its body, and tells what happens in the round trip and how it ends: the
  calls it makes on the body, and the informational responses that the backend sends before its answer.
  \<open>net/http\<close> reports the latter to the \<open>Got1xxResponse\<close> hook of a trace in the request's context, and takes a 101
  for the answer itself.
\<close>

datatype trip_event = On_Body body_call | Got_1xx int header

type_synonym 'x transport = "http_request \<Rightarrow> body_script \<Rightarrow> trip_event list \<times> ('x + body_script http_response)"

definition body_calls :: "trip_event list \<Rightarrow> body_call list" where
  "body_calls events = concat (map (\<lambda>e. case e of On_Body c \<Rightarrow> [c] | Got_1xx _ _ \<Rightarrow> []) events)"

definition interim_responses :: "trip_event list \<Rightarrow> (int \<times> header) list" where
  "interim_responses events =
     concat (map (\<lambda>e. case e of On_Body _ \<Rightarrow> []
                       | Got_1xx code h \<Rightarrow> if informational code then [(code, h)] else []) events)"

record ('x, 'e) handler =
  h_backend_url :: url
  h_identity :: "'e extractor"
  h_transport :: "'x transport"
  h_backend_identity :: backend_identity
  h_builder :: builder
  h_temp_dir :: string
  h_capture_max :: int64

record 'x handler_env =
  env_os :: os_env
  env_clock :: "nat \<Rightarrow> instant"
  env_accepts :: "nat \<Rightarrow> nat"
  env_hijackable :: bool
  env_resolve :: "http_request \<Rightarrow> 'x + request_info option"
  env_new_uuid :: "nat \<Rightarrow> string"

text \<open>What \<open>buildAndSendAuditEvent\<close> is started with.\<close>

record audit_job =
  job_request :: http_request
  job_info :: request_info
  job_user :: user_info
  job_request_body :: spooled_body
  job_response_body :: spooled_body
  job_status_code :: int
  job_received_at :: instant

text \<open>\<open>p_upstream\<close> is the list of the requests handed to the transport, each with the bytes its body has to offer.\<close>

record 'w process =
  p_os :: os_state
  p_metrics :: metric_log
  p_lines :: "(log_level \<times> string) list"
  p_once :: milestones
  p_ticks :: nat
  p_jobs :: "audit_job list"
  p_upstream :: "(http_request \<times> bytes) list"
  p_net :: 'w

record 'w exchange =
  ex_proc :: "'w process"
  ex_writer :: metric_writer
  ex_state :: request_metric_state
  ex_hijacked :: "header option"

text \<open>How the handler is left: by returning, or by a panic that the HTTP server turns into an abort.\<close>

datatype served = Returned | Aborted

section \<open>Small steps\<close>

definition say :: "log_level \<Rightarrow> string \<Rightarrow> 'w process \<Rightarrow> 'w process" where
  "say lvl msg p = p\<lparr>p_lines := p_lines p @ [(lvl, msg)]\<rparr>"

definition with_metrics :: "(metric_log \<Rightarrow> metric_log) \<Rightarrow> 'w process \<Rightarrow> 'w process" where
  "with_metrics f p = p\<lparr>p_metrics := f (p_metrics p)\<rparr>"

definition time_now :: "'x handler_env \<Rightarrow> 'w process \<Rightarrow> instant \<times> 'w process" where
  "time_now env p = (env_clock env (p_ticks p), p\<lparr>p_ticks := Suc (p_ticks p)\<rparr>)"

definition on_proc :: "('w process \<Rightarrow> 'w process) \<Rightarrow> 'w exchange \<Rightarrow> 'w exchange" where
  "on_proc f x = x\<lparr>ex_proc := f (ex_proc x)\<rparr>"

text \<open>\<open>sync.Once.Do\<close> of a milestone that logs one line.\<close>

definition once ::
  "(milestones \<Rightarrow> bool) \<Rightarrow> (milestones \<Rightarrow> milestones) \<Rightarrow> string \<Rightarrow> 'w process \<Rightarrow> 'w process" where
  "once flag set_flag msg p =
     (if flag (p_once p) then p else say Log_Info msg (p\<lparr>p_once := set_flag (p_once p)\<rparr>))"

definition em_dash :: string where
  "em_dash = [CHR 0xE2, CHR 0x80, CHR 0x94]"

definition notify_first_backend_ok :: "'w process \<Rightarrow> 'w process" where
  "notify_first_backend_ok =
     once first_backend_ok (first_backend_ok_update (\<lambda>_. True))
       (''first successful backend response '' @ em_dash @ '' connection to aggregated backend is established'')"

definition http_error_reply :: "'x handler_env \<Rightarrow> string \<Rightarrow> int \<Rightarrow> 'w exchange \<Rightarrow> 'w exchange" where
  "http_error_reply env msg code x =
     (case http_error (env_accepts env) (ex_state x) msg code (ex_writer x, p_metrics (ex_proc x)) of
        (w, log) \<Rightarrow> x\<lparr>ex_writer := w, ex_proc := (ex_proc x)\<lparr>p_metrics := log\<rparr>\<rparr>)"

text \<open>A failure that is logged and answered with an error status.\<close>

definition fail_with :: "'x handler_env \<Rightarrow> string \<Rightarrow> string \<Rightarrow> int \<Rightarrow> 'w exchange \<Rightarrow> 'w exchange" where
  "fail_with env line msg code x = http_error_reply env msg code (on_proc (say Log_Error line) x)"

definition record_backend :: "'x handler_env \<Rightarrow> string \<Rightarrow> 'w exchange \<Rightarrow> 'w exchange" where
  "record_backend env outcome x =
     (case time_now env (ex_proc x) of
        (now, p) \<Rightarrow>
          (case record_round_trip now outcome (ex_state x, p_metrics p) of
             (s, log) \<Rightarrow> x\<lparr>ex_state := s, ex_proc := p\<lparr>p_metrics := log\<rparr>\<rparr>))"

text \<open>The reads that a consumer made of the observed request body, counted on a leg.\<close>

definition count_reads :: "string \<Rightarrow> bool \<Rightarrow> string \<Rightarrow> nat list \<Rightarrow> 'w exchange \<Rightarrow> 'w exchange" where
  "count_reads leg streaming direction sizes =
     on_proc (with_metrics (observe_transport_bytes leg streaming direction sizes))"

text \<open>\<open>trace\<close> is the \<open>Got1xxResponse\<close> hook in the request's context; \<open>no_trace\<close> when there is none.\<close>

definition no_trace :: "int \<times> header \<Rightarrow> 'w exchange \<Rightarrow> 'w exchange" where
  "no_trace interim x = x"

definition round_trip ::
  "('x, 'e) handler \<Rightarrow> (int \<times> header \<Rightarrow> 'w exchange \<Rightarrow> 'w exchange) \<Rightarrow> http_request \<Rightarrow> body_script observed \<Rightarrow>
     'w exchange \<Rightarrow> body_script observed \<times> ('x + body_script http_response) \<times> 'w exchange" where
  "round_trip h trace req body x =
     (case h_transport h req (inner body) of
        (events, result) \<Rightarrow>
          (fold (run_call script_read script_close) (body_calls events) body, result,
           fold trace (interim_responses events)
             (on_proc (\<lambda>p. p\<lparr>p_upstream := p_upstream p @ [(req, script_content (inner body))]\<rparr>) x)))"

definition should_audit :: "request_info option \<Rightarrow> bool" where
  "should_audit info =
     (case info of
        None \<Rightarrow> False
      | Some info \<Rightarrow>
          is_resource_request info \<and>
          verb info \<in> {''create'', ''update'', ''patch'', ''delete'', ''deletecollection''})"

section \<open>NewHandler\<close>

record ('x, 'e, 'snd) handler_config =
  cfg_backend_url :: "url option"
  cfg_webhook_client :: "'snd option"
  cfg_identity_extractor :: "'e extractor option"
  cfg_transport :: "'x transport option"
  cfg_backend_identity :: "backend_identity option"
  cfg_max_audit_body_bytes :: int64
  cfg_temp_dir :: string

datatype 'e handler_error =
    Backend_URL_Required
  | Webhook_Client_Required
  | Build_Identity_Extractor "'e extractor_error"

text \<open>\<open>default_transport\<close> is \<open>http.DefaultTransport\<close>.  The logger's default does not affect behaviour.\<close>

definition new_handler ::
  "('v, 'e) auth_lib \<Rightarrow> 'x transport \<Rightarrow> ('x, 'e, 'snd) handler_config \<Rightarrow>
     'e handler_error + ('x, 'e) handler \<times> 'snd" where
  "new_handler lib default_transport cfg =
     (case cfg_backend_url cfg of
        None \<Rightarrow> Inl Backend_URL_Required
      | Some backend_url \<Rightarrow>
     (case cfg_webhook_client cfg of
        None \<Rightarrow> Inl Webhook_Client_Required
      | Some webhook \<Rightarrow>
        (let transport = (case cfg_transport cfg of None \<Rightarrow> default_transport | Some t \<Rightarrow> t)
         in case (case cfg_identity_extractor cfg of
                    None \<Rightarrow> new_extractor lib '''' []
                  | Some e \<Rightarrow> Inr e) of
              Inl e \<Rightarrow> Inl (Build_Identity_Extractor e)
            | Inr extractor \<Rightarrow>
                (let identity = (case cfg_backend_identity cfg of None \<Rightarrow> Request_Header_Forwarder | Some b \<Rightarrow> b)
                 in Inr (\<lparr>h_backend_url = backend_url, h_identity = extractor, h_transport = transport,
                          h_backend_identity = identity, h_builder = new_builder (cfg_max_audit_body_bytes cfg),
                          h_temp_dir = cfg_temp_dir cfg, h_capture_max = cfg_max_audit_body_bytes cfg\<rparr>, webhook)))))"

section \<open>The passthrough path\<close>

text \<open>The \<open>ErrorHandler\<close> given to the reverse proxy.\<close>

definition passthrough_error :: "'x handler_env \<Rightarrow> 'w exchange \<Rightarrow> 'w exchange" where
  "passthrough_error env x =
     fail_with env ''passthrough proxy request failed'' ''Bad Gateway'' 502 (record_backend env outcome_error x)"

text \<open>
  A 101 response: the protocols must agree, the body must still be writable and the client connection
  must give itself up; then the response header goes out on the connection and the two are joined.
\<close>

definition handle_upgrade_response ::
  "'x handler_env \<Rightarrow> http_request \<Rightarrow> resp_body http_response \<Rightarrow> 'w exchange \<Rightarrow> 'w exchange" where
  "handle_upgrade_response env out resp x =
     (let req_up = upgrade_type (rq_header out); res_up = upgrade_type (rs_header resp)
      in if \<not> ascii_print res_up then passthrough_error env x
         else if to_lower req_up \<noteq> to_lower res_up then passthrough_error env x
         else if \<not> resp_writable (rs_body resp) then passthrough_error env x
         else if \<not> env_hijackable env then passthrough_error env x
         else x\<lparr>ex_hijacked := Some (copy_headers (cw_header (mw_writer (ex_writer x))) (rs_header resp))\<rparr>)"

definition set_writer_header :: "header \<Rightarrow> 'w exchange \<Rightarrow> 'w exchange" where
  "set_writer_header h x =
     x\<lparr>ex_writer := (ex_writer x)\<lparr>mw_writer := (mw_writer (ex_writer x))\<lparr>cw_header := h\<rparr>\<rparr>\<rparr>"

definition reply_header :: "int \<Rightarrow> header \<Rightarrow> 'w exchange \<Rightarrow> 'w exchange" where
  "reply_header code h x =
     (let x = set_writer_header (copy_headers (cw_header (mw_writer (ex_writer x))) h) x
      in x\<lparr>ex_writer := write_header code (ex_writer x)\<rparr>)"

text \<open>
  The hook that the reverse proxy puts into the context of the outbound request: an informational response is
  forwarded to the client at once, through the metric writer, and its headers are cleared again.
\<close>

definition forward_1xx :: "int \<times> header \<Rightarrow> 'w exchange \<Rightarrow> 'w exchange" where
  "forward_1xx interim x = set_writer_header [] (reply_header (fst interim) (snd interim) x)"

text \<open>\<open>ModifyResponse\<close>: the milestone, then the observation.\<close>

definition modify_response ::
  "'x handler_env \<Rightarrow> resp_body http_response \<Rightarrow> 'w exchange \<Rightarrow>
     resp_body http_response \<times> stream_done option \<times> 'w exchange" where
  "modify_response env resp x =
     (let x = on_proc notify_first_backend_ok x
      in case time_now env (ex_proc x) of
           (now, p) \<Rightarrow>
             (case observe_passthrough_response now resp (Some (ex_state x)) (p_metrics p) of
                (resp, state, log, sd) \<Rightarrow>
                  (resp, sd, x\<lparr>ex_state := (case state of None \<Rightarrow> ex_state x | Some s \<Rightarrow> s),
                               ex_proc := p\<lparr>p_metrics := log\<rparr>\<rparr>)))"

text \<open>Copying the response and closing its body; a failed copy aborts the exchange.\<close>

definition passthrough_copy ::
  "'x handler_env \<Rightarrow> stream_done option \<Rightarrow> resp_body \<Rightarrow> 'w exchange \<Rightarrow> (served \<times> 'w exchange) option" where
  "passthrough_copy env sd body x =
     (case copy_loop resp_read (env_accepts env) (ex_state x) body (ex_writer x, p_metrics (ex_proc x)) of
        None \<Rightarrow> None
      | Some (res, body, w, log) \<Rightarrow>
          (case time_now env (ex_proc x) of
             (now, p) \<Rightarrow>
               Some (if res = Copied then Returned else Aborted,
                     x\<lparr>ex_writer := w,
                       ex_proc := p\<lparr>p_metrics :=
                         settle_body now (rm_streaming (ex_state x)) sd (resp_close body) log\<rparr>\<rparr>)))"

definition serve_passthrough ::
  "('x, 'e) handler \<Rightarrow> 'x handler_env \<Rightarrow> http_request \<Rightarrow> user_info option \<Rightarrow> body_script observed \<Rightarrow> 'w exchange \<Rightarrow>
     (served \<times> 'w exchange) option" where
  "serve_passthrough h env r ctx_user body x =
     (case passthrough_request (h_backend_url h) (h_backend_identity h) ctx_user r of
        None \<Rightarrow> Some (Returned, passthrough_error env x)
      | Some out \<Rightarrow>
          (let body = (if rq_content_length r = 0 then body\<lparr>inner := []\<rparr> else body);
               streaming = rm_streaming (ex_state x)
           in case round_trip h forward_1xx out body x of
                (body, result, x) \<Rightarrow>
                  (let x = count_reads leg_client streaming direction_read (observed_sizes body) x
                   in case result of
                        Inl e \<Rightarrow> Some (Returned, passthrough_error env x)
                      | Inr resp \<Rightarrow>
                          (let resp = \<lparr>rs_status_code = rs_status_code resp, rs_proto = rs_proto resp,
                                       rs_header = (if rs_status_code resp = 101 then rs_header resp
                                                    else remove_hop_by_hop_headers (rs_header resp)),
                                       rs_body = Raw_Body (rs_body resp)\<rparr>
                           in case modify_response env resp x of
                                (resp, sd, x) \<Rightarrow>
                                  if rs_status_code resp = 101
                                  then Some (Returned, handle_upgrade_response env out resp x)
                                  else passthrough_copy env sd (rs_body resp)
                                         (reply_header (rs_status_code resp) (rs_header resp) x)))))"

section \<open>The audited path\<close>

definition cleanup_body :: "'x handler_env \<Rightarrow> string \<Rightarrow> spooled_body \<Rightarrow> 'w exchange \<Rightarrow> 'w exchange" where
  "cleanup_body env line b x =
     (case spooled_cleanup (env_os env) (Some b) (p_os (ex_proc x)) of
        (result, s) \<Rightarrow>
          on_proc (\<lambda>p. (case result of Inl _ \<Rightarrow> say Log_Error line | Inr _ \<Rightarrow> id) (p\<lparr>p_os := s\<rparr>)) x)"

text \<open>
  After the response body has been spooled: reopen it, send it, start the audit job; a copy that fails, on
  either side, is only logged.  The deferred cleanup of the response file is the last step.
\<close>

definition finish_audited ::
  "('x, 'e) handler \<Rightarrow> 'x handler_env \<Rightarrow> audit_job \<Rightarrow> header \<Rightarrow> 'w exchange \<Rightarrow> (served \<times> 'w exchange) option" where
  "finish_audited h env job response_header x =
     (let response_body = job_response_body job;
          cleanup = cleanup_body env ''unable to remove response temp file'' response_body
      in case spooled_open (env_os env) response_body (p_os (ex_proc x)) of
           (Inl e, s) \<Rightarrow>
             Some (Returned, cleanup (fail_with env ''unable to reopen response body'' ''Bad Gateway'' 502
                                        (on_proc (\<lambda>p. p\<lparr>p_os := s\<rparr>) x)))
         | (Inr content, s) \<Rightarrow>
             (let x = reply_header (job_status_code job) (strip_hop_by_hop_headers response_header)
                        (on_proc (\<lambda>p. p\<lparr>p_os := s\<rparr>) x)
              in case copy_loop script_read (env_accepts env) (ex_state x) (reopened (env_os env) s content)
                        (ex_writer x, p_metrics (ex_proc x)) of
                   None \<Rightarrow> None
                 | Some (res, _, w, log) \<Rightarrow>
                     (let x = x\<lparr>ex_writer := w, ex_proc := (ex_proc x)\<lparr>p_metrics := log\<rparr>\<rparr>;
                          x = (if res = Copied then x
                               else on_proc (say Log_Error ''unable to write proxied response'') x);
                          x = on_proc (\<lambda>p. p\<lparr>p_jobs := p_jobs p @ [job]\<rparr>) x
                      in Some (Returned, cleanup x))))"

text \<open>Once the backend has answered: observe and spool the response.\<close>

definition spool_response ::
  "('x, 'e) handler \<Rightarrow> 'x handler_env \<Rightarrow> http_request \<Rightarrow> request_info \<Rightarrow> user_info \<Rightarrow> spooled_body \<Rightarrow> instant \<Rightarrow>
     body_script http_response \<Rightarrow> 'w exchange \<Rightarrow> (served \<times> 'w exchange) option" where
  "spool_response h env r info user request_body received_at resp x =
     (let x = on_proc notify_first_backend_ok x
      in case time_now env (ex_proc x) of
           (now, p) \<Rightarrow>
     (case observe_audited_backend_response now resp (Some (ex_state x)) (p_metrics p) of
        (body, state, log) \<Rightarrow>
          (let x = x\<lparr>ex_state := (case state of None \<Rightarrow> ex_state x | Some s \<Rightarrow> s), ex_proc := p\<lparr>p_metrics := log\<rparr>\<rparr>
           in case spool_body (observed_read script_read) (observed_close script_close)
                     \<lparr>inner = [], observing = False, on_close_set = False, observed_sizes = [], close_outcomes = []\<rparr>
                     (env_os env) body (h_temp_dir h) (h_capture_max h) (p_os (ex_proc x)) of
                None \<Rightarrow> None
              | Some (result, body, s) \<Rightarrow>
                  (let x = count_reads leg_backend False direction_read (observed_sizes body)
                             (on_proc (\<lambda>p. p\<lparr>p_os := s\<rparr>) x)
                   in case result of
                        Inl Makeslice_Panic \<Rightarrow> Some (Aborted, x)
                      | Inl _ \<Rightarrow> Some (Returned, fail_with env ''unable to read upstream response body'' ''Bad Gateway'' 502 x)
                      | Inr response_body \<Rightarrow>
                          finish_audited h env
                            \<lparr>job_request = r, job_info = info, job_user = user, job_request_body = request_body,
                             job_response_body = response_body, job_status_code = rs_status_code resp,
                             job_received_at = received_at\<rparr> (rs_header resp) x))))"

text \<open>From the spooled request to the backend's answer.\<close>

definition forward_audited ::
  "('x, 'e) handler \<Rightarrow> 'x handler_env \<Rightarrow> http_request \<Rightarrow> request_info \<Rightarrow> user_info \<Rightarrow> spooled_body \<Rightarrow> instant \<Rightarrow>
     'w exchange \<Rightarrow> (served \<times> 'w exchange) option" where
  "forward_audited h env r info user request_body received_at x =
     (case spooled_open (env_os env) request_body (p_os (ex_proc x)) of
        (Inl e, s) \<Rightarrow>
          Some (Returned, fail_with env ''unable to reopen request body'' ''Bad Gateway'' 502
                            (on_proc (\<lambda>p. p\<lparr>p_os := s\<rparr>) x))
      | (Inr content, s) \<Rightarrow>
          (let x = on_proc (\<lambda>p. p\<lparr>p_os := s\<rparr>) x;
               upstream_body = \<lparr>inner = reopened (env_os env) s content, observing = True, on_close_set = False,
                                observed_sizes = [], close_outcomes = []\<rparr>;
               upstream_request = build_upstream_request (h_backend_url h) (h_backend_identity h) r
                                    (sp_size request_body) user
           in case round_trip h no_trace upstream_request upstream_body x of
                (upstream_body, result, x) \<Rightarrow>
                  (let x = count_reads leg_backend False direction_write (observed_sizes upstream_body) x
                   in case result of
                        Inl e \<Rightarrow>
                          Some (Returned, fail_with env ''upstream request failed'' ''Bad Gateway'' 502
                                            (record_backend env outcome_error x))
                      | Inr resp \<Rightarrow> spool_response h env r info user request_body received_at resp x)))"

definition serve_audited ::
  "('x, 'e) handler \<Rightarrow> 'x handler_env \<Rightarrow> http_request \<Rightarrow> request_info \<Rightarrow> user_info \<Rightarrow> body_script observed \<Rightarrow> 'w exchange \<Rightarrow>
     (served \<times> 'w exchange) option" where
  "serve_audited h env r info user body x =
     (case time_now env (ex_proc x) of
        (received_at, p) \<Rightarrow>
          (let x = x\<lparr>ex_proc := p\<rparr>
           in case spool_body (observed_read script_read) (observed_close script_close)
                     \<lparr>inner = [], observing = False, on_close_set = False, observed_sizes = [], close_outcomes = []\<rparr>
                     (env_os env) (Some body) (h_temp_dir h) (h_capture_max h) (p_os (ex_proc x)) of
                None \<Rightarrow> None
              | Some (result, body, s) \<Rightarrow>
                  (let x = count_reads leg_client (rm_streaming (ex_state x)) direction_read (observed_sizes body)
                             (on_proc (\<lambda>p. p\<lparr>p_os := s\<rparr>) x)
                   in case result of
                        Inl Makeslice_Panic \<Rightarrow> Some (Aborted, x)
                      | Inl _ \<Rightarrow> Some (Returned, fail_with env ''unable to read request body'' ''Bad Request'' 400 x)
                      | Inr request_body \<Rightarrow>
                          map_option (\<lambda>(served, x).
                              (served, cleanup_body env ''unable to remove request temp file'' request_body x))
                            (forward_audited h env r info user request_body received_at x))))"

section \<open>ServeHTTP\<close>

definition authenticated ::
  "('x, 'e) handler \<Rightarrow> 'x handler_env \<Rightarrow> http_request \<Rightarrow> user_info \<Rightarrow> body_script observed \<Rightarrow> 'w exchange \<Rightarrow>
     (served \<times> 'w exchange) option" where
  "authenticated h env r user body x =
     (let x = on_proc (once first_verified_request (first_verified_request_update (\<lambda>_. True))
                (''first request with verified delegated identity '' @ em_dash @
                 '' requestheader trust is wired correctly'')) x
      in case env_resolve env r of
           Inl e \<Rightarrow>
             serve_passthrough h env r (Some user) body
               (on_proc (say Log_Error ''unable to resolve request info; using passthrough path'') x)
         | Inr info \<Rightarrow>
             (let audited = should_audit info;
                  x = x\<lparr>ex_state := set_request_info info audited (ex_state x)\<rparr>
              in if \<not> audited then serve_passthrough h env r (Some user) body x
                 else serve_audited h env r (the info) user body x))"

definition handle_request ::
  "('x, 'e) handler \<Rightarrow> 'x handler_env \<Rightarrow> http_request \<Rightarrow> body_script observed \<Rightarrow> 'w exchange \<Rightarrow>
     (served \<times> 'w exchange) option" where
  "handle_request h env r body x =
     (let x = on_proc (once first_request (first_request_update (\<lambda>_. True))
                (''first inbound request received '' @ em_dash @ '' proxy is reachable from the cluster'')) x
      in case from_request (Some (h_identity h)) (Some r) of
           (user, trusted, err) \<Rightarrow>
             if err \<noteq> None then
               Some (Returned, http_error_reply env ''Unauthorized'' 401
                 (on_proc (say Log_Warn ''rejecting request with untrusted delegated identity'') x))
             else if requires_verified_headers (Some (h_identity h)) \<and> \<not> trusted then
               Some (Returned, http_error_reply env ''Unauthorized'' 401
                 (on_proc (say Log_Warn ''rejecting request without verified delegated identity'') x))
             else authenticated h env r user body x)"

text \<open>
  \<open>ServeHTTP\<close> on a fresh connection writer: the deferred \<open>RecordRequest\<close> runs however the handler is left.
\<close>

definition serve_http ::
  "('x, 'e) handler \<Rightarrow> 'x handler_env \<Rightarrow> client_writer \<Rightarrow> http_request \<Rightarrow> body_script \<Rightarrow> 'w process \<Rightarrow>
     (served \<times> 'w exchange) option" where
  "serve_http h env w r body p =
     (case time_now env p of
        (start, p) \<Rightarrow>
          (case observe_read_closer (Some body) of
             None \<Rightarrow> None
           | Some body \<Rightarrow>
               (case handle_request h env r body
                       \<lparr>ex_proc = p, ex_writer = new_metric_response_writer w,
                        ex_state = new_request_metric_state start r, ex_hijacked = None\<rparr> of
                  None \<Rightarrow> None
                | Some (served, x) \<Rightarrow>
                    (case time_now env (ex_proc x) of
                       (now, p) \<Rightarrow>
                         Some (served,
                           x\<lparr>ex_proc := with_metrics
                              (record_request (make_request_labels (mw_status_code (ex_writer x)) (ex_state x))
                                (now - rm_start (ex_state x))) p\<rparr>)))))"

section \<open>The audit job\<close>

definition send_best_effort ::
  "('s event_list \<Rightarrow> 'w \<Rightarrow> 'err option \<times> 'w) \<Rightarrow> 'x handler_env \<Rightarrow> 's audit_event \<Rightarrow> 'w process \<Rightarrow> 'w process" where
  "send_best_effort send env event p =
     (case time_now env p of
        (start, p) \<Rightarrow>
          (case send (wrap event) (p_net p) of
             (err, net) \<Rightarrow>
               (case time_now env (p\<lparr>p_net := net\<rparr>) of
                  (now, p) \<Rightarrow>
                    (case err of
                       Some e \<Rightarrow>
                         say Log_Error ''best-effort webhook delivery failed''
                           (with_metrics (record_audit_delivery ''send_error'' (now - start) \<circ>
                              add_audit_event ''send_error'') p)
                     | None \<Rightarrow>
                         once first_webhook_ok (first_webhook_ok_update (\<lambda>_. True))
                           (''first audit event delivered to webhook receiver '' @ em_dash @
                            '' audit pipeline is healthy'')
                           (with_metrics (record_audit_delivery ''sent'' (now - start) \<circ> add_audit_event ''sent'') p)))))"

definition job_input :: "audit_job \<Rightarrow> instant \<Rightarrow> audit_input" where
  "job_input job now =
     \<lparr>in_request = Some (job_request job), in_request_info = Some (job_info job), in_user = job_user job,
      in_request_body = captured (job_request_body job), in_request_body_bytes = sp_size (job_request_body job),
      in_request_body_truncated = truncated (job_request_body job),
      in_response_body = captured (job_response_body job), in_response_body_bytes = sp_size (job_response_body job),
      in_response_body_truncated = truncated (job_response_body job),
      in_response_status_code = job_status_code job, in_request_received_at = job_received_at job,
      in_response_completed_at = now\<rparr>"

definition build_and_send_audit_event ::
  "(bytes \<Rightarrow> 's status option) \<Rightarrow> ('s event_list \<Rightarrow> 'w \<Rightarrow> 'err option \<times> 'w) \<Rightarrow> ('x, 'e) handler \<Rightarrow>
     'x handler_env \<Rightarrow> audit_job \<Rightarrow> 'w process \<Rightarrow> 'w process" where
  "build_and_send_audit_event unmarshal_status send h env job p =
     (case time_now env p of
        (now, p) \<Rightarrow>
          (case build unmarshal_status (env_new_uuid env (p_ticks p)) (h_builder h) (job_input job now) of
             Inl e \<Rightarrow>
               say Log_Error ''unable to build audit event''
                 (with_metrics (add_audit_event ''build_error'') p)
           | Inr event \<Rightarrow>
               send_best_effort send env event (with_metrics (add_audit_event ''built'') p)))"

end
