(* ===== verification/Handler_Accounting.thy ===== *)
theory Handler_Accounting
  imports Proxy_Handler
begin

text \<open>
  What a request leaves in the metrics: \<open>ServeHTTP\<close> always comes to an end, every request is counted once,
  the backend round trip is timed at most once, and every stream that is opened on the gauge is closed.
\<close>

section \<open>The accounting relation\<close>

definition byte_or_backend :: "instrument \<Rightarrow> bool" where
  "byte_or_backend i \<longleftrightarrow>
     i = Transport_Bytes_Total \<or> i = Backend_Round_Trip_Seconds \<or> i = Streams_Active \<or> i = Stream_Duration_Seconds"

definition round_trips :: "'w exchange \<Rightarrow> int" where
  "round_trips x = int (log_count Backend_Round_Trip_Seconds (p_metrics (ex_proc x))) -
     (if rm_backend_observed (ex_state x) then 1 else 0)"

definition other_logs :: "metric_log \<Rightarrow> metric_log \<Rightarrow> bool" where
  "other_logs log log' \<longleftrightarrow> (\<forall>i. byte_or_backend i \<or> log_of i log' = log_of i log)"

definition stream_delta :: "metric_log \<Rightarrow> metric_log \<Rightarrow> attrs \<Rightarrow> int" where
  "stream_delta log log' a = log_sum Streams_Active a log' - log_sum Streams_Active a log"

text \<open>From \<open>x\<close> to \<open>y\<close> nothing but bytes, at most one round trip, and streams balanced up to \<open>d\<close>.\<close>

definition acct :: "(attrs \<Rightarrow> int) \<Rightarrow> 'w exchange \<Rightarrow> 'w exchange \<Rightarrow> bool" where
  "acct d x y \<longleftrightarrow>
     other_logs (p_metrics (ex_proc x)) (p_metrics (ex_proc y)) \<and>
     round_trips y = round_trips x \<and>
     (rm_backend_observed (ex_state x) \<le> rm_backend_observed (ex_state y)) \<and>
     rm_start (ex_state y) = rm_start (ex_state x) \<and>
     (\<forall>a. stream_delta (p_metrics (ex_proc x)) (p_metrics (ex_proc y)) a = d a)"

abbreviation balanced :: "'w exchange \<Rightarrow> 'w exchange \<Rightarrow> bool" where
  "balanced \<equiv> acct (\<lambda>_. 0)"

lemma other_logs_trans: "other_logs a b \<Longrightarrow> other_logs b c \<Longrightarrow> other_logs a c"
  unfolding other_logs_def by metis

lemma stream_delta_trans: "stream_delta l n a = stream_delta l m a + stream_delta m n a"
  by (simp add: stream_delta_def)

lemma acct_trans:
  assumes "acct d x y" "acct e y z"
  shows "acct (\<lambda>a. d a + e a) x z"
proof -
  note xy = assms(1) [unfolded acct_def] and yz = assms(2) [unfolded acct_def]
  have "other_logs (p_metrics (ex_proc x)) (p_metrics (ex_proc z))"
    using other_logs_trans xy yz by blast
  moreover have "stream_delta (p_metrics (ex_proc x)) (p_metrics (ex_proc z)) a = d a + e a" for a
    using stream_delta_trans [of "p_metrics (ex_proc x)" "p_metrics (ex_proc z)" a "p_metrics (ex_proc y)"] xy yz by simp
  moreover have "rm_backend_observed (ex_state x) \<le> rm_backend_observed (ex_state z)"
  proof (rule order_trans)
    show "rm_backend_observed (ex_state x) \<le> rm_backend_observed (ex_state y)" using xy by (elim conjE)
    show "rm_backend_observed (ex_state y) \<le> rm_backend_observed (ex_state z)" using yz by (elim conjE)
  qed
  ultimately show ?thesis using xy yz unfolding acct_def by simp
qed

lemma balanced_refl [simp]: "balanced x x"
  by (simp add: acct_def other_logs_def stream_delta_def)

lemma balanced_trans [trans]: "balanced x y \<Longrightarrow> balanced y z \<Longrightarrow> balanced x z"
  using acct_trans [of "\<lambda>_. 0" x y "\<lambda>_. 0" z] by simp

lemma acct_then_balanced: "acct d x y \<Longrightarrow> balanced y z \<Longrightarrow> acct d x z"
  using acct_trans [of d x y "\<lambda>_. 0" z] by simp

lemma balanced_then_acct: "balanced x y \<Longrightarrow> acct d y z \<Longrightarrow> acct d x z"
  using acct_trans [of "\<lambda>_. 0" x y d z] by simp

lemma log_sum_log_of: "log_sum i a log = log_sum i a (log_of i log)"
  by (simp add: log_sum_def log_of_def conj_commute)

lemma log_count_log_of: "log_count i log = length (log_of i log)"
  by (simp add: log_count_def log_of_def)

lemma only_bytes_same:
  assumes "only_bytes log log'"
  shows "other_logs log log'" "log_count Backend_Round_Trip_Seconds log' = log_count Backend_Round_Trip_Seconds log"
    "stream_delta log log' a = 0" "i \<noteq> Transport_Bytes_Total \<Longrightarrow> log_of i log' = log_of i log"
proof -
  have same: "i = Transport_Bytes_Total \<or> log_of i log' = log_of i log" for i
    using assms unfolding only_bytes_def by blast
  then show "other_logs log log'" unfolding other_logs_def byte_or_backend_def by blast
  show "log_count Backend_Round_Trip_Seconds log' = log_count Backend_Round_Trip_Seconds log"
    using same [of Backend_Round_Trip_Seconds] by (simp add: log_count_log_of)
  show "stream_delta log log' a = 0"
    using same [of Streams_Active] by (simp add: stream_delta_def log_sum_log_of [of _ _ log'] log_sum_log_of [of _ _ log])
  show "i \<noteq> Transport_Bytes_Total \<Longrightarrow> log_of i log' = log_of i log" using same [of i] by blast
qed

lemma balanced_bytes:
  assumes "only_bytes (p_metrics (ex_proc x)) (p_metrics (ex_proc y))" "ex_state y = ex_state x"
  shows "balanced x y"
  using only_bytes_same [OF assms(1)] assms(2) by (simp add: acct_def round_trips_def)

section \<open>The steps\<close>

lemma balanced_proc:
  assumes "p_metrics (f (ex_proc x)) = p_metrics (ex_proc x)"
  shows "balanced x (on_proc f x)"
  using assms by (intro balanced_bytes) (simp_all add: on_proc_def)

lemma p_metrics_steps [simp]:
  "p_metrics (say l m p) = p_metrics p"
  "p_metrics (once f g m p) = p_metrics p"
  "p_metrics (notify_first_backend_ok p) = p_metrics p"
  "p_metrics (snd (time_now env p)) = p_metrics p"
  by (simp_all add: say_def once_def notify_first_backend_ok_def time_now_def)

lemma balanced_say [simp]: "balanced x (on_proc (say l m) x)"
  and balanced_once [simp]: "balanced x (on_proc (once f g m) x)"
  and balanced_notify [simp]: "balanced x (on_proc notify_first_backend_ok x)"
  and balanced_os [simp]: "balanced x (on_proc (\<lambda>p. p\<lparr>p_os := s\<rparr>) x)"
  and balanced_job [simp]: "balanced x (on_proc (\<lambda>p. p\<lparr>p_jobs := p_jobs p @ js\<rparr>) x)"
  by (rule balanced_proc, simp)+

lemma balanced_count_reads [simp]: "balanced x (count_reads leg b d sizes x)"
  by (rule balanced_bytes) (simp_all add: count_reads_def on_proc_def with_metrics_def)

lemma http_error_bytes:
  assumes "http_error accepts s msg code (w, log) = (w', log')"
  shows "only_bytes log log'"
  using assms
  by (auto simp: http_error_def write_body_def Let_def split: prod.splits)

lemma balanced_http_error [simp]: "balanced x (http_error_reply env msg code x)"
  by (rule balanced_bytes)
    (auto simp: http_error_reply_def dest: http_error_bytes split: prod.splits)

lemma balanced_fail [simp]: "balanced x (fail_with env line msg code x)"
  unfolding fail_with_def by (rule balanced_trans [OF balanced_say balanced_http_error])

lemma log_of_measure: "log_of i (measure j v a log) = (if i = j then measure j v a (log_of i log) else log_of i log)"
  by (auto simp: log_of_def measure_def)

lemma record_round_trip_logs:
  assumes "record_round_trip now oc (s, log) = (s', log')"
  shows "other_logs log log'"
    "int (log_count Backend_Round_Trip_Seconds log') - (if rm_backend_observed s' then 1 else 0) =
     int (log_count Backend_Round_Trip_Seconds log) - (if rm_backend_observed s then 1 else 0)"
    "rm_backend_observed s'" "rm_start s' = rm_start s" "stream_delta log log' a = 0"
  using assms
  by (auto simp: record_round_trip_def record_backend_round_trip_def Let_def other_logs_def byte_or_backend_def
      log_of_measure metric_simps stream_delta_def split: if_splits)

lemma balanced_record_backend [simp]: "balanced x (record_backend env oc x)"
proof -
  obtain s log where r: "record_round_trip (fst (time_now env (ex_proc x))) oc
      (ex_state x, p_metrics (ex_proc x)) = (s, log)" by fastforce
  then have "record_backend env oc x =
      x\<lparr>ex_state := s, ex_proc := (snd (time_now env (ex_proc x)))\<lparr>p_metrics := log\<rparr>\<rparr>"
    by (simp add: record_backend_def time_now_def)
  then show ?thesis
    using record_round_trip_logs [OF r] by (simp add: acct_def round_trips_def)
qed

lemma balanced_passthrough_error [simp]: "balanced x (passthrough_error env x)"
  unfolding passthrough_error_def by (rule balanced_trans [OF balanced_record_backend balanced_fail])

lemma balanced_writer [simp]:
  "balanced x (set_writer_header hdr x)" "balanced x (reply_header code hdr x)"
  by (auto intro!: balanced_bytes simp: set_writer_header_def reply_header_def Let_def)

lemma fold_no_trace [simp]: "fold no_trace is x = x"
  by (induction "is") (simp_all add: no_trace_def)

lemma balanced_forward_1xx: "balanced x (forward_1xx i x)"
  unfolding forward_1xx_def by (rule balanced_trans [OF balanced_writer(2,1)])

lemma balanced_trace: "balanced x (fold forward_1xx is x)"
proof (induction "is" arbitrary: x)
  case (Cons i "is")
  show ?case using balanced_trans [OF balanced_forward_1xx Cons.IH] by simp
qed simp

lemma balanced_round_trip:
  assumes "round_trip h trace req body x = (b, res, y)" "trace = no_trace \<or> trace = forward_1xx"
  shows "balanced x y"
proof -
  let ?x = "on_proc (\<lambda>p. p\<lparr>p_upstream := p_upstream p @ [(req, script_content (inner body))]\<rparr>) x"
  have b: "balanced x ?x" by (rule balanced_proc) simp
  have y: "y = fold trace (interim_responses (fst (h_transport h req (inner body)))) ?x"
    using assms(1) by (auto simp: round_trip_def split: prod.splits)
  from assms(2) show ?thesis
  proof
    assume "trace = no_trace"
    with b show ?thesis by (simp add: y)
  next
    assume "trace = forward_1xx"
    with balanced_trans [OF b balanced_trace] show ?thesis by (simp add: y)
  qed
qed

lemma balanced_hijack [simp]: "balanced x (x\<lparr>ex_hijacked := hj\<rparr>)"
  by (rule balanced_bytes) simp_all

lemma balanced_upgrade [simp]: "balanced x (handle_upgrade_response env out resp x)"
  by (simp add: handle_upgrade_response_def Let_def)

lemma balanced_cleanup [simp]: "balanced x (cleanup_body env line b x)"
  unfolding cleanup_body_def
  by (auto split: prod.splits sum.splits intro!: balanced_proc)

section \<open>Copying a stream\<close>

text \<open>A body whose stream has been started: it reports its end exactly once by the time it is closed.\<close>

definition started :: "resp_body \<Rightarrow> bool" where
  "started b \<longleftrightarrow> is_stream b \<and> resp_armed b"

lemma started_read: "started b \<Longrightarrow> started (snd (snd (resp_read b n)))"
  by (simp add: started_def resp_read_armed)

lemma started_closes:
  assumes "started b"
  shows "\<exists>outcome. resp_outcomes (resp_close b) = [outcome]"
proof -
  obtain c where b: "b = Stream_Body c" "resp_armed (Stream_Body c)"
    using assms by (cases b) (auto simp: started_def is_stream_def)
  have "length (resp_outcomes (resp_close b)) = 1"
    unfolding b(1) by (rule resp_close_reports [OF b(2)])
  then show ?thesis by (simp add: length_Suc_conv)
qed

definition stream_weight :: "stream_done option \<Rightarrow> attrs \<Rightarrow> int" where
  "stream_weight sd a =
     (case sd of None \<Rightarrow> 0 | Some sd \<Rightarrow> if attrs_match (sd_active_attrs sd) a then 1 else 0)"

lemma settle_body_logs:
  assumes "sd \<noteq> None \<longrightarrow> (\<exists>outcome. resp_outcomes b = [outcome])"
  shows "other_logs log (settle_body now str sd b log)"
    "log_count Backend_Round_Trip_Seconds (settle_body now str sd b log) = log_count Backend_Round_Trip_Seconds log"
    "stream_delta log (settle_body now str sd b log) a = - stream_weight sd a"
proof -
  let ?log = "observe_transport_bytes leg_backend str direction_read (resp_sizes b) log"
  note ob = only_bytes_same [OF only_bytes_observe [of log leg_backend str direction_read "resp_sizes b"]]
  have f: "settle_body now str sd b log =
      (case sd of None \<Rightarrow> ?log | Some d \<Rightarrow> stream_finished d (hd (resp_outcomes b)) now ?log)"
    using assms by (auto simp: settle_body_def split: option.splits)
  have o: "other_logs l (stream_finished d oc now l)" for l d oc
    by (auto simp: stream_finished_def Let_def other_logs_def log_of_measure byte_or_backend_def)
  show "other_logs log (settle_body now str sd b log)"
    using ob(1) other_logs_trans [OF ob(1) o] by (simp add: f split: option.splits)
  show "log_count Backend_Round_Trip_Seconds (settle_body now str sd b log) = log_count Backend_Round_Trip_Seconds log"
    using ob(2) by (simp add: f metric_simps split: option.splits)
  show "stream_delta log (settle_body now str sd b log) a = - stream_weight sd a"
    using ob(3) [of a]
    by (auto simp: f stream_weight_def stream_delta_def stream_finished_def Let_def metric_simps split: option.splits)
qed

lemma writer_header_written:
  "code \<noteq> 0 \<Longrightarrow> \<not> informational code \<Longrightarrow> cw_status (mw_writer w) = None \<Longrightarrow> header_written (write_header code w)"
  by (simp add: header_written_def write_header_def cw_write_header_def Let_def)

section \<open>The passthrough path is balanced\<close>

lemma observe_passthrough_logs:
  assumes "observe_passthrough_response now resp (Some s) log = (resp', s', log', sd)"
    and "rs_body resp = Raw_Body b"
  shows "\<exists>t. s' = Some t \<and> other_logs log log' \<and>
      int (log_count Backend_Round_Trip_Seconds log') - (if rm_backend_observed t then 1 else 0) =
      int (log_count Backend_Round_Trip_Seconds log) - (if rm_backend_observed s then 1 else 0) \<and>
      rm_backend_observed t \<and> rm_start t = rm_start s \<and> (\<forall>a. stream_delta log log' a = stream_weight sd a) \<and>
      (sd \<noteq> None \<longrightarrow> started (rs_body resp')) \<and> rs_status_code resp' = rs_status_code resp \<and>
      rs_header resp' = rs_header resp \<and> resp_script (rs_body resp') = b \<and>
      (rs_status_code resp = 101 \<longrightarrow> sd = None \<and> resp' = resp)"
proof -
  define streaming where "streaming = (is_streaming_response (Some resp) \<or> rm_streaming s)"
  obtain t log1 where r: "record_round_trip now outcome_ok (set_backend (rs_proto resp) streaming s, log) = (t, log1)"
    by fastforce
  have o: "rm_backend_observed (set_backend (rs_proto resp) streaming s) = rm_backend_observed s"
    "rm_start (set_backend (rs_proto resp) streaming s) = rm_start s"
    by (simp_all add: set_backend_def Let_def)
  note rr = record_round_trip_logs [OF r, unfolded o]
  note e = assms(1) [unfolded observe_passthrough_response_def option.case Let_def, folded streaming_def,
      unfolded r prod.case assms(2)]
  show ?thesis
  proof (cases "rs_status_code resp = 101 \<or> \<not> streaming")
    case True
    then show ?thesis
      using e rr assms(2)
      by (auto simp: stream_weight_def observe_counted_def observe_read_closer_def split: if_splits)
  next
    case False
    define l where "l = \<lparr>sl_kind = stream_kind t, sl_outcome = '''', sl_inbound_proto = rm_inbound_proto t,
      sl_backend_proto = rs_proto resp\<rparr>"
    have ss: "stream_started now l log1 = (\<lparr>sd_start = now, sd_active_attrs = stream_attrs l, sd_labels = l\<rparr>,
        measure Streams_Active 1 (stream_attrs l) log1)"
      by (simp add: stream_started_def Let_def)
    from e False have e': "s' = Some t" "sd = Some \<lparr>sd_start = now, sd_active_attrs = stream_attrs l, sd_labels = l\<rparr>"
      "log' = measure Streams_Active 1 (stream_attrs l) log1"
      "resp' = resp\<lparr>rs_body := observe_stream (observe_counted (Raw_Body b))\<rparr>"
      by (simp_all add: l_def [symmetric] ss)
    have "started (rs_body resp')" "resp_script (rs_body resp') = b"
      by (simp_all add: e' observe_stream_def observe_counted_def observe_read_closer_def observe_close_def
          started_def is_stream_def armed_or_reported_def)
    moreover have "other_logs log log'"
      using rr(1) by (auto simp: e' other_logs_def log_of_measure byte_or_backend_def)
    moreover have "stream_delta log log' a = stream_weight sd a" for a
      using rr(5) [of a] by (simp add: e' stream_delta_def metric_simps stream_weight_def)
    ultimately show ?thesis
      using rr(2-4) False by (auto simp: e' metric_simps)
  qed
qed

lemma modify_response_acct:
  assumes "modify_response env resp x = (resp', sd, y)" "rs_body resp = Raw_Body b"
  shows "acct (stream_weight sd) x y" "sd \<noteq> None \<longrightarrow> started (rs_body resp')"
    "rs_status_code resp' = rs_status_code resp" "rs_header resp' = rs_header resp" "resp_script (rs_body resp') = b"
    "rs_status_code resp = 101 \<Longrightarrow> sd = None \<and> resp' = resp"
proof -
  let ?x = "on_proc notify_first_backend_ok x"
  obtain now p where t: "time_now env (ex_proc ?x) = (now, p)" by fastforce
  obtain st log where o: "observe_passthrough_response now resp (Some (ex_state ?x)) (p_metrics p) = (resp', st, log, sd)"
    and y: "y = ?x\<lparr>ex_state := (case st of None \<Rightarrow> ex_state ?x | Some s \<Rightarrow> s), ex_proc := p\<lparr>p_metrics := log\<rparr>\<rparr>"
    using assms(1) by (auto simp: modify_response_def t Let_def split: prod.splits)
  note l = observe_passthrough_logs [OF o assms(2)]
  have "p_metrics p = p_metrics (ex_proc x)"
    using t by (auto simp: time_now_def on_proc_def)
  then show "acct (stream_weight sd) x y"
    using l by (auto simp: acct_def round_trips_def y on_proc_def)
  show "sd \<noteq> None \<longrightarrow> started (rs_body resp')"
    "rs_status_code resp' = rs_status_code resp" "rs_header resp' = rs_header resp" "resp_script (rs_body resp') = b"
    "rs_status_code resp = 101 \<Longrightarrow> sd = None \<and> resp' = resp"
    using l by auto
qed

lemma passthrough_copy_acct:
  assumes "sd \<noteq> None \<longrightarrow> started b"
  shows "\<exists>served y. passthrough_copy env sd b x = Some (served, y) \<and> acct (\<lambda>a. - stream_weight sd a) x y"
proof -
  obtain res b' w log where c:
    "copy_loop resp_read (env_accepts env) (ex_state x) b (ex_writer x, p_metrics (ex_proc x)) = Some (res, b', w, log)"
    and inv: "sd \<noteq> None \<longrightarrow> started b'" and ob: "only_bytes (p_metrics (ex_proc x)) log"
    using resp.copy_loop_total [of "\<lambda>b. sd \<noteq> None \<longrightarrow> started b" b "env_accepts env" "ex_state x"
        "(ex_writer x, p_metrics (ex_proc x))"] assms started_read by fastforce
  obtain now p where t: "time_now env (ex_proc x) = (now, p)" by fastforce
  let ?log = "settle_body now (rm_streaming (ex_state x)) sd (resp_close b') log"
  let ?y = "x\<lparr>ex_writer := w, ex_proc := p\<lparr>p_metrics := ?log\<rparr>\<rparr>"
  have s: "sd \<noteq> None \<longrightarrow> (\<exists>outcome. resp_outcomes (resp_close b') = [outcome])"
    using inv started_closes by blast
  note l = settle_body_logs [OF s, where log = log and now = now and str = "rm_streaming (ex_state x)"]
  have "acct (\<lambda>a. - stream_weight sd a) x ?y"
    using l only_bytes_same [OF ob] other_logs_trans [OF only_bytes_same(1) [OF ob] l(1)]
      stream_delta_trans [of "p_metrics (ex_proc x)" ?log _ log]
    by (simp add: acct_def round_trips_def)
  then show ?thesis by (simp add: passthrough_copy_def c t)
qed

lemma serve_passthrough_balanced:
  "\<exists>served y. serve_passthrough h env r cu body x = Some (served, y) \<and> balanced x y"
proof (cases "passthrough_request (h_backend_url h) (h_backend_identity h) cu r")
  case None
  then show ?thesis by (simp add: serve_passthrough_def)
next
  case (Some out)
  let ?body = "if rq_content_length r = 0 then body\<lparr>inner := []\<rparr> else body"
  obtain b1 res x1 where rt: "round_trip h forward_1xx out ?body x = (b1, res, x1)" by (metis prod_cases3)
  let ?x2 = "count_reads leg_client (rm_streaming (ex_state x)) direction_read (observed_sizes b1) x1"
  have b2: "balanced x ?x2"
    using balanced_trans [OF balanced_round_trip [OF rt disjI2 [OF refl]] balanced_count_reads] .
  note e = serve_passthrough_def [of h env r cu body x, unfolded Some option.case Let_def rt prod.case]
  show ?thesis
  proof (cases res)
    case (Inl a)
    then show ?thesis using balanced_trans [OF b2 balanced_passthrough_error [of ?x2 env]] by (simp add: e)
  next
    case (Inr rsp)
    define resp where "resp = \<lparr>rs_status_code = rs_status_code rsp, rs_proto = rs_proto rsp,
        rs_header = (if rs_status_code rsp = 101 then rs_header rsp else remove_hop_by_hop_headers (rs_header rsp)),
        rs_body = Raw_Body (rs_body rsp)\<rparr>"
    obtain resp' sd x3 where m: "modify_response env resp ?x2 = (resp', sd, x3)" by (metis prod_cases3)
    have rb: "rs_body resp = Raw_Body (rs_body rsp)" by (simp add: resp_def)
    note mr = modify_response_acct [OF m rb]
    have a3: "acct (stream_weight sd) x x3" by (rule balanced_then_acct [OF b2 mr(1)])
    show ?thesis
    proof (cases "rs_status_code resp' = 101")
      case True
      then have "sd = None" using mr(3,6) by simp
      then have "balanced x x3" using a3 by (simp add: stream_weight_def [abs_def])
      then show ?thesis
        using balanced_trans [OF _ balanced_upgrade] True
        by (simp add: e Inr resp_def [symmetric] m)
    next
      case False
      let ?x4 = "reply_header (rs_status_code resp') (rs_header resp') x3"
      obtain served y where p: "passthrough_copy env sd (rs_body resp') ?x4 = Some (served, y)"
        and ap: "acct (\<lambda>a. - stream_weight sd a) ?x4 y"
        using passthrough_copy_acct [OF mr(2), of env ?x4] by blast
      have "acct (\<lambda>a. stream_weight sd a + - stream_weight sd a) x y"
        by (rule acct_trans [OF acct_then_balanced [OF a3 balanced_writer(2)] ap])
      then have "balanced x y" by simp
      with p False show ?thesis by (simp add: e Inr resp_def [symmetric] m)
    qed
  qed
qed

section \<open>The audited path is balanced\<close>

lemma finish_audited_balanced:
  "\<exists>served y. finish_audited h env job hdr x = Some (served, y) \<and> balanced x y"
proof -
  obtain c s where o: "spooled_open (env_os env) (job_response_body job) (p_os (ex_proc x)) = (c, s)" by fastforce
  let ?x1 = "on_proc (\<lambda>p. p\<lparr>p_os := s\<rparr>) x"
  note e = finish_audited_def [of h env job hdr x, unfolded o Let_def prod.case]
  show ?thesis
  proof (cases c)
    case (Inl err)
    have "balanced x (cleanup_body env l b (fail_with env l' m code ?x1))" for l b l' m code
      by (rule balanced_trans [OF balanced_trans [OF balanced_os balanced_fail] balanced_cleanup])
    then show ?thesis by (simp add: e Inl)
  next
    case (Inr content)
    let ?x2 = "reply_header (job_status_code job) (strip_hop_by_hop_headers hdr) ?x1"
    obtain res r' w log where c: "copy_loop script_read (env_accepts env) (ex_state ?x2) (reopened (env_os env) s content)
        (ex_writer ?x2, p_metrics (ex_proc ?x2)) = Some (res, r', w, log)"
      and ob: "only_bytes (p_metrics (ex_proc ?x2)) log"
      using script.copy_loop_total [of "\<lambda>_. True" "reopened (env_os env) s content" "env_accepts env" "ex_state ?x2"
          "(ex_writer ?x2, p_metrics (ex_proc ?x2))"] by auto
    let ?x3 = "?x2\<lparr>ex_writer := w, ex_proc := (ex_proc ?x2)\<lparr>p_metrics := log\<rparr>\<rparr>"
    let ?x4 = "if res = Copied then ?x3 else on_proc (say Log_Error ''unable to write proxied response'') ?x3"
    have b1: "balanced x ?x2" by (rule balanced_trans [OF balanced_os balanced_writer(2)])
    have b2: "balanced ?x2 ?x3" using ob by (intro balanced_bytes) simp_all
    have b3: "balanced ?x3 ?x4" by simp
    have "balanced x (cleanup_body env l b (on_proc (\<lambda>p. p\<lparr>p_jobs := p_jobs p @ [job]\<rparr>) ?x4))" for l b
      by (rule balanced_trans [OF b1 balanced_trans [OF b2 balanced_trans [OF b3
            balanced_trans [OF balanced_job balanced_cleanup]]]])
    then show ?thesis by (simp add: e Inr c)
  qed
qed

lemma observe_audited_logs:
  assumes "observe_audited_backend_response now resp (Some s) log = (body, st, log')"
  shows "\<exists>t. st = Some t \<and> body = observe_read_closer (Some (rs_body resp)) \<and> other_logs log log' \<and>
    int (log_count Backend_Round_Trip_Seconds log') - (if rm_backend_observed t then 1 else 0) =
    int (log_count Backend_Round_Trip_Seconds log) - (if rm_backend_observed s then 1 else 0) \<and>
    rm_backend_observed t \<and> rm_start t = rm_start s \<and> (\<forall>a. stream_delta log log' a = 0)"
proof -
  obtain t log1 where r: "record_round_trip now outcome_ok (set_backend (rs_proto resp) False s, log) = (t, log1)"
    by fastforce
  have o: "rm_backend_observed (set_backend (rs_proto resp) False s) = rm_backend_observed s"
    "rm_start (set_backend (rs_proto resp) False s) = rm_start s"
    by (simp_all add: set_backend_def Let_def)
  note e = assms [unfolded observe_audited_backend_response_def option.case r prod.case]
  show ?thesis
    using record_round_trip_logs [OF r, unfolded o] e by auto
qed

lemma spool_response_balanced:
  "\<exists>served y. spool_response h env r info user rb at resp x = Some (served, y) \<and> balanced x y"
proof -
  let ?x1 = "on_proc notify_first_backend_ok x"
  obtain now p where t: "time_now env (ex_proc ?x1) = (now, p)" by fastforce
  obtain body st log where o: "observe_audited_backend_response now resp (Some (ex_state ?x1)) (p_metrics p) = (body, st, log)"
    by (metis prod_cases3)
  note lo = observe_audited_logs [OF o]
  obtain s where st: "st = Some s" using lo by blast
  let ?x2 = "?x1\<lparr>ex_state := s, ex_proc := p\<lparr>p_metrics := log\<rparr>\<rparr>"
  have "p_metrics p = p_metrics (ex_proc x)" using t by (auto simp: time_now_def on_proc_def)
  then have b2: "balanced x ?x2"
    using lo by (auto simp: acct_def round_trips_def on_proc_def st)
  let ?nb = "\<lparr>inner = [], observing = False, on_close_set = False, observed_sizes = [], close_outcomes = []\<rparr>"
  obtain out b' os' where sp: "spool_body (observed_read script_read) (observed_close script_close) ?nb (env_os env)
      body (h_temp_dir h) (h_capture_max h) (p_os (ex_proc ?x2)) = Some (out, b', os')"
    using lo observed.spool_body_outcome by (fastforce simp: observe_read_closer_def)
  let ?x3 = "count_reads leg_backend False direction_read (observed_sizes b') (on_proc (\<lambda>p. p\<lparr>p_os := os'\<rparr>) ?x2)"
  have b3: "balanced x ?x3"
    by (rule balanced_trans [OF b2 balanced_trans [OF balanced_os balanced_count_reads]])
  note e = spool_response_def [of h env r info user rb at resp x, unfolded Let_def t prod.case o st option.case sp]
  show ?thesis
  proof (cases out)
    case (Inl err)
    have "balanced x (fail_with env l m c ?x3)" for l m c
      by (rule balanced_trans [OF b3 balanced_fail])
    with b3 show ?thesis by (cases err) (simp_all add: e Inl)
  next
    case (Inr body)
    then show ?thesis
      using finish_audited_balanced [of h env _ "rs_header resp" ?x3] balanced_trans [OF b3]
      by (fastforce simp: e)
  qed
qed

lemma forward_audited_balanced:
  "\<exists>served y. forward_audited h env r info user rb at x = Some (served, y) \<and> balanced x y"
proof -
  obtain c s where o: "spooled_open (env_os env) rb (p_os (ex_proc x)) = (c, s)" by fastforce
  let ?x1 = "on_proc (\<lambda>p. p\<lparr>p_os := s\<rparr>) x"
  note e = forward_audited_def [of h env r info user rb at x, unfolded o Let_def prod.case]
  show ?thesis
  proof (cases c)
    case (Inl err)
    have "balanced x (fail_with env l m code ?x1)" for l m code
      by (rule balanced_trans [OF balanced_os balanced_fail])
    then show ?thesis by (simp add: e Inl)
  next
    case (Inr content)
    let ?ub = "\<lparr>inner = reopened (env_os env) s content, observing = True, on_close_set = False, observed_sizes = [], close_outcomes = []\<rparr>"
    let ?req = "build_upstream_request (h_backend_url h) (h_backend_identity h) r (sp_size rb) user"
    obtain b1 res x2 where rt: "round_trip h no_trace ?req ?ub ?x1 = (b1, res, x2)" by (metis prod_cases3)
    let ?x3 = "count_reads leg_backend False direction_write (observed_sizes b1) x2"
    have b3: "balanced x ?x3"
      by (rule balanced_trans [OF balanced_os balanced_trans [OF balanced_round_trip [OF rt disjI1 [OF refl]] balanced_count_reads]])
    show ?thesis
    proof (cases res)
      case (Inl err)
      have "balanced x (fail_with env l m code (record_backend env oc ?x3))" for l m code oc
        by (rule balanced_trans [OF b3 balanced_trans [OF balanced_record_backend balanced_fail]])
      then show ?thesis by (simp add: e Inr rt Inl)
    next
      case resp: (Inr resp)
      then show ?thesis
        using spool_response_balanced [of h env r info user rb at resp ?x3] balanced_trans [OF b3]
        by (auto simp: e Inr rt)
    qed
  qed
qed

lemma serve_audited_balanced:
  "\<exists>served y. serve_audited h env r info user (body :: body_script observed) x = Some (served, y) \<and> balanced x y"
proof -
  obtain at p where t: "time_now env (ex_proc x) = (at, p)" by fastforce
  let ?x1 = "x\<lparr>ex_proc := p\<rparr>"
  have "p_metrics p = p_metrics (ex_proc x)" using t by (auto simp: time_now_def)
  then have b1: "balanced x ?x1" by (intro balanced_bytes) simp_all
  let ?nb = "\<lparr>inner = [], observing = False, on_close_set = False, observed_sizes = [], close_outcomes = []\<rparr>"
  obtain out b' os' where sp: "spool_body (observed_read script_read) (observed_close script_close) ?nb (env_os env)
      (Some body) (h_temp_dir h) (h_capture_max h) (p_os (ex_proc ?x1)) = Some (out, b', os')"
    using observed.spool_body_outcome by fastforce
  let ?x2 = "count_reads leg_client (rm_streaming (ex_state ?x1)) direction_read (observed_sizes b')
      (on_proc (\<lambda>p. p\<lparr>p_os := os'\<rparr>) ?x1)"
  have b2: "balanced x ?x2"
    by (rule balanced_trans [OF b1 balanced_trans [OF balanced_os balanced_count_reads]])
  note e = serve_audited_def [of h env r info user body x, unfolded Let_def t prod.case sp option.case]
  show ?thesis
  proof (cases out)
    case (Inl err)
    have "balanced x (fail_with env l m c ?x2)" for l m c
      by (rule balanced_trans [OF b2 balanced_fail])
    with b2 show ?thesis by (cases err) (simp_all add: e Inl)
  next
    case (Inr rb)
    obtain served y where f: "forward_audited h env r info user rb at ?x2 = Some (served, y)" "balanced ?x2 y"
      using forward_audited_balanced [of h env r info user rb at ?x2] by blast
    have "balanced x (cleanup_body env l rb y)" for l
      by (rule balanced_trans [OF b2 balanced_trans [OF f(2) balanced_cleanup]])
    then show ?thesis using f(1) by (auto simp: e Inr)
  qed
qed

section \<open>ServeHTTP\<close>

lemma balanced_set_info [simp]: "balanced x (x\<lparr>ex_state := set_request_info info audited (ex_state x)\<rparr>)"
  by (auto simp: acct_def round_trips_def other_logs_def stream_delta_def set_request_info_def Let_def split: option.splits)

lemma authenticated_balanced:
  "\<exists>served y. authenticated h env r user body x = Some (served, y) \<and> balanced x y"
proof -
  let ?x1 = "on_proc (once first_verified_request (first_verified_request_update (\<lambda>_. True))
      (''first request with verified delegated identity '' @ em_dash @ '' requestheader trust is wired correctly'')) x"
  note e = authenticated_def [of h env r user body x, unfolded Let_def]
  show ?thesis
  proof (cases "env_resolve env r")
    case (Inl err)
    then show ?thesis
      using serve_passthrough_balanced [of h env r "Some user" body]
        balanced_trans [OF balanced_once balanced_trans [OF balanced_say]]
      by (simp add: e) blast
  next
    case (Inr info)
    let ?x2 = "?x1\<lparr>ex_state := set_request_info info (should_audit info) (ex_state ?x1)\<rparr>"
    have "balanced x ?x2" by (rule balanced_trans [OF balanced_once balanced_set_info])
    then show ?thesis
      using serve_passthrough_balanced [of h env r "Some user" body ?x2]
        serve_audited_balanced [of h env r "the info" user body ?x2] balanced_trans [of x ?x2]
      by (auto simp: e Inr)
  qed
qed

lemma handle_request_balanced:
  "\<exists>served y. handle_request h env r body x = Some (served, y) \<and> balanced x y"
proof -
  let ?x1 = "on_proc (once first_request (first_request_update (\<lambda>_. True))
      (''first inbound request received '' @ em_dash @ '' proxy is reachable from the cluster'')) x"
  obtain user trusted err where f: "from_request (Some (h_identity h)) (Some r) = (user, trusted, err)"
    by (metis prod_cases3)
  have b: "balanced x (http_error_reply env m c (on_proc (say l t) ?x1))" for m c l t
    by (rule balanced_trans [OF balanced_once balanced_trans [OF balanced_say balanced_http_error]])
  have "\<exists>served y. authenticated h env r user body ?x1 = Some (served, y) \<and> balanced x y"
    using authenticated_balanced [of h env r user body ?x1] balanced_trans [OF balanced_once] by blast
  with b show ?thesis
    by (simp add: handle_request_def f Let_def)
qed

lemma serve_http_accounts:
  "\<exists>served x. serve_http h env w r body p = Some (served, x) \<and>
     log_count Requests_Total (p_metrics (ex_proc x)) = log_count Requests_Total (p_metrics p) + 1 \<and>
     log_count Request_Duration_Seconds (p_metrics (ex_proc x)) =
       log_count Request_Duration_Seconds (p_metrics p) + 1 \<and>
     log_count Backend_Round_Trip_Seconds (p_metrics (ex_proc x)) =
       log_count Backend_Round_Trip_Seconds (p_metrics p) + (if rm_backend_observed (ex_state x) then 1 else 0) \<and>
     log_of Audit_Events_Total (p_metrics (ex_proc x)) = log_of Audit_Events_Total (p_metrics p) \<and>
     (\<forall>a. log_sum Streams_Active a (p_metrics (ex_proc x)) = log_sum Streams_Active a (p_metrics p))"
proof -
  obtain start p1 where t: "time_now env p = (start, p1)" by fastforce
  then have m1: "p_metrics p1 = p_metrics p" by (auto simp: time_now_def)
  let ?b = "\<lparr>inner = body, observing = True, on_close_set = False, observed_sizes = [], close_outcomes = []\<rparr>"
  let ?x0 = "\<lparr>ex_proc = p1, ex_writer = new_metric_response_writer w,
      ex_state = new_request_metric_state start r, ex_hijacked = None\<rparr>"
  obtain served x where h: "handle_request h env r ?b ?x0 = Some (served, x)" and b: "balanced ?x0 x"
    using handle_request_balanced by blast
  obtain now p2 where t2: "time_now env (ex_proc x) = (now, p2)" by fastforce
  then have m2: "p_metrics p2 = p_metrics (ex_proc x)" by (auto simp: time_now_def)
  let ?f = "record_request (make_request_labels (mw_status_code (ex_writer x)) (ex_state x)) (now - rm_start (ex_state x))"
  let ?y = "x\<lparr>ex_proc := with_metrics ?f p2\<rparr>"
  have s: "serve_http h env w r body p = Some (served, ?y)"
    by (simp add: serve_http_def t observe_read_closer_def h t2)
  have same: "log_of i (p_metrics (ex_proc x)) = log_of i (p_metrics p)" if "\<not> byte_or_backend i" for i
    using b that m1 by (auto simp: acct_def other_logs_def)
  have o: "\<not> rm_backend_observed (new_request_metric_state start r)"
    by (simp add: new_request_metric_state_def Let_def)
  have rt: "log_count Backend_Round_Trip_Seconds (p_metrics (ex_proc x)) =
      log_count Backend_Round_Trip_Seconds (p_metrics p) + (if rm_backend_observed (ex_state x) then 1 else 0)"
    using b o m1 by (auto simp: acct_def round_trips_def split: if_splits)
  have st: "log_sum Streams_Active a (p_metrics (ex_proc x)) = log_sum Streams_Active a (p_metrics p)" for a
    using b m1 by (simp add: acct_def stream_delta_def)
  have au: "log_of Audit_Events_Total (?f l) = log_of Audit_Events_Total l" for l
    by (simp add: record_request_def Let_def log_of_measure)
  have sa: "log_sum Streams_Active a (?f l) = log_sum Streams_Active a l" for a l
    by (simp add: record_request_def Let_def metric_simps)
  show ?thesis
    using same [of Requests_Total] same [of Request_Duration_Seconds] same [of Audit_Events_Total] rt st
    by (intro exI [of _ served] exI [of _ ?y])
      (simp add: s with_metrics_def m2 log_count_record(1) [unfolded log_count_log_of] log_count_log_of
        byte_or_backend_def au sa)
qed

text \<open>
  C2: the accounting of a request.  \<open>ServeHTTP\<close> comes to an end for every request, body, environment and
  backend.  It counts the request once and times it once, times the backend round trip at most once, adds
  nothing to the audit counters, and leaves the gauge of active streams as it was, for every selection of
  attributes.
\<close>

theorem request_accounting:
  "\<exists>served x. serve_http h env w r body p = Some (served, x) \<and>
     log_count Requests_Total (p_metrics (ex_proc x)) = log_count Requests_Total (p_metrics p) + 1 \<and>
     log_count Request_Duration_Seconds (p_metrics (ex_proc x)) =
       log_count Request_Duration_Seconds (p_metrics p) + 1 \<and>
     log_count Backend_Round_Trip_Seconds (p_metrics (ex_proc x)) =
       log_count Backend_Round_Trip_Seconds (p_metrics p) + (if rm_backend_observed (ex_state x) then 1 else 0) \<and>
     log_of Audit_Events_Total (p_metrics (ex_proc x)) = log_of Audit_Events_Total (p_metrics p) \<and>
     (\<forall>a. log_sum Streams_Active a (p_metrics (ex_proc x)) = log_sum Streams_Active a (p_metrics p))"
  by (rule serve_http_accounts)

end
