(* ===== verification/Handler_Paths.thy ===== *)
theory Handler_Paths
  imports Handler_Accounting
begin

text \<open>
  What a request leaves behind outside the metrics: which path it takes, what the backend is sent, what
  the client gets, which audit job is started and which temporary files remain.
\<close>

section \<open>Frames of the small steps\<close>

named_theorems frames \<open>what a step of the handler leaves alone\<close>

abbreviation xos :: "'w exchange \<Rightarrow> os_state" where
  "xos x \<equiv> p_os (ex_proc x)"

abbreviation xjobs :: "'w exchange \<Rightarrow> audit_job list" where
  "xjobs x \<equiv> p_jobs (ex_proc x)"

abbreviation xups :: "'w exchange \<Rightarrow> (http_request \<times> bytes) list" where
  "xups x \<equiv> p_upstream (ex_proc x)"

text \<open>Two exchanges that agree on the files, the jobs and what the backend was sent.\<close>

definition same_effects :: "'w exchange \<Rightarrow> 'w exchange \<Rightarrow> bool" where
  "same_effects x y \<longleftrightarrow> xos y = xos x \<and> xjobs y = xjobs x \<and> xups y = xups x"

lemma same_effects_refl [simp]: "same_effects x x"
  by (simp add: same_effects_def)

lemma same_effects_trans [trans]: "same_effects x y \<Longrightarrow> same_effects y z \<Longrightarrow> same_effects x z"
  by (simp add: same_effects_def)

lemma p_frames [frames]:
  "p_os (say l m p) = p_os p" "p_jobs (say l m p) = p_jobs p" "p_upstream (say l m p) = p_upstream p"
  "p_os (once f g m p) = p_os p" "p_jobs (once f g m p) = p_jobs p" "p_upstream (once f g m p) = p_upstream p"
  "p_os (with_metrics k p) = p_os p" "p_jobs (with_metrics k p) = p_jobs p"
  "p_upstream (with_metrics k p) = p_upstream p"
  "p_os (notify_first_backend_ok p) = p_os p" "p_jobs (notify_first_backend_ok p) = p_jobs p"
  "p_upstream (notify_first_backend_ok p) = p_upstream p"
  by (simp_all add: say_def once_def with_metrics_def notify_first_backend_ok_def)

lemma time_now_frames:
  assumes "time_now env p = (now, q)"
  shows "p_os q = p_os p" "p_jobs q = p_jobs p" "p_upstream q = p_upstream p" "p_once q = p_once p"
    "p_net q = p_net p" "p_lines q = p_lines p" "p_metrics q = p_metrics p"
  using assms by (auto simp: time_now_def)

lemma on_proc_frames [frames]:
  "ex_writer (on_proc f x) = ex_writer x" "ex_state (on_proc f x) = ex_state x"
  "ex_hijacked (on_proc f x) = ex_hijacked x" "ex_proc (on_proc f x) = f (ex_proc x)"
  by (simp_all add: on_proc_def)

lemma same_effects_on_proc:
  assumes "p_os (f (ex_proc x)) = xos x" "p_jobs (f (ex_proc x)) = xjobs x" "p_upstream (f (ex_proc x)) = xups x"
  shows "same_effects x (on_proc f x)"
  using assms by (simp add: same_effects_def frames)

lemma same_effects_http_error: "same_effects x (http_error_reply env msg code x)"
  by (simp add: http_error_reply_def same_effects_def split: prod.split)

lemma same_effects_fail: "same_effects x (fail_with env line msg code x)"
  unfolding fail_with_def
  by (rule same_effects_trans [OF same_effects_on_proc same_effects_http_error]) (simp_all add: frames)

lemma same_effects_record_backend: "same_effects x (record_backend env oc x)"
  by (auto simp: record_backend_def same_effects_def time_now_def split: prod.split)

lemma same_effects_count_reads: "same_effects x (count_reads leg b d sizes x)"
  unfolding count_reads_def by (rule same_effects_on_proc) (simp_all add: frames)

lemma same_effects_passthrough_error: "same_effects x (passthrough_error env x)"
  unfolding passthrough_error_def
  by (rule same_effects_trans [OF same_effects_record_backend same_effects_fail])

lemma same_effects_reply_header: "same_effects x (reply_header code hdr x)"
  by (simp add: reply_header_def set_writer_header_def same_effects_def Let_def)

lemma same_effects_modify:
  assumes "modify_response env resp x = (resp', sd, y)"
  shows "same_effects x y"
proof -
  have "same_effects x (snd (snd (modify_response env resp x)))"
    by (simp add: modify_response_def same_effects_def time_now_def Let_def frames split: prod.split)
  then show ?thesis by (simp add: assms)
qed

lemma same_effects_copy:
  assumes "passthrough_copy env sd b x = Some (served, y)"
  shows "same_effects x y"
  using assms
  by (auto simp: passthrough_copy_def same_effects_def time_now_def split: option.splits prod.splits)

lemma same_effects_upgrade: "same_effects x (handle_upgrade_response env out resp x)"
  using same_effects_passthrough_error [of x env]
  by (auto simp: handle_upgrade_response_def same_effects_def Let_def)

lemma same_effects_forward_1xx: "same_effects x (forward_1xx i x)"
  by (simp add: forward_1xx_def reply_header_def set_writer_header_def same_effects_def Let_def)

text \<open>What the hook leaves alone, and what it does to the client's writer.\<close>

lemma forward_1xx_frames:
  "same_effects x (fold forward_1xx is x)" "ex_state (fold forward_1xx is x) = ex_state x"
  "ex_hijacked (fold forward_1xx is x) = ex_hijacked x" "ex_proc (fold forward_1xx is x) = ex_proc x"
proof -
  have step: "ex_proc (forward_1xx i x) = ex_proc x" "ex_state (forward_1xx i x) = ex_state x"
    "ex_hijacked (forward_1xx i x) = ex_hijacked x" for i and x :: "'a exchange"
    by (simp_all add: forward_1xx_def reply_header_def set_writer_header_def Let_def)
  show p: "ex_proc (fold forward_1xx is x) = ex_proc x" by (induction "is" arbitrary: x) (simp_all add: step)
  then show "same_effects x (fold forward_1xx is x)" by (simp add: same_effects_def)
  show "ex_state (fold forward_1xx is x) = ex_state x" by (induction "is" arbitrary: x) (simp_all add: step)
  show "ex_hijacked (fold forward_1xx is x) = ex_hijacked x" by (induction "is" arbitrary: x) (simp_all add: step)
qed

lemma round_trip_effects:
  assumes "round_trip h trace req body x = (b, res, y)" "trace = no_trace \<or> trace = forward_1xx"
  shows "xos y = xos x" "xjobs y = xjobs x" "xups y = xups x @ [(req, script_content (inner body))]"
    "ex_state y = ex_state x" "ex_hijacked y = ex_hijacked x"
    "res = snd (h_transport h req (inner body))" "p_once (ex_proc y) = p_once (ex_proc x)"
    "trace = no_trace \<Longrightarrow> ex_writer y = ex_writer x"
proof -
  let ?x = "on_proc (\<lambda>p. p\<lparr>p_upstream := p_upstream p @ [(req, script_content (inner body))]\<rparr>) x"
  have y: "y = fold trace (interim_responses (fst (h_transport h req (inner body)))) ?x"
    and r: "res = snd (h_transport h req (inner body))"
    using assms(1) by (auto simp: round_trip_def split: prod.splits)
  show "res = snd (h_transport h req (inner body))" by (rule r)
  show "trace = no_trace \<Longrightarrow> ex_writer y = ex_writer x" by (simp add: y frames)
  show "xos y = xos x" "xjobs y = xjobs x" "xups y = xups x @ [(req, script_content (inner body))]"
    "ex_state y = ex_state x" "ex_hijacked y = ex_hijacked x" "p_once (ex_proc y) = p_once (ex_proc x)"
    using assms(2) by (auto simp: y forward_1xx_frames frames)
qed

section \<open>What the client gets\<close>

definition fresh_client :: "header \<Rightarrow> client_writer" where
  "fresh_client hdr =
     \<lparr>cw_header = hdr, cw_informational = [], cw_status = None, cw_sent_header = [], cw_body = []\<rparr>"

text \<open>
  Only the informational responses \<open>is\<close> have gone out.  The metric writer has recorded the first status it was
  given, and that stays recorded; once an informational response has gone out, the header map is empty.
\<close>

definition recorded_status :: "(int \<times> header) list \<Rightarrow> int \<Rightarrow> int" where
  "recorded_status is code = (case is of [] \<Rightarrow> code | i # _ \<Rightarrow> fst i)"

definition base_header :: "(int \<times> header) list \<Rightarrow> 'w exchange \<Rightarrow> header" where
  "base_header is x = (if is = [] then cw_header (mw_writer (ex_writer x)) else [])"

definition awaiting :: "(int \<times> header) list \<Rightarrow> 'w exchange \<Rightarrow> bool" where
  "awaiting is x \<longleftrightarrow>
     mw_status_code (ex_writer x) = recorded_status is 0 \<and> list_all (\<lambda>i. informational (fst i)) is \<and>
     cw_informational (mw_writer (ex_writer x)) = map fst is \<and>
     cw_status (mw_writer (ex_writer x)) = None \<and> cw_body (mw_writer (ex_writer x)) = []"

abbreviation unanswered :: "'w exchange \<Rightarrow> bool" where
  "unanswered \<equiv> awaiting []"

lemma recorded_status_simps [simp]:
  "recorded_status [] code = code" "recorded_status (i # is) code = fst i"
  by (simp_all add: recorded_status_def)

lemma awaiting_forward:
  assumes "awaiting is x" "informational (fst i)"
  shows "awaiting (is @ [i]) (forward_1xx i x)" "cw_header (mw_writer (ex_writer (forward_1xx i x))) = []"
proof -
  have n: "fst i \<noteq> 0" using assms(2) by (auto simp: informational_def)
  have m: "recorded_status is 0 \<noteq> 0" if "is \<noteq> []"
    using that assms(1) by (cases "is") (auto simp: awaiting_def informational_def)
  show "awaiting (is @ [i]) (forward_1xx i x)"
    using assms n m
    by (cases "is")
      (simp_all add: awaiting_def forward_1xx_def reply_header_def set_writer_header_def write_header_def
        cw_write_header_def Let_def)
  show "cw_header (mw_writer (ex_writer (forward_1xx i x))) = []"
    by (simp add: forward_1xx_def set_writer_header_def)
qed

lemma awaiting_fold:
  "awaiting js x \<Longrightarrow> list_all (\<lambda>i. informational (fst i)) is \<Longrightarrow>
     awaiting (js @ is) (fold forward_1xx is x) \<and>
     cw_header (mw_writer (ex_writer (fold forward_1xx is x))) = base_header is x"
proof (induction "is" arbitrary: js x)
  case Nil
  then show ?case by (simp add: base_header_def)
next
  case (Cons i "is")
  have i: "informational (fst i)" "list_all (\<lambda>i. informational (fst i)) is" using Cons.prems(2) by simp_all
  note f = awaiting_forward [OF Cons.prems(1) i(1)]
  show ?case using Cons.IH [OF f(1) i(2)] f(2) by (simp add: base_header_def)
qed

lemma interim_informational: "list_all (\<lambda>i. informational (fst i)) (interim_responses events)"
  by (auto simp: interim_responses_def list_all_iff split: trip_event.splits if_splits)

text \<open>After the passthrough round trip the client has the informational responses, and nothing else.\<close>

lemma passthrough_awaiting:
  assumes "round_trip h forward_1xx req body x = (b, res, y)" "unanswered x"
  defines "is \<equiv> interim_responses (fst (h_transport h req (inner body)))"
  shows "awaiting is y" "cw_header (mw_writer (ex_writer y)) = base_header is x"
proof -
  let ?x = "on_proc (\<lambda>p. p\<lparr>p_upstream := p_upstream p @ [(req, script_content (inner body))]\<rparr>) x"
  have y: "y = fold forward_1xx is ?x"
    using assms(1) by (auto simp: round_trip_def is_def split: prod.splits)
  have "awaiting [] ?x" using assms(2) by (simp add: awaiting_def frames)
  from awaiting_fold [OF this interim_informational] show "awaiting is y" "cw_header (mw_writer (ex_writer y)) = base_header is x"
    unfolding y is_def by (simp_all add: base_header_def frames)
qed

text \<open>The status and a text, as far as the connection took it, after the informational responses \<open>is\<close>.\<close>

definition answered_after :: "(int \<times> header) list \<Rightarrow> int \<Rightarrow> string \<Rightarrow> 'w exchange \<Rightarrow> bool" where
  "answered_after is code msg x \<longleftrightarrow>
     mw_status_code (ex_writer x) = recorded_status is code \<and>
     cw_informational (mw_writer (ex_writer x)) = map fst is \<and>
     cw_status (mw_writer (ex_writer x)) = Some code \<and>
     prefix (cw_body (mw_writer (ex_writer x))) (msg @ [CHR 0x0A])"

abbreviation answered :: "int \<Rightarrow> string \<Rightarrow> 'w exchange \<Rightarrow> bool" where
  "answered \<equiv> answered_after []"

abbreviation bad_gateway_after :: "(int \<times> header) list \<Rightarrow> 'w exchange \<Rightarrow> bool" where
  "bad_gateway_after is \<equiv> answered_after is 502 ''Bad Gateway''"

abbreviation bad_gateway :: "'w exchange \<Rightarrow> bool" where
  "bad_gateway \<equiv> bad_gateway_after []"

lemma answered_http_error:
  assumes "awaiting is x" "code \<noteq> 0" "\<not> informational code"
  shows "answered_after is code msg (http_error_reply env msg code x)"
proof -
  have m: "is \<noteq> [] \<Longrightarrow> recorded_status is 0 \<noteq> 0 \<and> recorded_status is code = recorded_status is 0"
    using assms(1) by (cases "is") (auto simp: awaiting_def informational_def)
  show ?thesis
    using assms m take_is_prefix [of "env_accepts env 0" "msg @ [CHR 0x0A]"]
    by (cases "is = []")
      (auto simp: awaiting_def answered_after_def http_error_reply_def http_error_def write_header_def write_body_def
        cw_write_def cw_write_header_def Let_def min_def split: prod.splits simp del: take_append)
qed

lemma awaiting_frames:
  "awaiting is (on_proc f x) = awaiting is x"
  "awaiting is (count_reads leg b d sizes x) = awaiting is x"
  "awaiting is (record_backend env oc x) = awaiting is x"
  by (simp_all add: awaiting_def frames count_reads_def record_backend_def split: prod.split)

lemma answered_fail:
  assumes "awaiting is x" "code \<noteq> 0" "\<not> informational code"
  shows "answered_after is code msg (fail_with env line msg code x)"
  unfolding fail_with_def by (rule answered_http_error) (use assms in \<open>simp_all add: awaiting_frames\<close>)

lemma bad_gateway_passthrough: "awaiting is x \<Longrightarrow> bad_gateway_after is (passthrough_error env x)"
  unfolding passthrough_error_def by (rule answered_fail) (simp_all add: awaiting_frames)

text \<open>
  A backend's final response handed to the client, after the informational responses \<open>is\<close>: its status and
  header, and its body up to the point where the connection gave up or, when \<open>cut_off\<close>, the body could not be read.
\<close>

definition final_status :: "int \<Rightarrow> bool" where
  "final_status code \<longleftrightarrow> code \<noteq> 0 \<and> code \<noteq> 101 \<and> \<not> informational code"

definition relayed ::
  "'x handler_env \<Rightarrow> (int \<times> header) list \<Rightarrow> int \<Rightarrow> header \<Rightarrow> bytes \<Rightarrow> bool \<Rightarrow> 'w exchange \<Rightarrow> 'w exchange \<Rightarrow> bool" where
  "relayed env is code hdr data cut_off x y \<longleftrightarrow>
     mw_status_code (ex_writer y) = recorded_status is code \<and>
     cw_informational (mw_writer (ex_writer y)) = map fst is \<and> cw_status (mw_writer (ex_writer y)) = Some code \<and>
     cw_sent_header (mw_writer (ex_writer y)) = copy_headers (base_header is x) hdr \<and>
     prefix (cw_body (mw_writer (ex_writer y))) data \<and>
     (cw_body (mw_writer (ex_writer y)) = data \<or> cut_off \<or> (\<exists>k. env_accepts env k < copy_buffer_size))"

lemma reply_header_written:
  assumes "awaiting is x" "final_status code"
  shows "header_written (ex_writer (reply_header code hdr x))"
    "mw_status_code (ex_writer (reply_header code hdr x)) = recorded_status is code"
    "cw_informational (mw_writer (ex_writer (reply_header code hdr x))) = map fst is"
    "cw_status (mw_writer (ex_writer (reply_header code hdr x))) = Some code"
    "cw_sent_header (mw_writer (ex_writer (reply_header code hdr x))) =
       copy_headers (cw_header (mw_writer (ex_writer x))) hdr"
    "cw_body (mw_writer (ex_writer (reply_header code hdr x))) = []"
proof -
  have m: "is \<noteq> [] \<Longrightarrow> recorded_status is 0 \<noteq> 0 \<and> recorded_status is code = recorded_status is 0"
    using assms(1) by (cases "is") (auto simp: awaiting_def informational_def)
  note d = reply_header_def set_writer_header_def write_header_def cw_write_header_def header_written_def
    final_status_def awaiting_def Let_def
  show "header_written (ex_writer (reply_header code hdr x))"
    "mw_status_code (ex_writer (reply_header code hdr x)) = recorded_status is code"
    "cw_informational (mw_writer (ex_writer (reply_header code hdr x))) = map fst is"
    "cw_status (mw_writer (ex_writer (reply_header code hdr x))) = Some code"
    "cw_sent_header (mw_writer (ex_writer (reply_header code hdr x))) =
       copy_headers (cw_header (mw_writer (ex_writer x))) hdr"
    "cw_body (mw_writer (ex_writer (reply_header code hdr x))) = []"
    using assms m by (cases "is = []"; auto simp: d)+
qed

lemma add_body_informational [simp]:
  "cw_informational (mw_writer (add_body a w)) = cw_informational (mw_writer w)"
  by (simp add: add_body_def)

lemma relayed_copy:
  assumes "copy_outcome (env_accepts env) data ending (ex_writer (reply_header code hdr x'), log) res (ex_writer y, log')"
    and "awaiting is x'" "final_status code" "cw_header (mw_writer (ex_writer x')) = base_header is x"
    and "prefix data whole" "data = whole \<or> cut_off"
  shows "relayed env is code hdr whole cut_off x y"
proof -
  obtain bs where bs: "ex_writer y = add_body bs (ex_writer (reply_header code hdr x'))" "prefix bs data"
    "case res of Copied \<Rightarrow> bs = data \<and> ending = EOF | Copy_Read_Error \<Rightarrow> bs = data \<and> ending = Read_Failed
       | Copy_Write_Error \<Rightarrow> \<exists>k. env_accepts env k < copy_buffer_size"
    using assms(1) by (auto simp: copy_outcome_def)
  have "prefix bs whole" using bs(2) assms(5) by (rule prefix_order.trans)
  then show ?thesis
    using bs reply_header_written [OF assms(2,3), of hdr] assms(4,6) unfolding relayed_def by (cases res) auto
qed

section \<open>The passthrough path\<close>

definition proxied_header :: "body_script http_response \<Rightarrow> header" where
  "proxied_header resp =
     (if rs_status_code resp = 101 then rs_header resp else remove_hop_by_hop_headers (rs_header resp))"

text \<open>
  \<open>ReverseProxy\<close> sends no body for a request of length zero.  The contract: no file and no job; one request at
  the backend, or none when the client's upgrade request is malformed; and for the client, after the
  informational responses of the backend, either a 502, a connection handed over, or the backend's response.
\<close>

definition sent_body :: "http_request \<Rightarrow> body_script \<Rightarrow> body_script" where
  "sent_body r body = (if rq_content_length r = 0 then [] else body)"

definition upgrade_agreed :: "'x handler_env \<Rightarrow> http_request \<Rightarrow> body_script http_response \<Rightarrow> bool" where
  "upgrade_agreed env out resp \<longleftrightarrow>
     ascii_print (upgrade_type (rs_header resp)) \<and>
     to_lower (upgrade_type (rq_header out)) = to_lower (upgrade_type (rs_header resp)) \<and> env_hijackable env"

definition passthrough_outcome ::
  "('x, 'e) handler \<Rightarrow> 'x handler_env \<Rightarrow> http_request \<Rightarrow> user_info \<Rightarrow> body_script \<Rightarrow> 'w exchange \<Rightarrow>
     served \<Rightarrow> 'w exchange \<Rightarrow> bool" where
  "passthrough_outcome h env r user body x served y \<longleftrightarrow>
     xos y = xos x \<and> xjobs y = xjobs x \<and>
     (case passthrough_request (h_backend_url h) (h_backend_identity h) (Some user) r of
        None \<Rightarrow> served = Returned \<and> xups y = xups x \<and> bad_gateway y
      | Some out \<Rightarrow>
          (let sent = sent_body r body;
               is = interim_responses (fst (h_transport h out sent))
           in xups y = xups x @ [(out, script_content sent)] \<and>
              (case snd (h_transport h out sent) of
                 Inl _ \<Rightarrow> served = Returned \<and> bad_gateway_after is y
               | Inr resp \<Rightarrow>
                   if rs_status_code resp = 101
                   then served = Returned \<and>
                        (if upgrade_agreed env out resp
                         then ex_hijacked y = Some (copy_headers (base_header is x) (rs_header resp)) \<and> awaiting is y
                         else bad_gateway_after is y)
                   else (final_status (rs_status_code resp) \<longrightarrow>
                        relayed env is (rs_status_code resp) (proxied_header resp) (script_content (rs_body resp)) False x y \<and>
                        (case served of
                           Returned \<Rightarrow> script_ending (rs_body resp) = EOF
                         | Aborted \<Rightarrow> script_ending (rs_body resp) = Read_Failed \<or>
                             (\<exists>k. env_accepts env k < copy_buffer_size))))))"

lemma modify_writer:
  assumes "modify_response env resp x = (resp', sd, y)"
  shows "ex_writer y = ex_writer x"
  using arg_cong [OF assms, of "\<lambda>t. ex_writer (snd (snd t))"]
  by (simp add: modify_response_def Let_def frames split: prod.splits)

lemma passthrough_copy_relayed:
  assumes "passthrough_copy env sd b (reply_header code hdr x') = Some (served, y)" "awaiting is x'" "final_status code"
    and "cw_header (mw_writer (ex_writer x')) = base_header is x"
  shows "relayed env is code hdr (script_content (resp_script b)) False x y"
    "case served of Returned \<Rightarrow> script_ending (resp_script b) = EOF
        | Aborted \<Rightarrow> script_ending (resp_script b) = Read_Failed \<or> (\<exists>k. env_accepts env k < copy_buffer_size)"
proof -
  let ?x = "reply_header code hdr x'"
  obtain res b' st where c: "copy_loop resp_read (env_accepts env) (ex_state ?x) b (ex_writer ?x, p_metrics (ex_proc ?x)) =
      Some (res, b', st)"
    and o: "copy_outcome (env_accepts env) (script_content (resp_script b)) (script_ending (resp_script b))
      (ex_writer ?x, p_metrics (ex_proc ?x)) res st"
    using resp.copy_loop_outcome [OF reply_header_written(1) [OF assms(2,3), of hdr], of "env_accepts env" "ex_state ?x" b
        "p_metrics (ex_proc ?x)"] by blast
  obtain w log where st: "st = (w, log)" by fastforce
  have y: "ex_writer y = w" "served = (if res = Copied then Returned else Aborted)"
    using assms(1) by (auto simp: passthrough_copy_def c st split: prod.splits)
  show "relayed env is code hdr (script_content (resp_script b)) False x y"
    by (rule relayed_copy [OF _ assms(2,3,4) prefix_order.refl]) (use o in \<open>simp_all add: st y\<close>)
  show "case served of Returned \<Rightarrow> script_ending (resp_script b) = EOF
        | Aborted \<Rightarrow> script_ending (resp_script b) = Read_Failed \<or> (\<exists>k. env_accepts env k < copy_buffer_size)"
    using o y(2) by (cases res) (auto simp: copy_outcome_def)
qed

lemma serve_passthrough_outcome:
  assumes s: "serve_passthrough h env r (Some user) body x = Some (served, y)" and u: "unanswered x"
  shows "passthrough_outcome h env r user (inner body) x served y"
proof (cases "passthrough_request (h_backend_url h) (h_backend_identity h) (Some user) r")
  case None
  then show ?thesis
    using s same_effects_passthrough_error [of x env] bad_gateway_passthrough [OF u]
    by (auto simp: serve_passthrough_def passthrough_outcome_def same_effects_def)
next
  case (Some out)
  let ?body = "if rq_content_length r = 0 then body\<lparr>inner := []\<rparr> else body"
  let ?sent = "sent_body r (inner body)"
  define ivs where "ivs = interim_responses (fst (h_transport h out ?sent))"
  obtain b1 res x1 where rt: "round_trip h forward_1xx out ?body x = (b1, res, x1)" by (metis prod_cases3)
  let ?x2 = "count_reads leg_client (rm_streaming (ex_state x)) direction_read (observed_sizes b1) x1"
  have sent: "inner ?body = ?sent" by (simp add: sent_body_def)
  note re = round_trip_effects [OF rt disjI2 [OF refl], unfolded sent]
  note w = passthrough_awaiting [OF rt u, unfolded sent, folded ivs_def]
  have u2: "awaiting ivs ?x2" using w(1) by (simp add: awaiting_frames)
  have h2: "cw_header (mw_writer (ex_writer ?x2)) = base_header ivs x" using w(2) by (simp add: count_reads_def frames)
  have eff: "xos y = xos x \<and> xjobs y = xjobs x \<and> xups y = xups x @ [(out, script_content ?sent)]"
    if "same_effects ?x2 y" for y
    using that same_effects_count_reads [of x1 leg_client "rm_streaming (ex_state x)" direction_read "observed_sizes b1"] re
    by (simp add: same_effects_def)
  have ss: "(case res of
        Inl e \<Rightarrow> Some (Returned, passthrough_error env ?x2)
      | Inr resp \<Rightarrow>
          (case modify_response env \<lparr>rs_status_code = rs_status_code resp, rs_proto = rs_proto resp,
                   rs_header = proxied_header resp, rs_body = Raw_Body (rs_body resp)\<rparr> ?x2 of
             (resp, sd, x) \<Rightarrow>
               if rs_status_code resp = 101 then Some (Returned, handle_upgrade_response env out resp x)
               else passthrough_copy env sd (rs_body resp) (reply_header (rs_status_code resp) (rs_header resp) x)))
      = Some (served, y)"
    using s unfolding serve_passthrough_def Some option.case Let_def rt prod.case proxied_header_def by simp
  note outcome = passthrough_outcome_def Some Let_def ivs_def [symmetric]
  show ?thesis
  proof (cases res)
    case (Inl a)
    then have y: "served = Returned" "y = passthrough_error env ?x2" using ss by simp_all
    show ?thesis
      using eff [OF same_effects_passthrough_error [of ?x2 env]] bad_gateway_passthrough [OF u2, of env] re(6) [symmetric, unfolded Inl]
      by (simp add: outcome y)
  next
    case (Inr rsp)
    let ?resp = "\<lparr>rs_status_code = rs_status_code rsp, rs_proto = rs_proto rsp, rs_header = proxied_header rsp,
        rs_body = Raw_Body (rs_body rsp)\<rparr>"
    obtain resp' sd x3 where m: "modify_response env ?resp ?x2 = (resp', sd, x3)" by (metis prod_cases3)
    note mr = modify_response_acct [OF m, of "rs_body rsp", simplified]
    have w3: "ex_writer x3 = ex_writer ?x2" by (rule modify_writer [OF m])
    then have u3: "awaiting ivs x3" using u2 by (simp add: awaiting_def)
    have h3: "cw_header (mw_writer (ex_writer x3)) = base_header ivs x" using w3 h2 by simp
    have e3: "same_effects ?x2 x3" by (rule same_effects_modify [OF m])
    note out' = ss [unfolded Inr sum.case m prod.case mr(3,4)]
    show ?thesis
    proof (cases "rs_status_code rsp = 101")
      case True
      then have y: "served = Returned" "y = handle_upgrade_response env out resp' x3"
        using out' by simp_all
      have "resp_writable (rs_body resp')" using mr(6) True by (simp add: resp_writable_def)
      then have "y = (if upgrade_agreed env out rsp
          then x3\<lparr>ex_hijacked := Some (copy_headers (base_header ivs x) (rs_header rsp))\<rparr>
          else passthrough_error env x3)"
        using mr(4) True by (simp add: y handle_upgrade_response_def upgrade_agreed_def h3 Let_def proxied_header_def)
      then have "if upgrade_agreed env out rsp
          then ex_hijacked y = Some (copy_headers (base_header ivs x) (rs_header rsp)) \<and> awaiting ivs y
          else bad_gateway_after ivs y"
        using bad_gateway_passthrough [OF u3, of env] u3 by (simp add: awaiting_def)
      moreover have "same_effects ?x2 y"
        unfolding y(2) by (rule same_effects_trans [OF e3 same_effects_upgrade])
      ultimately show ?thesis
        using True eff [of y] re(6) [symmetric, unfolded Inr] by (simp add: outcome y(1))
    next
      case False
      then have c: "passthrough_copy env sd (rs_body resp') (reply_header (rs_status_code rsp) (proxied_header rsp) x3)
          = Some (served, y)"
        using out' by simp
      note ee = eff [OF same_effects_trans [OF e3 same_effects_trans [OF same_effects_reply_header same_effects_copy [OF c]]]]
      have "final_status (rs_status_code rsp) \<longrightarrow>
          relayed env ivs (rs_status_code rsp) (proxied_header rsp) (script_content (rs_body rsp)) False x y \<and>
          (case served of Returned \<Rightarrow> script_ending (rs_body rsp) = EOF
             | Aborted \<Rightarrow> script_ending (rs_body rsp) = Read_Failed \<or> (\<exists>k. env_accepts env k < copy_buffer_size))"
        using passthrough_copy_relayed [OF c u3 _ h3, unfolded mr(5)] by blast
      with False ee re(6) [symmetric, unfolded Inr] show ?thesis by (simp add: outcome)
    qed
  qed
qed

end
