(* ===== verification/Handler_Audit.thy ===== *)
theory Handler_Audit
  imports Handler_Paths
begin

text \<open>
  The audited path from end to end, and the choice of the path.  Every way out of \<open>serveAudited\<close> is
  described by \<open>audited_outcome\<close>: what the backend was offered, what the client gets and which audit job is
  started; \<open>tidy\<close> says what becomes of the temporary files.
\<close>

section \<open>Causes of failure\<close>

text \<open>\<open>os.CreateTemp\<close> finds a name at once: no file has one of its names, and no name comes twice.\<close>

definition temp_base :: "'x handler_env \<Rightarrow> string \<Rightarrow> string" where
  "temp_base env dir =
     join_path (if dir = '''' then default_temp_dir (env_os env) else dir) ''audit-pass-through-body-''"

definition free_names :: "'x handler_env \<Rightarrow> string \<Rightarrow> (string \<rightharpoonup> bytes) \<Rightarrow> bool" where
  "free_names env dir F \<longleftrightarrow>
     inj (random_name (env_os env)) \<and> (\<forall>t. F (temp_base env dir @ random_name (env_os env) t) = None)"

definition trouble :: "('x, 'e) handler \<Rightarrow> 'x handler_env \<Rightarrow> (string \<rightharpoonup> bytes) \<Rightarrow> bool" where
  "trouble h env F \<longleftrightarrow>
     (\<exists>op t. io_fails (env_os env) op t) \<or> int (alloc_max (env_os env)) < sint (h_capture_max h) \<or>
     \<not> free_names env (h_temp_dir h) F"

text \<open>A request gives up its temporary files when the allocation of a capture buffer panics.\<close>

definition gave_up :: "('x, 'e) handler \<Rightarrow> 'x handler_env \<Rightarrow> served \<Rightarrow> bool" where
  "gave_up h env served \<longleftrightarrow> served = Aborted \<and> int (alloc_max (env_os env)) < sint (h_capture_max h)"

text \<open>The body that a reopened file offers: the whole content, or a beginning of it and then an error.\<close>

definition offered :: "'x handler_env \<Rightarrow> bytes \<Rightarrow> body_script \<Rightarrow> bool" where
  "offered env content sent \<longleftrightarrow>
     sent = [(content, None)] \<or>
     (\<exists>t. io_fails (env_os env) Op_Read t \<and>
        sent = [(take (short_read (env_os env) t) content, None), ([], Some Read_Failed)])"

lemma offered_reopened: "offered env content (reopened (env_os env) s content)"
  by (auto simp: offered_def reopened_def)

text \<open>A spooled body that represents \<open>data\<close> under the capture limit.\<close>

definition represents :: "('x, 'e) handler \<Rightarrow> spooled_body \<Rightarrow> bytes \<Rightarrow> bool" where
  "represents h b data \<longleftrightarrow>
     captured b = take (nat (sint (h_capture_max h))) data \<and> sp_size b = of_nat (length data) \<and>
     truncated b = (sint (h_capture_max h) < sint (of_nat (length data) :: int64))"

text \<open>What spooling a body does to the files, in the words of this theory.\<close>

definition stored :: "spooled_body \<Rightarrow> bytes \<Rightarrow> (string \<rightharpoonup> bytes) \<Rightarrow> (string \<rightharpoonup> bytes) \<Rightarrow> bool" where
  "stored b data F F' \<longleftrightarrow> sp_path b \<noteq> '''' \<and> F (sp_path b) = None \<and> F' = F(sp_path b \<mapsto> data)"

text \<open>When at most the name \<open>p\<close> is taken, the second try succeeds.\<close>

lemma create_temp_free:
  assumes "inj (random_name env)" "\<forall>op t. \<not> io_fails env op t"
    and taken: "\<forall>t. files s (join_path (if dir = '''' then default_temp_dir env else dir) name @ random_name env t) \<noteq> None \<longrightarrow>
      join_path (if dir = '''' then default_temp_dir env else dir) name @ random_name env t = p"
  shows "\<exists>q s'. create_temp env dir name s = (Inr q, s')"
proof -
  define b where "b = join_path (if dir = '''' then default_temp_dir env else dir) name"
  note taken = taken [folded b_def]
  let ?t = "os_ticks s"
  show ?thesis
  proof (cases "files s (b @ random_name env ?t) = None")
    case True
    then show ?thesis using create_temp_fresh [of env s dir name] assms(2) unfolding b_def by blast
  next
    case False
    then have p: "b @ random_name env ?t = p" using taken by blast
    have "random_name env (Suc ?t) \<noteq> random_name env ?t" using assms(1) by (auto dest: injD)
    then have "files s (b @ random_name env (Suc ?t)) = None" using taken p by blast
    then have "create_try env 9999 b (os_tick s) =
        (Inr (b @ random_name env (Suc ?t)), snd (create_try env 9999 b (os_tick s)))"
      using assms(2) by (simp add: create_try.simps [of env 9999] Let_def os_tick_def)
    moreover have "create_try env 10000 b s = create_try env 9999 b (os_tick s)"
      using assms(2) False by (subst create_try.simps) (auto simp: Let_def)
    ultimately show ?thesis unfolding create_temp_def b_def [symmetric] by metis
  qed
qed

text \<open>What a failed or successful \<open>spoolBody\<close> means on the audited path.\<close>

definition only_taken :: "'x handler_env \<Rightarrow> string \<Rightarrow> string \<Rightarrow> (string \<rightharpoonup> bytes) \<Rightarrow> bool" where
  "only_taken env dir p F \<longleftrightarrow>
     (\<forall>t. F (temp_base env dir @ random_name (env_os env) t) \<noteq> None \<longrightarrow>
        temp_base env dir @ random_name (env_os env) t = p)"

lemma spool_body_stored:
  assumes "spool_body (observed_read script_read) cl nb (env_os env) (Some b) (h_temp_dir h) (h_capture_max h) s =
      Some (out, b', s')"
    and free: "trouble h env F \<or> only_taken env (h_temp_dir h) p (files s)"
  shows "case out of
      Inr rb \<Rightarrow> script_ending (inner b) = EOF \<and> stored rb (script_content (inner b)) (files s) (files s') \<and>
        os_ticks s \<le> os_ticks s' \<and> represents h rb (script_content (inner b))
    | Inl e \<Rightarrow> tidy (env_os env) (gave_up h env (if e = Makeslice_Panic then Aborted else Returned)) s s' \<and>
        (script_ending (inner b) = Read_Failed \<and> e \<noteq> Makeslice_Panic \<or> trouble h env F)"
proof -
  note o = spool_body_outcomeD [OF assms(1), unfolded spool_outcome_def]
  show ?thesis
  proof (cases out)
    case (Inr rb)
    then show ?thesis using o by (simp add: stored_def represents_def)
  next
    case (Inl e)
    have "trouble h env F" if "e = Create_Temp_Error x" for x
    proof (rule ccontr)
      assume n: "\<not> trouble h env F"
      then have "\<exists>q s'. create_temp (env_os env) (h_temp_dir h) ''audit-pass-through-body-'' s = (Inr q, s')"
        using create_temp_free [of "env_os env" s "h_temp_dir h" "''audit-pass-through-body-''" p] free
        by (auto simp: trouble_def free_names_def temp_base_def only_taken_def)
      then show False using o Inl that by auto
    qed
    moreover have "tidy (env_os env) (gave_up h env (if e = Makeslice_Panic then Aborted else Returned)) s s'"
    proof (cases "e = Makeslice_Panic")
      case True
      then show ?thesis using o Inl by (auto simp: tidy_def gave_up_def)
    next
      case False
      then have "discarded (env_os env) s s'" "os_ticks s \<le> os_ticks s'" using o Inl by (cases e; simp)+
      from discarded_tidy [OF this] show ?thesis by (rule tidy_weaken) simp
    qed
    ultimately show ?thesis
      using o Inl by (cases e) (auto simp: trouble_def)
  qed
qed

section \<open>Steps of the audited path\<close>

lemma trouble_io: "io_fails (env_os env) op t \<Longrightarrow> trouble h env F"
  by (auto simp: trouble_def)

lemma cleanup_body_effects:
  shows "xjobs (cleanup_body env line b x) = xjobs x" "xups (cleanup_body env line b x) = xups x"
    "ex_writer (cleanup_body env line b x) = ex_writer x"
    "sp_path b \<noteq> '''' \<Longrightarrow> \<exists>r. remove_file (env_os env) (sp_path b) (xos x) = (r, xos (cleanup_body env line b x))"
proof -
  obtain res s where c: "spooled_cleanup (env_os env) (Some b) (xos x) = (res, s)" by fastforce
  have e: "cleanup_body env line b x =
      on_proc (\<lambda>p. (case res of Inl _ \<Rightarrow> say Log_Error line | Inr _ \<Rightarrow> id) (p\<lparr>p_os := s\<rparr>)) x"
    by (simp add: cleanup_body_def c)
  show "xjobs (cleanup_body env line b x) = xjobs x" "xups (cleanup_body env line b x) = xups x"
    "ex_writer (cleanup_body env line b x) = ex_writer x"
    by (cases res; simp add: e frames)+
  have "xos (cleanup_body env line b x) = s" by (cases res) (simp_all add: e frames)
  then show "sp_path b \<noteq> '''' \<Longrightarrow> \<exists>r. remove_file (env_os env) (sp_path b) (xos x) = (r, xos (cleanup_body env line b x))"
    using c by (simp add: spooled_cleanup_def)
qed

text \<open>A spooled body that is stored, used and cleaned up.\<close>

lemma cleanup_tidy:
  assumes "stored b data (files s) (files s1)" "os_ticks s \<le> os_ticks s1" "tidy (env_os env) g s1 (xos x)"
  shows "tidy (env_os env) g s (xos (cleanup_body env line b x))"
proof -
  have st: "sp_path b \<noteq> ''''" "files s (sp_path b) = None" "files s1 = (files s)(sp_path b \<mapsto> data)"
    using assms(1) by (simp_all add: stored_def)
  obtain r where "remove_file (env_os env) (sp_path b) (xos x) = (r, xos (cleanup_body env line b x))"
    using cleanup_body_effects(4) [OF st(1)] by blast
  from tidy_removed [OF st(2,3) assms(2,3) this] show ?thesis .
qed

lemma spooled_open_stored:
  assumes "spooled_open (env_os env) b s = (c, s')" "files s (sp_path b) = Some data"
  shows "files s' = files s" "case c of Inr d \<Rightarrow> d = data | Inl _ \<Rightarrow> trouble h env F" "os_ticks s' = Suc (os_ticks s)"
  using assms files_open [of "env_os env" "sp_path b" s] os_ticks_steps(4) [of "env_os env" "sp_path b" s]
  by (auto simp: spooled_open_def open_file_def trouble_def split: if_splits)

lemma fail_frames [frames]:
  "xos (fail_with env line msg code x) = xos x" "xjobs (fail_with env line msg code x) = xjobs x"
  "xups (fail_with env line msg code x) = xups x"
  using same_effects_fail [of x env line msg code] by (simp_all add: same_effects_def)

lemma count_frames [frames]:
  "xos (count_reads leg b d sizes x) = xos x" "xjobs (count_reads leg b d sizes x) = xjobs x"
  "xups (count_reads leg b d sizes x) = xups x" "ex_writer (count_reads leg b d sizes x) = ex_writer x"
  by (simp_all add: count_reads_def on_proc_def with_metrics_def)

lemma record_frames [frames]:
  "xos (record_backend env oc x) = xos x" "xjobs (record_backend env oc x) = xjobs x"
  "xups (record_backend env oc x) = xups x"
  using same_effects_record_backend [of x env oc] by (simp_all add: same_effects_def)

text \<open>The job that an exchange may start, and what the client is relayed with it.\<close>

definition finished_with ::
  "'x handler_env \<Rightarrow> audit_job \<Rightarrow> header \<Rightarrow> bytes \<Rightarrow> 'w exchange \<Rightarrow> 'w exchange \<Rightarrow> bool" where
  "finished_with env job hdr data x y \<longleftrightarrow>
     xjobs y = xjobs x @ [job] \<and>
     (final_status (job_status_code job) \<longrightarrow>
        relayed env [] (job_status_code job) (strip_hop_by_hop_headers hdr) data
          (\<exists>t. io_fails (env_os env) Op_Read t) x y)"

lemma finish_audited_outcome:
  assumes f: "finish_audited h env job hdr x = Some (served, y)"
    and u: "unanswered x"
    and stored: "stored (job_response_body job) data (files s0) (files (xos x))" and later: "os_ticks s0 \<le> os_ticks (xos x)"
  shows "served = Returned" "xups y = xups x" "tidy (env_os env) False s0 (xos y)"
    "finished_with env job hdr data x y \<or> xjobs y = xjobs x \<and> bad_gateway y \<and> trouble h env G"
proof -
  let ?b = "job_response_body job"
  let ?cl = "cleanup_body env ''unable to remove response temp file'' ?b"
  have fd: "files (xos x) (sp_path ?b) = Some data"
    using stored by (auto simp: stored_def)
  obtain c s where o: "spooled_open (env_os env) ?b (xos x) = (c, s)" by fastforce
  note so = spooled_open_stored [OF o fd]
  let ?x1 = "on_proc (\<lambda>p. p\<lparr>p_os := s\<rparr>) x"
  note e = f [unfolded finish_audited_def o Let_def prod.case]
  have clean: "tidy (env_os env) False s0 (xos (?cl z))" if "xos z = s" for z
    by (rule cleanup_tidy [OF stored later tidy_same]) (simp_all add: that so)
  have "served = Returned \<and> xups y = xups x \<and> tidy (env_os env) False s0 (xos y) \<and>
      (finished_with env job hdr data x y \<or> xjobs y = xjobs x \<and> bad_gateway y \<and> trouble h env G)"
  proof (cases c)
    case (Inl err)
    let ?z = "fail_with env ''unable to reopen response body'' ''Bad Gateway'' 502 ?x1"
    have y: "served = Returned" "y = ?cl ?z" using e by (simp_all add: Inl)
    have z: "xos ?z = s" "xjobs ?z = xjobs x" "xups ?z = xups x" "bad_gateway ?z"
      using u by (simp_all add: frames awaiting_frames answered_fail)
    show ?thesis
      using z clean [OF z(1)] so(2) [of h G] Inl by (simp add: y cleanup_body_effects answered_after_def)
  next
    case (Inr content)
    have data: "content = data" using so(2) [of h G] Inr by simp
    let ?x2 = "reply_header (job_status_code job) (strip_hop_by_hop_headers hdr) ?x1"
    have e2: "same_effects ?x1 ?x2" by (rule same_effects_reply_header)
    let ?rd = "reopened (env_os env) s content"
    obtain res r' w log where c: "copy_loop script_read (env_accepts env) (ex_state ?x2) ?rd
        (ex_writer ?x2, p_metrics (ex_proc ?x2)) = Some (res, r', w, log)"
      using script.copy_loop_total [of "\<lambda>_. True" ?rd "env_accepts env" "ex_state ?x2"
          "(ex_writer ?x2, p_metrics (ex_proc ?x2))"] by auto
    let ?x3 = "?x2\<lparr>ex_writer := w, ex_proc := (ex_proc ?x2)\<lparr>p_metrics := log\<rparr>\<rparr>"
    let ?x4 = "if res = Copied then ?x3 else on_proc (say Log_Error ''unable to write proxied response'') ?x3"
    let ?x5 = "on_proc (\<lambda>p. p\<lparr>p_jobs := p_jobs p @ [job]\<rparr>) ?x4"
    have y: "served = Returned" "y = ?cl ?x5" using e by (simp_all add: Inr c)
    have x5: "xos ?x5 = s" "xjobs ?x5 = xjobs x @ [job]" "xups ?x5 = xups x" "ex_writer ?x5 = w"
      using e2 by (simp_all add: same_effects_def frames)
    have "relayed env [] (job_status_code job) (strip_hop_by_hop_headers hdr) data (\<exists>t. io_fails (env_os env) Op_Read t) x y"
      if fs: "final_status (job_status_code job)"
    proof -
      have u1: "unanswered ?x1" using u by (simp add: awaiting_frames)
      note hw = reply_header_written(1) [OF u1 fs, of "strip_hop_by_hop_headers hdr"]
      have o: "copy_outcome (env_accepts env) (script_content ?rd) (script_ending ?rd)
          (ex_writer ?x2, p_metrics (ex_proc ?x2)) res (w, log)"
        using script.copy_loop_outcome [OF hw, of "env_accepts env" "ex_state ?x2" ?rd "p_metrics (ex_proc ?x2)"] c by simp
      have wy: "w = ex_writer y" by (simp add: y cleanup_body_effects x5(4))
      have whole: "script_content ?rd = data \<or> (\<exists>t. io_fails (env_os env) Op_Read t)"
        using data by (auto simp: reopened_def)
      show ?thesis
        by (rule relayed_copy [OF _ u1 fs _ _ whole])
          (use o data reopened_reads(1) in \<open>simp_all add: wy base_header_def frames\<close>)
    qed
    then show ?thesis
      using x5 clean [OF x5(1)] by (simp add: y cleanup_body_effects finished_with_def)
  qed
  then show "served = Returned" "xups y = xups x" "tidy (env_os env) False s0 (xos y)"
    "finished_with env job hdr data x y \<or> xjobs y = xjobs x \<and> bad_gateway y \<and> trouble h env G" by blast+
qed

section \<open>The outcome of the audited path\<close>

definition faithful ::
  "('x, 'e) handler \<Rightarrow> http_request \<Rightarrow> request_info \<Rightarrow> user_info \<Rightarrow> bytes \<Rightarrow> instant \<Rightarrow>
     body_script http_response \<Rightarrow> audit_job \<Rightarrow> bool" where
  "faithful h r info user content received_at resp job \<longleftrightarrow>
     job_request job = r \<and> job_info job = info \<and> job_user job = user \<and> job_received_at job = received_at \<and>
     represents h (job_request_body job) content \<and>
     represents h (job_response_body job) (script_content (rs_body resp)) \<and>
     job_status_code job = rs_status_code resp"

text \<open>Once the backend has answered: a 502 or an abort for a stated reason, or one faithful job.\<close>

definition response_outcome ::
  "('x, 'e) handler \<Rightarrow> 'x handler_env \<Rightarrow> http_request \<Rightarrow> request_info \<Rightarrow> user_info \<Rightarrow> bytes \<Rightarrow> instant \<Rightarrow> bool \<Rightarrow>
     body_script http_response \<Rightarrow> 'w exchange \<Rightarrow> served \<Rightarrow> 'w exchange \<Rightarrow> bool" where
  "response_outcome h env r info user content received_at broken resp x served y \<longleftrightarrow>
     xjobs y = xjobs x \<and>
       (if served = Returned then bad_gateway y \<and> (script_ending (rs_body resp) = Read_Failed \<or> broken) else broken) \<or>
     served = Returned \<and> script_ending (rs_body resp) = EOF \<and>
       (\<exists>job. faithful h r info user content received_at resp job \<and>
          finished_with env job (rs_header resp) (script_content (rs_body resp)) x y)"

definition audited_outcome ::
  "('x, 'e) handler \<Rightarrow> 'x handler_env \<Rightarrow> http_request \<Rightarrow> request_info \<Rightarrow> user_info \<Rightarrow> body_script \<Rightarrow> instant \<Rightarrow>
     'w exchange \<Rightarrow> served \<Rightarrow> 'w exchange \<Rightarrow> bool" where
  "audited_outcome h env r info user body received_at x served y \<longleftrightarrow>
     (let content = script_content body;
          broken = trouble h env (files (xos x));
          req = build_upstream_request (h_backend_url h) (h_backend_identity h) r (of_nat (length content)) user
      in xups y = xups x \<and> xjobs y = xjobs x \<and>
           (if served = Returned
            then answered 400 ''Bad Request'' y \<and> (script_ending body = Read_Failed \<or> broken) \<or> bad_gateway y \<and> broken
            else broken) \<or>
         script_ending body = EOF \<and>
           (\<exists>sent. offered env content sent \<and> xups y = xups x @ [(req, script_content sent)] \<and>
              (case snd (h_transport h req sent) of
                 Inl _ \<Rightarrow> served = Returned \<and> xjobs y = xjobs x \<and> bad_gateway y
               | Inr resp \<Rightarrow> response_outcome h env r info user content received_at broken resp x served y)))"

text \<open>An audited request adds at most one request at the backend and at most one job.\<close>

lemma offered_prefix: "offered env content sent \<Longrightarrow> prefix (script_content sent) content"
  by (auto simp: offered_def take_is_prefix)

lemma audited_outcome_adds:
  assumes "audited_outcome h env r info user body at x served y"
  shows "xups y = xups x \<or> (\<exists>sent. prefix sent (script_content body) \<and> xups y = xups x @ [(build_upstream_request
      (h_backend_url h) (h_backend_identity h) r (of_nat (length (script_content body))) user, sent)])"
    and "xjobs y = xjobs x \<or>
      (\<exists>job resp. xjobs y = xjobs x @ [job] \<and> faithful h r info user (script_content body) at resp job)"
proof -
  show "xups y = xups x \<or> (\<exists>sent. prefix sent (script_content body) \<and> xups y = xups x @ [(build_upstream_request
      (h_backend_url h) (h_backend_identity h) r (of_nat (length (script_content body))) user, sent)])"
    using assms offered_prefix unfolding audited_outcome_def Let_def by blast
  have "xjobs y = xjobs x \<or> (\<exists>job. xjobs y = xjobs x @ [job] \<and> faithful h r info user (script_content body) at resp job)"
    if "response_outcome h env r info user (script_content body) at broken resp x served y" for broken resp
    using that unfolding response_outcome_def finished_with_def by blast
  then show "xjobs y = xjobs x \<or>
      (\<exists>job resp. xjobs y = xjobs x @ [job] \<and> faithful h r info user (script_content body) at resp job)"
    using assms unfolding audited_outcome_def Let_def
    by (elim disjE conjE exE) (simp, fastforce split: sum.splits)
qed

text \<open>Two exchanges with the same writer and jobs have the same outcomes.\<close>

lemma response_outcome_cong:
  assumes "ex_writer x' = ex_writer x" "xjobs x' = xjobs x" "ex_writer y' = ex_writer y" "xjobs y' = xjobs y"
  shows "response_outcome h env r info user content at broken resp x' served y' =
         response_outcome h env r info user content at broken resp x served y"
proof -
  have "bad_gateway y' = bad_gateway y" by (simp add: answered_after_def assms(3))
  moreover have "finished_with env job hdr d x' y' = finished_with env job hdr d x y" for job hdr d
    by (simp add: finished_with_def relayed_def base_header_def assms)
  ultimately show ?thesis by (simp add: response_outcome_def assms(2,4))
qed

lemma spool_response_outcome:
  assumes s: "spool_response h env r info user rb at resp x = Some (served, y)"
    and u: "unanswered x" and rb: "represents h rb content"
    and free: "trouble h env G \<or> only_taken env (h_temp_dir h) p (files (xos x))"
  shows "xups y = xups x" "tidy (env_os env) (gave_up h env served) (xos x) (xos y)"
    "response_outcome h env r info user content at (trouble h env G) resp x served y"
proof -
  let ?x1 = "on_proc notify_first_backend_ok x"
  obtain now q where t: "time_now env (ex_proc ?x1) = (now, q)" by fastforce
  obtain body st log where o: "observe_audited_backend_response now resp (Some (ex_state ?x1)) (p_metrics q) = (body, st, log)"
    by (metis prod_cases3)
  obtain ss where st: "st = Some ss" and body: "body = observe_read_closer (Some (rs_body resp))"
    using observe_audited_logs [OF o] by blast
  let ?x2 = "?x1\<lparr>ex_state := ss, ex_proc := q\<lparr>p_metrics := log\<rparr>\<rparr>"
  let ?b = "\<lparr>inner = rs_body resp, observing = True, on_close_set = False, observed_sizes = [], close_outcomes = []\<rparr>"
  have body': "body = Some ?b" by (simp add: body observe_read_closer_def)
  let ?nb = "\<lparr>inner = [], observing = False, on_close_set = False, observed_sizes = [], close_outcomes = []\<rparr>"
  obtain out b' os' where sp: "spool_body (observed_read script_read) (observed_close script_close) ?nb (env_os env)
      (Some ?b) (h_temp_dir h) (h_capture_max h) (p_os (ex_proc ?x2)) = Some (out, b', os')"
    using observed.spool_body_outcome by fastforce
  let ?x3 = "count_reads leg_backend False direction_read (observed_sizes b') (on_proc (\<lambda>p. p\<lparr>p_os := os'\<rparr>) ?x2)"
  have x2: "xos ?x2 = xos x" "xjobs ?x2 = xjobs x" "xups ?x2 = xups x" "ex_writer ?x2 = ex_writer x"
    using time_now_frames [OF t] by (simp_all add: frames)
  have x3: "xos ?x3 = os'" "xjobs ?x3 = xjobs x" "xups ?x3 = xups x" "ex_writer ?x3 = ex_writer x"
    using x2 by (simp_all add: frames)
  have u3: "unanswered ?x3" using u by (simp add: awaiting_def x3(4))
  note os = spool_body_stored [OF sp, where F = G and p = p, unfolded x2(1) observed.simps, OF free]
  note e = s [unfolded spool_response_def Let_def t prod.case o st option.case body' sp]
  have "xups y = xups x \<and> tidy (env_os env) (gave_up h env served) (xos x) (xos y) \<and>
      response_outcome h env r info user content at (trouble h env G) resp x served y"
  proof (cases out)
    case (Inl err)
    then have "served = Aborted \<and> err = Makeslice_Panic \<and> y = ?x3 \<or>
        err \<noteq> Makeslice_Panic \<and> served = Returned \<and>
        y = fail_with env ''unable to read upstream response body'' ''Bad Gateway'' 502 ?x3"
      using e by (cases err) simp_all
    then show ?thesis
    proof (elim disjE conjE)
      assume a: "served = Aborted" "err = Makeslice_Panic" "y = ?x3"
      then show ?thesis using os Inl x3 by (simp add: response_outcome_def)
    next
      assume a: "err \<noteq> Makeslice_Panic" "served = Returned"
        and y: "y = fail_with env ''unable to read upstream response body'' ''Bad Gateway'' 502 ?x3"
      have "bad_gateway y" unfolding y by (rule answered_fail [OF u3]) simp_all
      moreover have "xos y = os'" "xups y = xups x" "xjobs y = xjobs x"
        unfolding y by (simp_all only: fail_frames x3)
      ultimately show ?thesis using a os Inl by (auto simp: response_outcome_def)
    qed
  next
    case (Inr response_body)
    let ?job = "\<lparr>job_request = r, job_info = info, job_user = user, job_request_body = rb,
        job_response_body = response_body, job_status_code = rs_status_code resp, job_received_at = at\<rparr>"
    from e Inr have f: "finish_audited h env ?job (rs_header resp) ?x3 = Some (served, y)" by simp
    have stored: "stored (job_response_body ?job) (script_content (rs_body resp)) (files (xos x)) (files (xos ?x3))"
      and later: "os_ticks (xos x) \<le> os_ticks (xos ?x3)"
      and rep: "represents h response_body (script_content (rs_body resp))" and eof: "script_ending (rs_body resp) = EOF"
      using os Inr x3(1) by simp_all
    note fo = finish_audited_outcome(1-3) [OF f u3 stored later] finish_audited_outcome(4) [OF f u3 stored later, where G = G]
    have t: "tidy (env_os env) (gave_up h env served) (xos x) (xos y)" by (rule tidy_weaken [OF fo(3)]) simp
    have "faithful h r info user content at resp ?job" using rb rep by (simp add: faithful_def)
    with fo eof t show ?thesis
      by (auto simp: response_outcome_def finished_with_def relayed_def base_header_def x3)
  qed
  then show "xups y = xups x" "tidy (env_os env) (gave_up h env served) (xos x) (xos y)"
    "response_outcome h env r info user content at (trouble h env G) resp x served y" by blast+
qed

lemma forward_audited_outcome:
  assumes s: "forward_audited h env r info user rb at x = Some (served, y)"
    and u: "unanswered x" and rb: "represents h rb content"
    and data: "files (xos x) (sp_path rb) = Some content"
    and free: "trouble h env G \<or> only_taken env (h_temp_dir h) p (files (xos x))"
  shows "tidy (env_os env) (gave_up h env served) (xos x) (xos y)"
    "xups y = xups x \<and> xjobs y = xjobs x \<and> served = Returned \<and> bad_gateway y \<and> trouble h env G \<or>
     (let req = build_upstream_request (h_backend_url h) (h_backend_identity h) r (of_nat (length content)) user
      in \<exists>sent. offered env content sent \<and> xups y = xups x @ [(req, script_content sent)] \<and>
         (case snd (h_transport h req sent) of
            Inl _ \<Rightarrow> served = Returned \<and> xjobs y = xjobs x \<and> bad_gateway y
          | Inr resp \<Rightarrow> response_outcome h env r info user content at (trouble h env G) resp x served y))"
    (is ?out)
proof -
  obtain c s1 where o: "spooled_open (env_os env) rb (xos x) = (c, s1)" by fastforce
  note so = spooled_open_stored(1,3) [OF o data] spooled_open_stored(2) [OF o data, of h G]
  have t1: "tidy (env_os env) g (xos x) s1" for g by (rule tidy_same) (simp_all add: so)
  let ?x1 = "on_proc (\<lambda>p. p\<lparr>p_os := s1\<rparr>) x"
  have x1: "xos ?x1 = s1" "xjobs ?x1 = xjobs x" "xups ?x1 = xups x" "ex_writer ?x1 = ex_writer x"
    by (simp_all add: frames)
  then have u1: "unanswered ?x1" using u by (simp add: awaiting_def)
  note e = s [unfolded forward_audited_def o Let_def prod.case]
  have "tidy (env_os env) (gave_up h env served) (xos x) (xos y) \<and> ?out"
  proof (cases c)
    case (Inl err)
    then have y: "served = Returned" "y = fail_with env ''unable to reopen request body'' ''Bad Gateway'' 502 ?x1"
      using e by simp_all
    have "bad_gateway y" unfolding y(2) by (rule answered_fail [OF u1]) simp_all
    moreover have "xos y = s1" "xups y = xups x" "xjobs y = xjobs x" unfolding y(2) by (simp_all only: fail_frames x1)
    ultimately show ?thesis using so Inl y(1) t1 by simp
  next
    case (Inr content')
    then have content: "content' = content" using so(3) by simp
    let ?sent = "reopened (env_os env) s1 content"
    let ?ub = "\<lparr>inner = ?sent, observing = True, on_close_set = False, observed_sizes = [], close_outcomes = []\<rparr>"
    let ?req = "build_upstream_request (h_backend_url h) (h_backend_identity h) r (of_nat (length content)) user"
    have size: "sp_size rb = of_nat (length content)" using rb by (simp add: represents_def)
    obtain b1 res x2 where rt: "round_trip h no_trace ?req ?ub ?x1 = (b1, res, x2)" by (metis prod_cases3)
    note re = round_trip_effects [OF rt disjI1 [OF refl], unfolded observed.simps x1]
    let ?x3 = "count_reads leg_backend False direction_write (observed_sizes b1) x2"
    have x3: "xos ?x3 = s1" "xjobs ?x3 = xjobs x" "xups ?x3 = xups x @ [(?req, script_content ?sent)]" "ex_writer ?x3 = ex_writer x"
      using re by (simp_all add: frames)
    then have u3: "unanswered ?x3" using u by (simp add: awaiting_def)
    note e' = e [unfolded Inr content sum.case size rt prod.case]
    have tr: "snd (h_transport h ?req ?sent) = res" using re(6) by simp
    note sent_ok = offered_reopened [of env content s1]
    show ?thesis
    proof (cases res)
      case (Inl err)
      let ?x4 = "record_backend env outcome_error ?x3"
      have y: "served = Returned" "y = fail_with env ''upstream request failed'' ''Bad Gateway'' 502 ?x4"
        using e' Inl by simp_all
      have "unanswered ?x4" using u3 by (simp add: awaiting_frames)
      then have "bad_gateway y" unfolding y(2) by (rule answered_fail) simp_all
      moreover have "xos y = s1" "xups y = xups x @ [(?req, script_content ?sent)]" "xjobs y = xjobs x"
        unfolding y(2) by (simp_all only: fail_frames record_frames x3)
      ultimately show ?thesis using t1 y(1) tr Inl sent_ok by (auto simp: Let_def)
    next
      case rsp: (Inr resp)
      then have sr: "spool_response h env r info user rb at resp ?x3 = Some (served, y)" using e' by simp
      note out = spool_response_outcome [OF sr u3 rb, where G = G and p = p, unfolded x3(1) so(1), OF free]
      have "response_outcome h env r info user content at (trouble h env G) resp x served y"
        using out(3) response_outcome_cong [OF x3(4,2) refl refl] by blast
      moreover have "tidy (env_os env) (gave_up h env served) (xos x) (xos y)" using tidy_trans [OF t1 out(2)] .
      ultimately show ?thesis using out(1) tr rsp x3(3) sent_ok by (auto simp: Let_def)
    qed
  qed
  then show "tidy (env_os env) (gave_up h env served) (xos x) (xos y)" ?out by blast+
qed

lemma serve_audited_outcome:
  assumes s: "serve_audited h env r info user body x = Some (served, y)" and u: "unanswered x"
  shows "audited_outcome h env r info user (inner body) (fst (time_now env (ex_proc x))) x served y"
    "tidy (env_os env) (gave_up h env served) (xos x) (xos y)"
proof -
  obtain at q where t: "time_now env (ex_proc x) = (at, q)" by fastforce
  let ?x1 = "x\<lparr>ex_proc := q\<rparr>"
  let ?G = "files (xos x)"
  have x1: "xos ?x1 = xos x" using time_now_frames [OF t] by simp
  let ?nb = "\<lparr>inner = [], observing = False, on_close_set = False, observed_sizes = [], close_outcomes = []\<rparr>"
  obtain out b' os' where sp: "spool_body (observed_read script_read) (observed_close script_close) ?nb (env_os env)
      (Some body) (h_temp_dir h) (h_capture_max h) (p_os (ex_proc ?x1)) = Some (out, b', os')"
    using observed.spool_body_outcome by fastforce
  let ?x2 = "count_reads leg_client (rm_streaming (ex_state ?x1)) direction_read (observed_sizes b')
      (on_proc (\<lambda>p. p\<lparr>p_os := os'\<rparr>) ?x1)"
  have x2: "xos ?x2 = os'" "xjobs ?x2 = xjobs x" "xups ?x2 = xups x" "ex_writer ?x2 = ex_writer x"
    using time_now_frames [OF t] by (simp_all add: frames)
  then have u2: "unanswered ?x2" using u by (simp add: awaiting_def)
  have free1: "trouble h env ?G \<or> only_taken env (h_temp_dir h) p (files (xos x))" for p
    by (auto simp: trouble_def free_names_def only_taken_def)
  note os = spool_body_stored [OF sp, where F = ?G and p = "''''", unfolded x1, OF free1]
  note e = s [unfolded serve_audited_def Let_def t prod.case sp option.case]
  have "audited_outcome h env r info user (inner body) at x served y \<and>
      tidy (env_os env) (gave_up h env served) (xos x) (xos y)"
  proof (cases out)
    case (Inl err)
    then have "served = Aborted \<and> err = Makeslice_Panic \<and> y = ?x2 \<or>
        err \<noteq> Makeslice_Panic \<and> served = Returned \<and>
        y = fail_with env ''unable to read request body'' ''Bad Request'' 400 ?x2"
      using e by (cases err) simp_all
    then show ?thesis
    proof (elim disjE conjE)
      assume a: "served = Aborted" "err = Makeslice_Panic" "y = ?x2"
      then show ?thesis using os Inl x2 by (simp add: audited_outcome_def)
    next
      assume a: "err \<noteq> Makeslice_Panic" "served = Returned"
        and y: "y = fail_with env ''unable to read request body'' ''Bad Request'' 400 ?x2"
      have "answered 400 ''Bad Request'' y" unfolding y by (rule answered_fail [OF u2]) simp_all
      moreover have "xos y = os'" "xups y = xups x" "xjobs y = xjobs x"
        unfolding y by (simp_all only: fail_frames x2)
      ultimately show ?thesis using a os Inl by (auto simp: audited_outcome_def)
    qed
  next
    case (Inr rb)
    have eof: "script_ending (inner body) = EOF" and st: "stored rb (script_content (inner body)) ?G (files os')"
      and rep: "represents h rb (script_content (inner body))" and later: "os_ticks (xos x) \<le> os_ticks os'"
      using os Inr by simp_all
    obtain z where f: "forward_audited h env r info user rb at ?x2 = Some (served, z)"
      and y: "y = cleanup_body env ''unable to remove request temp file'' rb z"
      using e Inr by auto
    have free2: "trouble h env ?G \<or> only_taken env (h_temp_dir h) (sp_path rb) (files (xos ?x2))"
      using st unfolding x2(1) by (auto simp: trouble_def free_names_def stored_def only_taken_def)
    have data: "files (xos ?x2) (sp_path rb) = Some (script_content (inner body))"
      using st unfolding x2(1) by (simp add: stored_def)
    note fo = forward_audited_outcome [OF f u2 rep data free2, unfolded x2(1-3)]
    have z: "xjobs y = xjobs z" "xups y = xups z" "ex_writer y = ex_writer z"
      by (simp_all add: y cleanup_body_effects)
    have bg: "bad_gateway y = bad_gateway z" by (simp add: answered_after_def z)
    note ro = response_outcome_cong [OF x2(4,2) z(3,1) [symmetric]]
    have "audited_outcome h env r info user (inner body) at x served y"
      using fo(2) eof unfolding audited_outcome_def Let_def z bg ro by (elim disjE conjE) simp_all
    moreover have "tidy (env_os env) (gave_up h env served) (xos x) (xos y)"
      unfolding y by (rule cleanup_tidy [OF st later]) (use fo(1) x2(1) in simp)
    ultimately show ?thesis by blast
  qed
  then show "audited_outcome h env r info user (inner body) (fst (time_now env (ex_proc x))) x served y"
    "tidy (env_os env) (gave_up h env served) (xos x) (xos y)" by (simp_all add: t)
qed

section \<open>The choice of the path\<close>

datatype route = Reject | Pass_Through user_info | Audit user_info request_info

definition route_of :: "('x, 'e) handler \<Rightarrow> 'x handler_env \<Rightarrow> http_request \<Rightarrow> route" where
  "route_of h env r =
     (case from_request (Some (h_identity h)) (Some r) of
        (user, trusted, err) \<Rightarrow>
          if err \<noteq> None \<or> requires_verified_headers (Some (h_identity h)) \<and> \<not> trusted then Reject
          else case env_resolve env r of
                 Inl _ \<Rightarrow> Pass_Through user
               | Inr None \<Rightarrow> Pass_Through user
               | Inr (Some info) \<Rightarrow> if should_audit (Some info) then Audit user info else Pass_Through user)"

text \<open>The exchange at the moment \<open>ServeHTTP\<close> has set up its metric state and writer.\<close>

definition arrival :: "'x handler_env \<Rightarrow> header \<Rightarrow> http_request \<Rightarrow> 'w process \<Rightarrow> 'w exchange" where
  "arrival env hdr r p =
     \<lparr>ex_proc = snd (time_now env p), ex_writer = new_metric_response_writer (fresh_client hdr),
      ex_state = new_request_metric_state (fst (time_now env p)) r, ex_hijacked = None\<rparr>"

definition routed ::
  "('x, 'e) handler \<Rightarrow> 'x handler_env \<Rightarrow> http_request \<Rightarrow> body_script \<Rightarrow> 'w exchange \<Rightarrow> served \<Rightarrow> 'w exchange \<Rightarrow> bool" where
  "routed h env r body x served y \<longleftrightarrow>
     (case route_of h env r of
        Reject \<Rightarrow> served = Returned \<and> answered 401 ''Unauthorized'' y \<and> same_effects x y
      | Pass_Through user \<Rightarrow> passthrough_outcome h env r user body x served y
      | Audit user info \<Rightarrow>
          audited_outcome h env r info user body (fst (time_now env (ex_proc x))) x served y)"

lemma passthrough_outcome_cong:
  assumes "same_effects x' x" "ex_writer x' = ex_writer x" "same_effects y' y" "ex_writer y' = ex_writer y"
    "ex_hijacked y' = ex_hijacked y"
  shows "passthrough_outcome h env r user body x' served y' = passthrough_outcome h env r user body x served y"
proof -
  have e: "xos x' = xos x" "xjobs x' = xjobs x" "xups x' = xups x" "xos y' = xos y" "xjobs y' = xjobs y" "xups y' = xups y"
    using assms by (simp_all add: same_effects_def)
  have a: "answered_after is code msg y' = answered_after is code msg y" for "is" code msg by (simp add: answered_after_def assms(4))
  have w: "awaiting is y' = awaiting is y" for "is" by (simp add: awaiting_def assms(4))
  have b: "base_header is x' = base_header is x" for "is" by (simp add: base_header_def assms(2))
  have r: "relayed env is code hdr d c x' y' = relayed env is code hdr d c x y" for "is" code hdr d c
    by (simp add: relayed_def b assms)
  show ?thesis by (simp only: passthrough_outcome_def e a b w r assms(5))
qed

lemma audited_outcome_cong:
  assumes "same_effects x' x" "ex_writer x' = ex_writer x" "same_effects y' y" "ex_writer y' = ex_writer y"
  shows "audited_outcome h env r info user body at x' served y' = audited_outcome h env r info user body at x served y"
proof -
  have e: "xos x' = xos x" "xjobs x' = xjobs x" "xups x' = xups x" "xjobs y' = xjobs y" "xups y' = xups y"
    using assms by (simp_all add: same_effects_def)
  have a: "answered code msg y' = answered code msg y" for code msg by (simp add: answered_after_def assms(4))
  note ro = response_outcome_cong [OF assms(2) e(2) assms(4) e(4)]
  show ?thesis by (simp only: audited_outcome_def e a ro)
qed

lemma tick_same: "p_ticks p = p_ticks q \<Longrightarrow> fst (time_now env p) = fst (time_now env q)"
  by (simp add: time_now_def)

lemma same_effects_setup:
  "same_effects (on_proc (once f g m) x) x" "same_effects (on_proc (say l m) x) x"
  "same_effects (x\<lparr>ex_state := s\<rparr>) x"
  by (simp_all add: same_effects_def frames)

text \<open>Setting up a request changes nothing that the outcomes look at.\<close>

definition just_setup :: "'w exchange \<Rightarrow> 'w exchange \<Rightarrow> bool" where
  "just_setup x' x \<longleftrightarrow> same_effects x' x \<and> ex_writer x' = ex_writer x \<and> p_ticks (ex_proc x') = p_ticks (ex_proc x)"

lemma just_setup_simps [simp]:
  "just_setup x x"
  "just_setup (on_proc (once f g m) x') x = just_setup x' x"
  "just_setup (on_proc (say l m) x') x = just_setup x' x"
  "just_setup (x'\<lparr>ex_state := s\<rparr>) x = just_setup x' x"
  by (auto simp: just_setup_def same_effects_def frames once_def say_def)

lemma just_setup_unanswered: "just_setup x' x \<Longrightarrow> unanswered x \<Longrightarrow> unanswered x'"
  by (simp add: just_setup_def awaiting_def)

lemma passthrough_from_setup:
  assumes "serve_passthrough h env r (Some user) body x' = Some (served, y)" "just_setup x' x" "unanswered x"
  shows "passthrough_outcome h env r user (inner body) x served y" "xos y = xos x"
proof -
  have "passthrough_outcome h env r user (inner body) x' served y"
    by (rule serve_passthrough_outcome [OF assms(1) just_setup_unanswered [OF assms(2,3)]])
  then show p: "passthrough_outcome h env r user (inner body) x served y"
    using passthrough_outcome_cong [of x' x y y h env r user "inner body" served] assms(2) by (simp add: just_setup_def)
  then show "xos y = xos x" by (simp add: passthrough_outcome_def)
qed

lemma audited_from_setup:
  assumes "serve_audited h env r info user body x' = Some (served, y)" "just_setup x' x" "unanswered x"
  shows "audited_outcome h env r info user (inner body) (fst (time_now env (ex_proc x))) x served y"
    "tidy (env_os env) (gave_up h env served) (xos x) (xos y)"
proof -
  note o = serve_audited_outcome [OF assms(1) just_setup_unanswered [OF assms(2,3)]]
  have t: "fst (time_now env (ex_proc x')) = fst (time_now env (ex_proc x))"
    using assms(2) by (intro tick_same) (simp add: just_setup_def)
  show "audited_outcome h env r info user (inner body) (fst (time_now env (ex_proc x))) x served y"
    using o(1) audited_outcome_cong [of x' x y y h env r info user "inner body" _ served] assms(2)
    by (simp add: just_setup_def t)
  show "tidy (env_os env) (gave_up h env served) (xos x) (xos y)"
    using o(2) assms(2) by (simp add: just_setup_def same_effects_def)
qed

lemma handle_request_routed:
  assumes s: "handle_request h env r body x = Some (served, y)" and u: "unanswered x"
  shows "routed h env r (inner body) x served y" "tidy (env_os env) (gave_up h env served) (xos x) (xos y)"
proof -
  let ?x1 = "on_proc (once first_request (first_request_update (\<lambda>_. True))
      (''first inbound request received '' @ em_dash @ '' proxy is reachable from the cluster'')) x"
  let ?x2 = "on_proc (once first_verified_request (first_verified_request_update (\<lambda>_. True))
      (''first request with verified delegated identity '' @ em_dash @
       '' requestheader trust is wired correctly'')) ?x1"
  obtain user trusted err where f: "from_request (Some (h_identity h)) (Some r) = (user, trusted, err)"
    by (metis prod_cases3)
  note e = s [unfolded handle_request_def Let_def f prod.case]
  have same: "tidy (env_os env) g (xos x) (xos y)" if "xos y = xos x" for g by (rule tidy_same) (simp_all add: that)
  have "routed h env r (inner body) x served y \<and> tidy (env_os env) (gave_up h env served) (xos x) (xos y)"
  proof (cases "err \<noteq> None \<or> requires_verified_headers (Some (h_identity h)) \<and> \<not> trusted")
    case True
    then obtain line where y: "served = Returned" "y = http_error_reply env ''Unauthorized'' 401 (on_proc (say Log_Warn line) ?x1)"
      using e by (auto split: if_splits)
    have "answered 401 ''Unauthorized'' y"
      unfolding y(2) by (rule answered_http_error) (simp_all add: u awaiting_frames)
    moreover have se: "same_effects x y"
      using same_effects_http_error [of "on_proc (say Log_Warn line) ?x1" env "''Unauthorized''" 401]
      by (simp add: y(2) same_effects_def frames)
    ultimately show ?thesis
      using True y(1) se same by (simp add: routed_def route_of_def f) (simp add: same_effects_def)
  next
    case False
    then have a: "authenticated h env r user body ?x1 = Some (served, y)" using e by auto
    note a' = a [unfolded authenticated_def Let_def]
    have route: "route_of h env r = (case env_resolve env r of Inl _ \<Rightarrow> Pass_Through user | Inr None \<Rightarrow> Pass_Through user
        | Inr (Some info) \<Rightarrow> if should_audit (Some info) then Audit user info else Pass_Through user)"
      using False by (auto simp: route_of_def f)
    show ?thesis
    proof (cases "env_resolve env r")
      case (Inl err')
      then show ?thesis
        using a' passthrough_from_setup [of h env r user body _ served y x] u same by (simp add: routed_def route)
    next
      case (Inr info)
      show ?thesis
      proof (cases "should_audit info")
        case True
        then obtain i where i: "info = Some i" by (auto simp: should_audit_def split: option.splits)
        then show ?thesis
          using a' True Inr audited_from_setup [of h env r i user body _ served y x] u by (simp add: routed_def route)
      next
        case no: False
        then have "route_of h env r = Pass_Through user"
          using Inr by (auto simp: route split: option.split)
        then show ?thesis
          using a' no Inr passthrough_from_setup [of h env r user body _ served y x] u same by (simp add: routed_def)
      qed
    qed
  qed
  then show "routed h env r (inner body) x served y" "tidy (env_os env) (gave_up h env served) (xos x) (xos y)" by blast+
qed

lemma routed_cong:
  assumes "same_effects y' y" "ex_writer y' = ex_writer y" "ex_hijacked y' = ex_hijacked y"
  shows "routed h env r body x served y' = routed h env r body x served y"
proof -
  have "answered 401 m y' = answered 401 m y" for m by (simp add: answered_after_def assms(2))
  moreover have "same_effects x y' = same_effects x y" using assms(1) by (auto simp: same_effects_def)
  ultimately show ?thesis
    using passthrough_outcome_cong [of x x y' y h env r _ body served]
      audited_outcome_cong [of x x y' y h env r _ _ body _ served] assms
    by (simp add: routed_def split: route.split)
qed

lemma serve_http_routed:
  "\<exists>served y. serve_http h env (fresh_client hdr) r body p = Some (served, y) \<and>
     routed h env r body (arrival env hdr r p) served y \<and> tidy (env_os env) (gave_up h env served) (p_os p) (xos y)"
proof -
  obtain start p1 where t: "time_now env p = (start, p1)" by fastforce
  let ?x0 = "arrival env hdr r p"
  let ?b = "\<lparr>inner = body, observing = True, on_close_set = False, observed_sizes = [], close_outcomes = []\<rparr>"
  have x0: "?x0 = \<lparr>ex_proc = p1, ex_writer = new_metric_response_writer (fresh_client hdr),
      ex_state = new_request_metric_state start r, ex_hijacked = None\<rparr>" by (simp add: arrival_def t)
  have u: "unanswered ?x0"
    by (simp add: x0 awaiting_def new_metric_response_writer_def fresh_client_def)
  obtain served x where h: "handle_request h env r ?b ?x0 = Some (served, x)"
    using handle_request_balanced by blast
  note ro = handle_request_routed [OF h u, unfolded observed.simps]
  obtain now p2 where t2: "time_now env (ex_proc x) = (now, p2)" by fastforce
  let ?y = "x\<lparr>ex_proc := with_metrics (record_request (make_request_labels (mw_status_code (ex_writer x)) (ex_state x))
      (now - rm_start (ex_state x))) p2\<rparr>"
  have s: "serve_http h env (fresh_client hdr) r body p = Some (served, ?y)"
    using h by (simp add: serve_http_def t observe_read_closer_def x0 t2)
  have se: "same_effects ?y x" using time_now_frames [OF t2] by (simp add: same_effects_def frames)
  then have "routed h env r body ?x0 served ?y"
    using ro(1) routed_cong [of ?y x h env r body ?x0 served] by simp
  moreover have "tidy (env_os env) (gave_up h env served) (p_os p) (xos ?y)"
    using ro(2) se time_now_frames [OF t] by (simp add: same_effects_def x0)
  ultimately show ?thesis using s by blast
qed

section \<open>Properties\<close>

text \<open>
  C3: \<open>ServeHTTP\<close> implements its contract on every path.  A request that is not authenticated gets a 401
  and nothing else happens.  A request that is not audited goes to the backend as the reverse proxy sends it,
  with no file and no job; the client gets the backend's informational responses at once and then its answer
  (a connection for an agreed upgrade) or a 502, and the recorded status is the first of these statuses, not
  the final one.  An audited request is offered to the backend with the spooled body, cut short if the spooled
  file cannot be read; either one faithful job is started and the client is relayed the answer, or no job is
  started and the client gets an error for a stated reason.  A relayed body is incomplete only when the
  connection took no more or, on the audited path, the spooled file could not be read.  What is relayed is
  stated for final statuses; a transport returns no 1xx status but 101 in their place.
\<close>

theorem serve_http_contract:
  "\<exists>served y. serve_http h env (fresh_client hdr) r body p = Some (served, y) \<and>
     routed h env r body (arrival env hdr r p) served y"
  using serve_http_routed [of h env hdr r body p] by blast

text \<open>
  C6: a request changes no file that was there before it, and a file of its own outlives it only when removing
  it failed during the request, or when the request was aborted because a capture buffer could not be
  allocated.  In every other case the files are what they were, however the request ends.
\<close>

theorem no_temp_file_left:
  "\<exists>served y. serve_http h env (fresh_client hdr) r body p = Some (served, y) \<and>
     os_ticks (p_os p) \<le> os_ticks (p_os (ex_proc y)) \<and>
     (\<forall>q. files (p_os (ex_proc y)) q = files (p_os p) q \<or>
        files (p_os p) q = None \<and>
        ((\<exists>t. os_ticks (p_os p) \<le> t \<and> t < os_ticks (p_os (ex_proc y)) \<and> io_fails (env_os env) Op_Remove t) \<or>
         served = Aborted \<and> int (alloc_max (env_os env)) < sint (h_capture_max h)))"
  using serve_http_routed [of h env hdr r body p] unfolding tidy_def removal_failed_def gave_up_def by blast

text \<open>
  C5: an audited request whose body is complete, whose backend answers completely with a final status, and
  for which nothing fails, reaches the client whole and starts exactly one job, which describes it.
\<close>

theorem audited_exchange_succeeds:
  assumes "route_of h env r = Audit user info" "script_ending body = EOF"
    and "snd (h_transport h (build_upstream_request (h_backend_url h) (h_backend_identity h) r
           (of_nat (length (script_content body))) user) [(script_content body, None)]) = Inr resp"
    and "script_ending (rs_body resp) = EOF" "final_status (rs_status_code resp)"
    and "\<not> trouble h env (files (p_os p))" "\<forall>k. copy_buffer_size \<le> env_accepts env k"
  shows "\<exists>y job. serve_http h env (fresh_client hdr) r body p = Some (Returned, y) \<and>
     p_jobs (ex_proc y) = p_jobs p @ [job] \<and>
     faithful h r info user (script_content body) (env_clock env (Suc (p_ticks p))) resp job \<and>
     cw_status (mw_writer (ex_writer y)) = Some (rs_status_code resp) \<and>
     cw_body (mw_writer (ex_writer y)) = script_content (rs_body resp) \<and>
     files (p_os (ex_proc y)) = files (p_os p)"
proof -
  let ?x = "arrival env hdr r p"
  obtain served y where s: "serve_http h env (fresh_client hdr) r body p = Some (served, y)"
    and r: "routed h env r body ?x served y" and fl: "tidy (env_os env) (gave_up h env served) (p_os p) (xos y)"
    using serve_http_routed by blast
  have x: "xjobs ?x = p_jobs p" "xos ?x = p_os p" "fst (time_now env (ex_proc ?x)) = env_clock env (Suc (p_ticks p))"
    by (simp_all add: arrival_def time_now_def)
  have calm: "\<forall>op t. \<not> io_fails (env_os env) op t" using assms(6) by (auto simp: trouble_def)
  have sent: "offered env c sent \<longleftrightarrow> sent = [(c, None)]" for c sent using calm by (simp add: offered_def)
  note o = r [unfolded routed_def assms(1) route.case audited_outcome_def Let_def sent, simplified, unfolded assms(2) assms(3) sum.case x]
  have ro: "response_outcome h env r info user (script_content body) (env_clock env (Suc (p_ticks p)))
      (trouble h env (files (p_os p))) resp ?x served y"
    using o assms(6) by (auto split: if_splits)
  then obtain job where j: "served = Returned"
    "faithful h r info user (script_content body) (env_clock env (Suc (p_ticks p))) resp job"
    "finished_with env job (rs_header resp) (script_content (rs_body resp)) ?x y"
    using assms(4,6) by (auto simp: response_outcome_def split: if_splits)
  have code: "job_status_code job = rs_status_code resp" using j(2) by (simp add: faithful_def)
  have full: "\<not> (\<exists>k. env_accepts env k < copy_buffer_size)" using assms(7) by (simp add: not_less)
  have "files (xos y) = files (p_os p)"
    using tidy_no_failure [OF tidy_weaken [OF fl]] calm j(1) by (simp add: gave_up_def)
  then show ?thesis
    using s j calm full assms(5) code x by (auto simp: finished_with_def relayed_def)
qed

section \<open>Witnesses\<close>

definition sample_user :: user_info where
  "sample_user = \<lparr>username = ''alice'', uid = '''', groups = [], extra = []\<rparr>"

definition sample_info :: request_info where
  "sample_info = \<lparr>is_resource_request = True, verb = ''create'', api_group = ''wardle.example.com'',
     api_version = ''v1'', info_namespace = ''default'', resource = ''flunders'', subresource = '''', info_name = ''''\<rparr>"

definition sample_response :: "body_script http_response" where
  "sample_response = \<lparr>rs_status_code = 201, rs_proto = ''HTTP/2.0'', rs_header = [], rs_body = [(''ok'', Some EOF)]\<rparr>"

definition sample_handler :: "(unit, unit) handler" where
  "sample_handler =
     \<lparr>h_backend_url = \<lparr>scheme = ''https'', url_host = ''backend'', path = '''', raw_path = '''',
        force_query = False, raw_query = ''''\<rparr>,
      h_identity = \<lparr>authenticator = Some (\<lambda>_. (Some (Some sample_user), True, None)), requires_verified = True\<rparr>,
      h_transport = (\<lambda>_ _. ([On_Body (Do_Read 32768), On_Body Do_Close], Inr sample_response)),
      h_backend_identity = Request_Header_Forwarder, h_builder = new_builder 16, h_temp_dir = '''', h_capture_max = 16\<rparr>"

definition sample_env :: "unit handler_env" where
  "sample_env =
     \<lparr>env_os = \<lparr>io_fails = (\<lambda>_ _. False), short_write = (\<lambda>_. 0), short_read = (\<lambda>_. 0), random_name = (\<lambda>n. replicate n CHR ''x''),
        default_temp_dir = ''/tmp'', alloc_max = 4096\<rparr>,
      env_clock = int, env_accepts = (\<lambda>_. 65536), env_hijackable = False, env_resolve = (\<lambda>_. Inr (Some sample_info)),
      env_new_uuid = (\<lambda>_. ''id'')\<rparr>"

definition idle_process :: "unit process" where
  "idle_process =
     \<lparr>p_os = empty_os, p_metrics = [], p_lines = [], p_once = \<lparr>first_request = False, first_verified_request = False,
        first_backend_ok = False, first_webhook_ok = False\<rparr>, p_ticks = 0, p_jobs = [], p_upstream = [], p_net = ()\<rparr>"

lemma sample_route: "route_of sample_handler sample_env r = Audit sample_user sample_info"
  by (simp add: route_of_def sample_handler_def sample_env_def from_request_def requires_verified_headers_def
      should_audit_def sample_info_def sample_user_def)

lemma sample_no_trouble: "\<not> trouble sample_handler sample_env (files (p_os idle_process))"
  by (auto simp: trouble_def sample_env_def sample_handler_def free_names_def idle_process_def empty_os_def
      intro!: injI dest: arg_cong [of _ _ length])

lemma audited_exchange_succeeds_witness:
  "\<exists>y job. serve_http sample_handler sample_env (fresh_client []) (header_request []) [(''{}'', Some EOF)] idle_process =
       Some (Returned, y) \<and>
     p_jobs (ex_proc y) = [job] \<and> job_user job = sample_user \<and> captured (job_request_body job) = ''{}'' \<and>
     job_status_code job = 201 \<and> cw_status (mw_writer (ex_writer y)) = Some 201 \<and>
     cw_body (mw_writer (ex_writer y)) = ''ok'' \<and> files (p_os (ex_proc y)) = Map.empty"
proof -
  have "snd (h_transport sample_handler q b) = Inr sample_response" for q b
    by (simp add: sample_handler_def)
  then obtain y job where w:
    "serve_http sample_handler sample_env (fresh_client []) (header_request []) [(''{}'', Some EOF)] idle_process =
       Some (Returned, y)"
    "p_jobs (ex_proc y) = p_jobs idle_process @ [job]"
    "faithful sample_handler (header_request []) sample_info sample_user (script_content [(''{}'', Some EOF)])
       (env_clock sample_env (Suc (p_ticks idle_process))) sample_response job"
    "cw_status (mw_writer (ex_writer y)) = Some (rs_status_code sample_response)"
    "cw_body (mw_writer (ex_writer y)) = script_content (rs_body sample_response)"
    "files (p_os (ex_proc y)) = files (p_os idle_process)"
    using audited_exchange_succeeds [OF sample_route _ _ _ _ sample_no_trouble, where body = "[(''{}'', Some EOF)]"
        and resp = sample_response and r = "header_request []" and hdr = "[]"]
    by (auto simp: sample_response_def final_status_def informational_def sample_env_def copy_buffer_size_def)
  then show ?thesis
    by (intro exI [of _ y] exI [of _ job])
      (simp add: faithful_def represents_def sample_handler_def sample_response_def idle_process_def empty_os_def)
qed

end
