(* ===== verification/Audit_Pipeline.thy ===== *)
theory Audit_Pipeline
  imports Handler_Audit
begin

text \<open>
  The proxy as a process: requests are served and audit jobs run, in any order, against the webhook client
  of \<open>Webhook_Client\<close>.  A step is one whole \<open>ServeHTTP\<close> or one whole audit job; the goroutine of a job is a
  step of its own that may come at any later time or never.
\<close>

section \<open>Milestones\<close>

definition info_lines :: "'w process \<Rightarrow> (log_level \<times> string) list" where
  "info_lines p = filter (\<lambda>l. fst l = Log_Info) (p_lines p)"

definition inbound_line :: string where
  "inbound_line = ''first inbound request received '' @ em_dash @ '' proxy is reachable from the cluster''"

definition verified_line :: string where
  "verified_line = ''first request with verified delegated identity '' @ em_dash @
     '' requestheader trust is wired correctly''"

definition backend_line :: string where
  "backend_line = ''first successful backend response '' @ em_dash @
     '' connection to aggregated backend is established''"

definition webhook_line :: string where
  "webhook_line = ''first audit event delivered to webhook receiver '' @ em_dash @
     '' audit pipeline is healthy''"

lemmas milestone_line_defs = inbound_line_def verified_line_def backend_line_def webhook_line_def

lemma milestone_lines_distinct:
  "inbound_line \<noteq> verified_line" "inbound_line \<noteq> backend_line" "inbound_line \<noteq> webhook_line"
  "verified_line \<noteq> backend_line" "verified_line \<noteq> webhook_line" "backend_line \<noteq> webhook_line"
  by (simp_all add: milestone_line_defs)

definition milestone_lines :: "milestones \<Rightarrow> (log_level \<times> string) set" where
  "milestone_lines m =
     (if first_request m then {(Log_Info, inbound_line)} else {}) \<union>
     (if first_verified_request m then {(Log_Info, verified_line)} else {}) \<union>
     (if first_backend_ok m then {(Log_Info, backend_line)} else {}) \<union>
     (if first_webhook_ok m then {(Log_Info, webhook_line)} else {})"

definition milestones_ok :: "'w process \<Rightarrow> bool" where
  "milestones_ok p \<longleftrightarrow> distinct (info_lines p) \<and> set (info_lines p) = milestone_lines (p_once p)"

text \<open>What serving a request does to the process beside its metrics, files, jobs and backend calls.\<close>

definition calm :: "'w process \<Rightarrow> 'w process \<Rightarrow> bool" where
  "calm p q \<longleftrightarrow> p_net q = p_net p \<and> (milestones_ok p \<longrightarrow> milestones_ok q)"

lemma calm_refl [simp]: "calm p p"
  by (simp add: calm_def)

lemma calm_trans [trans]: "calm p q \<Longrightarrow> calm q s \<Longrightarrow> calm p s"
  by (simp add: calm_def)

lemma calm_same: "p_net q = p_net p \<Longrightarrow> p_lines q = p_lines p \<Longrightarrow> p_once q = p_once p \<Longrightarrow> calm p q"
  by (simp add: calm_def milestones_ok_def info_lines_def)

lemma calm_say: "lvl \<noteq> Log_Info \<Longrightarrow> calm p (say lvl msg p)"
  by (simp add: calm_def milestones_ok_def info_lines_def say_def)

lemma milestones_ok_once:
  assumes "milestones_ok p"
    and "\<not> flag (p_once p) \<Longrightarrow> (Log_Info, msg) \<notin> milestone_lines (p_once p)"
    and "\<not> flag (p_once p) \<Longrightarrow> milestone_lines (f (p_once p)) = insert (Log_Info, msg) (milestone_lines (p_once p))"
  shows "milestones_ok (once flag f msg p)"
  using assms by (auto simp: milestones_ok_def info_lines_def once_def say_def)

lemma once_net [simp]: "p_net (once flag f msg p) = p_net p"
  by (simp add: once_def say_def)

lemmas milestone_cases = milestone_lines_def milestone_lines_distinct milestone_lines_distinct [symmetric]

lemma calm_milestones:
  "calm p (once first_request (first_request_update (\<lambda>_. True)) inbound_line p)"
  "calm p (once first_verified_request (first_verified_request_update (\<lambda>_. True)) verified_line p)"
  "calm p (once first_backend_ok (first_backend_ok_update (\<lambda>_. True)) backend_line p)"
  "calm p (once first_webhook_ok (first_webhook_ok_update (\<lambda>_. True)) webhook_line p)"
  unfolding calm_def
  by (intro conjI impI once_net milestones_ok_once; (assumption | auto simp: milestone_cases))+

lemma calm_notify: "calm p (notify_first_backend_ok p)"
  unfolding notify_first_backend_ok_def backend_line_def [symmetric] by (rule calm_milestones)

section \<open>Serving is calm\<close>

abbreviation calmly :: "'w exchange \<Rightarrow> 'w exchange \<Rightarrow> bool" where
  "calmly x y \<equiv> calm (ex_proc x) (ex_proc y)"

lemma calmly_on_proc: "calm (ex_proc x) (f (ex_proc x)) \<Longrightarrow> calmly x (on_proc f x)"
  by (simp add: on_proc_def)

lemma calmly_say: "lvl \<noteq> Log_Info \<Longrightarrow> calmly x (on_proc (say lvl msg) x)"
  by (rule calmly_on_proc) (rule calm_say)

lemma calmly_http_error: "calmly x (http_error_reply env msg code x)"
  by (rule calm_same) (simp_all add: http_error_reply_def split: prod.split)

lemma calmly_fail: "calmly x (fail_with env line msg code x)"
  unfolding fail_with_def by (rule calm_trans [OF calmly_say calmly_http_error]) simp

lemma calmly_record: "calmly x (record_backend env oc x)"
  by (rule calm_same) (auto simp: record_backend_def time_now_def split: prod.split)

lemma calmly_count: "calmly x (count_reads leg b d sizes x)"
  by (rule calm_same) (simp_all add: count_reads_def on_proc_def with_metrics_def)

lemma calmly_os: "calmly x (on_proc (\<lambda>p. p\<lparr>p_os := s\<rparr>) x)" "calmly x (on_proc (\<lambda>p. p\<lparr>p_jobs := p_jobs p @ js\<rparr>) x)"
  by (rule calm_same; simp add: on_proc_def)+

lemma calmly_passthrough_error: "calmly x (passthrough_error env x)"
  unfolding passthrough_error_def by (rule calm_trans [OF calmly_record calmly_fail])

lemma calmly_reply: "calmly x (reply_header code hdr x)"
  by (rule calm_same) (simp_all add: reply_header_def set_writer_header_def Let_def)

lemma calmly_round_trip:
  assumes "round_trip h trace req body x = (b, res, y)" "trace = no_trace \<or> trace = forward_1xx"
  shows "calmly x y"
proof -
  let ?x = "on_proc (\<lambda>p. p\<lparr>p_upstream := p_upstream p @ [(req, script_content (inner body))]\<rparr>) x"
  have "y = fold trace (interim_responses (fst (h_transport h req (inner body)))) ?x"
    using assms(1) by (auto simp: round_trip_def split: prod.splits)
  then have "ex_proc y = ex_proc ?x" using assms(2) by (auto simp: forward_1xx_frames)
  then show ?thesis by (intro calm_same) (simp_all add: on_proc_def)
qed

lemma calmly_modify:
  assumes "modify_response env resp x = (resp', sd, y)"
  shows "calmly x y"
proof -
  have "calm (notify_first_backend_ok (ex_proc x)) (ex_proc (snd (snd (modify_response env resp x))))"
    by (rule calm_same) (simp_all add: modify_response_def Let_def on_proc_def time_now_def split: prod.split)
  then show ?thesis using calm_trans [OF calm_notify] by (simp add: assms)
qed

lemma calmly_copy:
  assumes "passthrough_copy env sd b x = Some (served, y)"
  shows "calmly x y"
  using assms
  by (intro calm_same) (auto simp: passthrough_copy_def time_now_def split: option.splits prod.splits)

lemma calmly_upgrade: "calmly x (handle_upgrade_response env out resp x)"
  using calmly_passthrough_error [of x env] by (simp add: handle_upgrade_response_def Let_def)

lemma calmly_cleanup: "calmly x (cleanup_body env line b x)"
proof -
  obtain res s where c: "spooled_cleanup (env_os env) (Some b) (p_os (ex_proc x)) = (res, s)" by fastforce
  have "calm (ex_proc x) (p_os_update (\<lambda>_. s) (ex_proc x))" by (rule calm_same) simp_all
  then show ?thesis
    using calm_trans [OF _ calm_say [of Log_Error]] by (cases res) (simp_all add: cleanup_body_def c on_proc_def)
qed

lemma serve_passthrough_calm:
  assumes "serve_passthrough h env r cu body x = Some (served, y)"
  shows "calmly x y"
proof (cases "passthrough_request (h_backend_url h) (h_backend_identity h) cu r")
  case None
  then show ?thesis using assms calmly_passthrough_error by (auto simp: serve_passthrough_def)
next
  case (Some out)
  let ?body = "if rq_content_length r = 0 then body\<lparr>inner := []\<rparr> else body"
  obtain b1 res x1 where rt: "round_trip h forward_1xx out ?body x = (b1, res, x1)" by (metis prod_cases3)
  let ?x2 = "count_reads leg_client (rm_streaming (ex_state x)) direction_read (observed_sizes b1) x1"
  have c2: "calmly x ?x2" by (rule calm_trans [OF calmly_round_trip [OF rt disjI2 [OF refl]] calmly_count])
  note e = assms [unfolded serve_passthrough_def Some option.case Let_def rt prod.case]
  show ?thesis
  proof (cases res)
    case (Inl a)
    then show ?thesis using e calm_trans [OF c2 calmly_passthrough_error [of ?x2 env]] by simp
  next
    case (Inr rsp)
    let ?resp = "\<lparr>rs_status_code = rs_status_code rsp, rs_proto = rs_proto rsp,
        rs_header = (if rs_status_code rsp = 101 then rs_header rsp else remove_hop_by_hop_headers (rs_header rsp)),
        rs_body = Raw_Body (rs_body rsp)\<rparr>"
    obtain resp' sd x3 where m: "modify_response env ?resp ?x2 = (resp', sd, x3)" by (metis prod_cases3)
    have c3: "calmly x x3" by (rule calm_trans [OF c2 calmly_modify [OF m]])
    note e' = e [unfolded Inr sum.case m prod.case]
    show ?thesis
    proof (cases "rs_status_code resp' = 101")
      case True
      then show ?thesis using e' calm_trans [OF c3 calmly_upgrade] by auto
    next
      case False
      then show ?thesis using e' calm_trans [OF c3 calm_trans [OF calmly_reply calmly_copy]] by simp
    qed
  qed
qed

lemma calmly_notify: "calmly x (on_proc notify_first_backend_ok x)"
  by (rule calmly_on_proc) (rule calm_notify)

lemma finish_audited_calm:
  assumes "finish_audited h env job hdr x = Some (served, y)"
  shows "calmly x y"
proof -
  obtain c s where o: "spooled_open (env_os env) (job_response_body job) (p_os (ex_proc x)) = (c, s)" by fastforce
  let ?x1 = "on_proc (\<lambda>p. p\<lparr>p_os := s\<rparr>) x"
  note e = assms [unfolded finish_audited_def o Let_def prod.case]
  show ?thesis
  proof (cases c)
    case (Inl err)
    then show ?thesis
      using e calm_trans [OF calm_trans [OF calmly_os(1) calmly_fail] calmly_cleanup] by auto
  next
    case (Inr content)
    let ?x2 = "reply_header (job_status_code job) (strip_hop_by_hop_headers hdr) ?x1"
    obtain res r' w log where c: "copy_loop script_read (env_accepts env) (ex_state ?x2) (reopened (env_os env) s content)
        (ex_writer ?x2, p_metrics (ex_proc ?x2)) = Some (res, r', w, log)"
      using script.copy_loop_total [of "\<lambda>_. True" "(reopened (env_os env) s content)" "env_accepts env" "ex_state ?x2"
          "(ex_writer ?x2, p_metrics (ex_proc ?x2))"] by auto
    let ?x3 = "?x2\<lparr>ex_writer := w, ex_proc := (ex_proc ?x2)\<lparr>p_metrics := log\<rparr>\<rparr>"
    let ?x4 = "if res = Copied then ?x3 else on_proc (say Log_Error ''unable to write proxied response'') ?x3"
    have c2: "calmly x ?x2" by (rule calm_trans [OF calmly_os(1) calmly_reply])
    have c3: "calmly ?x2 ?x3" by (rule calm_same) simp_all
    have c4: "calmly ?x3 ?x4" using calmly_say [of Log_Error ?x3] by simp
    have y: "y = cleanup_body env ''unable to remove response temp file'' (job_response_body job)
        (on_proc (\<lambda>p. p\<lparr>p_jobs := p_jobs p @ [job]\<rparr>) ?x4)"
      using e by (simp add: Inr c)
    have c5: "calmly x ?x4" by (rule calm_trans [OF calm_trans [OF c2 c3] c4])
    show ?thesis unfolding y by (rule calm_trans [OF c5 calm_trans [OF calmly_os(2) calmly_cleanup]])
  qed
qed

lemma spool_response_calm:
  assumes "spool_response h env r info user rb at resp x = Some (served, y)"
  shows "calmly x y"
proof -
  let ?x1 = "on_proc notify_first_backend_ok x"
  obtain now q where t: "time_now env (ex_proc ?x1) = (now, q)" by fastforce
  obtain body st log where o: "observe_audited_backend_response now resp (Some (ex_state ?x1)) (p_metrics q) = (body, st, log)"
    by (metis prod_cases3)
  obtain ss where st: "st = Some ss" using observe_audited_logs [OF o] by blast
  let ?x2 = "?x1\<lparr>ex_state := ss, ex_proc := q\<lparr>p_metrics := log\<rparr>\<rparr>"
  have "calmly ?x1 ?x2" using time_now_frames [OF t] by (intro calm_same) simp_all
  then have c2: "calmly x ?x2" using calm_trans [OF calmly_notify] by blast
  note e = assms [unfolded spool_response_def Let_def t prod.case o st option.case]
  obtain out b' os' where sp: "spool_body (observed_read script_read) (observed_close script_close)
      \<lparr>inner = [], observing = False, on_close_set = False, observed_sizes = [], close_outcomes = []\<rparr> (env_os env)
      body (h_temp_dir h) (h_capture_max h) (p_os (ex_proc ?x2)) = Some (out, b', os')"
    using e by (auto split: option.splits)
  let ?x3 = "count_reads leg_backend False direction_read (observed_sizes b') (on_proc (\<lambda>p. p\<lparr>p_os := os'\<rparr>) ?x2)"
  have c3: "calmly x ?x3" by (rule calm_trans [OF c2 calm_trans [OF calmly_os(1) calmly_count]])
  note e' = e [unfolded sp option.case prod.case]
  show ?thesis
  proof (cases out)
    case (Inl err)
    then show ?thesis using e' c3 calm_trans [OF c3 calmly_fail] by (cases err) auto
  next
    case (Inr response_body)
    then have "finish_audited h env \<lparr>job_request = r, job_info = info, job_user = user, job_request_body = rb,
        job_response_body = response_body, job_status_code = rs_status_code resp, job_received_at = at\<rparr>
        (rs_header resp) ?x3 = Some (served, y)" using e' by simp
    then show ?thesis using calm_trans [OF c3 finish_audited_calm] by blast
  qed
qed

lemma forward_audited_calm:
  assumes "forward_audited h env r info user rb at x = Some (served, y)"
  shows "calmly x y"
proof -
  obtain c s where o: "spooled_open (env_os env) rb (p_os (ex_proc x)) = (c, s)" by fastforce
  let ?x1 = "on_proc (\<lambda>p. p\<lparr>p_os := s\<rparr>) x"
  note e = assms [unfolded forward_audited_def o Let_def prod.case]
  show ?thesis
  proof (cases c)
    case (Inl err)
    then show ?thesis using e calm_trans [OF calmly_os(1) calmly_fail] by auto
  next
    case (Inr content)
    let ?ub = "\<lparr>inner = reopened (env_os env) s content, observing = True, on_close_set = False, observed_sizes = [], close_outcomes = []\<rparr>"
    let ?req = "build_upstream_request (h_backend_url h) (h_backend_identity h) r (sp_size rb) user"
    obtain b1 res x2 where rt: "round_trip h no_trace ?req ?ub ?x1 = (b1, res, x2)" by (metis prod_cases3)
    let ?x3 = "count_reads leg_backend False direction_write (observed_sizes b1) x2"
    have c3: "calmly x ?x3"
      by (rule calm_trans [OF calmly_os(1) calm_trans [OF calmly_round_trip [OF rt disjI1 [OF refl]] calmly_count]])
    note e' = e [unfolded Inr sum.case rt prod.case]
    show ?thesis
    proof (cases res)
      case (Inl err)
      then show ?thesis using e' calm_trans [OF c3 calm_trans [OF calmly_record calmly_fail]] by auto
    next
      case rsp: (Inr resp)
      then show ?thesis using e' calm_trans [OF c3 spool_response_calm] by simp
    qed
  qed
qed

lemma serve_audited_calm:
  assumes "serve_audited h env r info user body x = Some (served, y)"
  shows "calmly x y"
proof -
  obtain at q where t: "time_now env (ex_proc x) = (at, q)" by fastforce
  let ?x1 = "x\<lparr>ex_proc := q\<rparr>"
  have c1: "calmly x ?x1" using time_now_frames [OF t] by (intro calm_same) simp_all
  note e = assms [unfolded serve_audited_def Let_def t prod.case]
  obtain out b' os' where sp: "spool_body (observed_read script_read) (observed_close script_close)
      \<lparr>inner = [], observing = False, on_close_set = False, observed_sizes = [], close_outcomes = []\<rparr> (env_os env)
      (Some body) (h_temp_dir h) (h_capture_max h) (p_os (ex_proc ?x1)) = Some (out, b', os')"
    using e by (auto split: option.splits)
  let ?x2 = "count_reads leg_client (rm_streaming (ex_state ?x1)) direction_read (observed_sizes b')
      (on_proc (\<lambda>p. p\<lparr>p_os := os'\<rparr>) ?x1)"
  have c2: "calmly x ?x2" by (rule calm_trans [OF c1 calm_trans [OF calmly_os(1) calmly_count]])
  note e' = e [unfolded sp option.case prod.case]
  show ?thesis
  proof (cases out)
    case (Inl err)
    then show ?thesis using e' c2 calm_trans [OF c2 calmly_fail] by (cases err) auto
  next
    case (Inr rb)
    then obtain z where "forward_audited h env r info user rb at ?x2 = Some (served, z)"
      and "y = cleanup_body env ''unable to remove request temp file'' rb z" using e' by auto
    then show ?thesis using calm_trans [OF c2 calm_trans [OF forward_audited_calm calmly_cleanup]] by blast
  qed
qed

lemma authenticated_calm:
  assumes "authenticated h env r user body x = Some (served, y)"
  shows "calmly x y"
proof -
  let ?x1 = "on_proc (once first_verified_request (first_verified_request_update (\<lambda>_. True)) verified_line) x"
  have c1: "calmly x ?x1" by (rule calmly_on_proc) (rule calm_milestones)
  note e = assms [unfolded authenticated_def Let_def verified_line_def [symmetric]]
  show ?thesis
  proof (cases "env_resolve env r")
    case (Inl err)
    let ?x2 = "on_proc (say Log_Error ''unable to resolve request info; using passthrough path'') ?x1"
    have "serve_passthrough h env r (Some user) body ?x2 = Some (served, y)" using e Inl by simp
    then show ?thesis
      by (rule calm_trans [OF calm_trans [OF c1 calmly_say] serve_passthrough_calm, rotated]) simp
  next
    case (Inr info)
    let ?x2 = "?x1\<lparr>ex_state := set_request_info info (should_audit info) (ex_state ?x1)\<rparr>"
    have c2: "calmly x ?x2" using c1 by simp
    then show ?thesis
      using e Inr calm_trans [OF c2 serve_passthrough_calm] calm_trans [OF c2 serve_audited_calm] by (auto split: if_splits)
  qed
qed

lemma handle_request_calm:
  assumes "handle_request h env r body x = Some (served, y)"
  shows "calmly x y"
proof -
  let ?x1 = "on_proc (once first_request (first_request_update (\<lambda>_. True)) inbound_line) x"
  have c1: "calmly x ?x1" by (rule calmly_on_proc) (rule calm_milestones)
  obtain user trusted err where f: "from_request (Some (h_identity h)) (Some r) = (user, trusted, err)"
    by (metis prod_cases3)
  note e = assms [unfolded handle_request_def Let_def f prod.case inbound_line_def [symmetric]]
  have rej: "calmly x (http_error_reply env m code (on_proc (say Log_Warn l) ?x1))" for m code l
    by (rule calm_trans [OF calm_trans [OF c1 calmly_say] calmly_http_error]) simp
  show ?thesis
    using e rej calm_trans [OF c1 authenticated_calm] by (auto split: if_splits)
qed

lemma serve_http_calm:
  assumes "serve_http h env w r body p = Some (served, x)"
  shows "calm p (ex_proc x)"
proof -
  obtain start p1 where t: "time_now env p = (start, p1)" by fastforce
  let ?x0 = "\<lparr>ex_proc = p1, ex_writer = new_metric_response_writer w,
      ex_state = new_request_metric_state start r, ex_hijacked = None\<rparr>"
  let ?b = "\<lparr>inner = body, observing = True, on_close_set = False, observed_sizes = [], close_outcomes = []\<rparr>"
  obtain z where h: "handle_request h env r ?b ?x0 = Some (served, z)"
    and x: "x = z\<lparr>ex_proc := with_metrics (record_request (make_request_labels (mw_status_code (ex_writer z)) (ex_state z))
        (fst (time_now env (ex_proc z)) - rm_start (ex_state z))) (snd (time_now env (ex_proc z)))\<rparr>"
    using assms by (auto simp: serve_http_def t observe_read_closer_def split: option.splits prod.splits)
  have "calm p p1" using time_now_frames [OF t] by (intro calm_same) simp_all
  moreover have "calm p1 (ex_proc z)" using handle_request_calm [OF h] by simp
  moreover have "calm (ex_proc z) (ex_proc x)"
    by (rule calm_same) (simp_all add: x with_metrics_def time_now_def)
  ultimately show ?thesis using calm_trans by blast
qed

section \<open>An audit job\<close>

text \<open>Counters of audit events by outcome.\<close>

definition audit_events :: "string \<Rightarrow> 'w process \<Rightarrow> int" where
  "audit_events outcome p = log_sum Audit_Events_Total [(''outcome'', outcome)] (p_metrics p)"

lemma outcome_matches: "attrs_match [(''outcome'', a)] [(''outcome'', b)] \<longleftrightarrow> a = b"
  by (auto simp: attrs_match_def)

lemma send_best_effort_effects:
  fixes send env event p
  defines "q \<equiv> send_best_effort send env event p"
  shows "p_net q = snd (send (wrap event) (p_net p))"
    "p_os q = p_os p" "p_jobs q = p_jobs p" "p_upstream q = p_upstream p"
    "audit_events oc q = audit_events oc p +
       (if fst (send (wrap event) (p_net p)) = None then of_bool (oc = ''sent'') else of_bool (oc = ''send_error''))"
    "i \<noteq> Audit_Events_Total \<Longrightarrow> i \<noteq> Audit_Delivery_Duration_Seconds \<Longrightarrow>
       log_sum i a (p_metrics q) = log_sum i a (p_metrics p) \<and> log_count i (p_metrics q) = log_count i (p_metrics p)"
    "milestones_ok p \<Longrightarrow> milestones_ok q"
proof -
  obtain err net where s: "send (wrap event) (p_net p) = (err, net)" by fastforce
  define p1 where "p1 = (snd (time_now env p))\<lparr>p_net := net\<rparr>"
  define p2 where "p2 = snd (time_now env p1)"
  have p2: "p_net p2 = net" "p_os p2 = p_os p" "p_jobs p2 = p_jobs p" "p_upstream p2 = p_upstream p"
    "p_metrics p2 = p_metrics p" "p_lines p2 = p_lines p" "p_once p2 = p_once p"
    by (simp_all add: p1_def p2_def time_now_def)
  define d where "d = fst (time_now env p1) - fst (time_now env p)"
  have t: "time_now env p = (env_clock env (p_ticks p), p\<lparr>p_ticks := Suc (p_ticks p)\<rparr>)"
    by (simp add: time_now_def)
  obtain now2 q2 where t2: "time_now env p1 = (now2, q2)" by fastforce
  have q: "q = (case err of
      Some e \<Rightarrow> say Log_Error ''best-effort webhook delivery failed''
        (with_metrics (record_audit_delivery ''send_error'' d \<circ> add_audit_event ''send_error'') p2)
    | None \<Rightarrow> once first_webhook_ok (first_webhook_ok_update (\<lambda>_. True)) webhook_line
        (with_metrics (record_audit_delivery ''sent'' d \<circ> add_audit_event ''sent'') p2))"
    using t2 unfolding q_def send_best_effort_def webhook_line_def p2_def d_def p1_def
    by (cases err) (simp_all add: t s)
  show "p_net q = snd (send (wrap event) (p_net p))"
    "p_os q = p_os p" "p_jobs q = p_jobs p" "p_upstream q = p_upstream p"
    by (simp_all add: q s p2 frames with_metrics_def say_def split: option.split)
  have m: "p_metrics q = (case err of None \<Rightarrow> record_audit_delivery ''sent'' d (add_audit_event ''sent'' (p_metrics p))
      | Some _ \<Rightarrow> record_audit_delivery ''send_error'' d (add_audit_event ''send_error'' (p_metrics p)))"
    by (simp add: q p2 with_metrics_def say_def split: option.split)
  show "audit_events oc q = audit_events oc p +
       (if fst (send (wrap event) (p_net p)) = None then of_bool (oc = ''sent'') else of_bool (oc = ''send_error''))"
    by (cases err) (simp_all add: audit_events_def m s record_audit_delivery_def add_audit_event_def metric_simps
        outcome_matches of_bool_def eq_commute)
  show "i \<noteq> Audit_Events_Total \<Longrightarrow> i \<noteq> Audit_Delivery_Duration_Seconds \<Longrightarrow>
       log_sum i a (p_metrics q) = log_sum i a (p_metrics p) \<and> log_count i (p_metrics q) = log_count i (p_metrics p)"
    by (cases err) (simp_all add: m record_audit_delivery_def add_audit_event_def metric_simps)
  have ok2: "milestones_ok (with_metrics f p2)" if "milestones_ok p" for f
    using that by (simp add: milestones_ok_def info_lines_def with_metrics_def p2)
  show "milestones_ok q" if "milestones_ok p"
    using ok2 [OF that] calm_milestones(4) calm_say [of Log_Error]
    by (cases err) (auto simp: q calm_def)
qed

lemma build_and_send_eq:
  fixes env p
  defines "now \<equiv> env_clock env (p_ticks p)"
  shows "\<exists>event. build us (env_new_uuid env (Suc (p_ticks p))) (h_builder h) (job_input job now) = Inr event \<and>
    build_and_send_audit_event us send h env job p =
      send_best_effort send env event (with_metrics (add_audit_event ''built'') (p\<lparr>p_ticks := Suc (p_ticks p)\<rparr>))"
proof -
  obtain event where "build us (env_new_uuid env (Suc (p_ticks p))) (h_builder h) (job_input job now) = Inr event"
    using build_parts [of "job_input job now" "job_request job" "job_info job" us "env_new_uuid env (Suc (p_ticks p))"
        "h_builder h"] by (metis job_input_def audit_input.simps(1,2))
  then show ?thesis by (auto simp: build_and_send_audit_event_def time_now_def now_def)
qed

text \<open>
  C10: an audit job never fails to build its event, hands it to the sender once and counts it as built and
  as sent or failed; whatever the receiver does, files, pending jobs and the backend are left alone.
\<close>

theorem audit_job_outcome:
  "\<exists>event. build us (env_new_uuid env (Suc (p_ticks p))) (h_builder h) (job_input job (env_clock env (p_ticks p))) =
       Inr event \<and>
     (case send (wrap event) (p_net p) of
        (err, net) \<Rightarrow>
          (let q = build_and_send_audit_event us send h env job p
           in p_net q = net \<and> p_os q = p_os p \<and> p_jobs q = p_jobs p \<and> p_upstream q = p_upstream p \<and>
              audit_events ''built'' q = audit_events ''built'' p + 1 \<and>
              audit_events ''build_error'' q = audit_events ''build_error'' p \<and>
              audit_events ''sent'' q = audit_events ''sent'' p + of_bool (err = None) \<and>
              audit_events ''send_error'' q = audit_events ''send_error'' p + of_bool (err \<noteq> None)))"
proof -
  obtain event where b: "build us (env_new_uuid env (Suc (p_ticks p))) (h_builder h)
      (job_input job (env_clock env (p_ticks p))) = Inr event"
    and e: "build_and_send_audit_event us send h env job p =
      send_best_effort send env event (with_metrics (add_audit_event ''built'') (p\<lparr>p_ticks := Suc (p_ticks p)\<rparr>))"
    using build_and_send_eq by blast
  let ?p1 = "with_metrics (add_audit_event ''built'') (p\<lparr>p_ticks := Suc (p_ticks p)\<rparr>)"
  have p1: "p_net ?p1 = p_net p" "p_os ?p1 = p_os p" "p_jobs ?p1 = p_jobs p" "p_upstream ?p1 = p_upstream p"
    by (simp_all add: with_metrics_def)
  have a1: "audit_events oc ?p1 = audit_events oc p + of_bool (oc = ''built'')" for oc
    by (simp add: audit_events_def with_metrics_def add_audit_event_def metric_simps outcome_matches of_bool_def eq_commute)
  note se = send_best_effort_effects [where send = send and env = env and event = event and p = ?p1, folded e, unfolded p1 a1]
  show ?thesis
    using se by (intro exI [of _ event]) (simp add: b Let_def split_beta)
qed

section \<open>The process\<close>

text \<open>
  One step: a request is served, or a pending job runs.  Every request and every job sees an environment of
  its own.
\<close>

inductive process_step ::
  "('x, 'e) handler \<Rightarrow> (bytes \<Rightarrow> 's status option) \<Rightarrow> ('k, 's, 'n, 'f) webhook_lib \<Rightarrow> webhook_client \<Rightarrow>
     'n webhook_world process \<Rightarrow> 'n webhook_world process \<Rightarrow> bool"
  for h us lib c where
  Serve: "serve_http h env (fresh_client hdr) r body p = Some (served, x) \<Longrightarrow> process_step h us lib c p (ex_proc x)"
| Deliver: "p_jobs p = js @ job # ks \<Longrightarrow>
    process_step h us lib c p (build_and_send_audit_event us (client_send lib c) h env job (p\<lparr>p_jobs := js @ ks\<rparr>))"

inductive process_reach ::
  "('x, 'e) handler \<Rightarrow> (bytes \<Rightarrow> 's status option) \<Rightarrow> ('k, 's, 'n, 'f) webhook_lib \<Rightarrow> webhook_client \<Rightarrow>
     'n webhook_world process \<Rightarrow> 'n webhook_world process \<Rightarrow> bool"
  for h us lib c p0 where
  Start: "process_reach h us lib c p0 p0"
| Step: "process_reach h us lib c p0 p \<Longrightarrow> process_step h us lib c p q \<Longrightarrow> process_reach h us lib c p0 q"

text \<open>What the counters, the pending jobs and the webhook's posts say between two moments of the process.\<close>

definition posts_of :: "'n webhook_world process \<Rightarrow> int" where
  "posts_of p = int (length (wh_posts (p_net p)))"

definition since :: "('w process \<Rightarrow> int) \<Rightarrow> 'w process \<Rightarrow> 'w process \<Rightarrow> int" where
  "since f p q = f q - f p"

definition requests_of :: "'w process \<Rightarrow> int" where
  "requests_of p = int (log_count Requests_Total (p_metrics p))"

definition pending_of :: "'w process \<Rightarrow> int" where
  "pending_of p = int (length (p_jobs p))"

definition accounts_agree :: "'n webhook_world process \<Rightarrow> 'n webhook_world process \<Rightarrow> bool" where
  "accounts_agree p q \<longleftrightarrow>
     since (audit_events ''built'') p q = since (audit_events ''sent'') p q + since (audit_events ''send_error'') p q \<and>
     since (audit_events ''build_error'') p q = 0 \<and>
     since (audit_events ''sent'') p q \<le> since posts_of p q \<and>
     since posts_of p q \<le> since (audit_events ''built'') p q \<and>
     since pending_of p q + since (audit_events ''built'') p q \<le> since requests_of p q \<and>
     (\<forall>a. log_sum Streams_Active a (p_metrics q) = log_sum Streams_Active a (p_metrics p))"

lemma since_trans: "since f p s = since f p q + since f q s"
  by (simp add: since_def)

lemma accounts_agree_refl: "accounts_agree p p"
  by (simp add: accounts_agree_def since_def)

lemma accounts_agree_trans:
  assumes "accounts_agree p q" "accounts_agree q s"
  shows "accounts_agree p s"
proof -
  note t = since_trans [where p = p and q = q and s = s]
  show ?thesis
    using assms unfolding accounts_agree_def
    by (simp add: t [of "audit_events ''built''"] t [of "audit_events ''sent''"] t [of "audit_events ''send_error''"]
        t [of "audit_events ''build_error''"] t [of posts_of] t [of pending_of] t [of requests_of])
qed

lemma routed_jobs:
  assumes "routed h env r body x served y"
  shows "length (xjobs y) \<le> Suc (length (xjobs x))"
proof (cases "route_of h env r")
  case (Audit user info)
  then show ?thesis
    using assms audited_outcome_adds(2) by (fastforce simp: routed_def)
qed (use assms in \<open>auto simp: routed_def same_effects_def passthrough_outcome_def\<close>)

lemma serve_accounts:
  assumes "serve_http h env (fresh_client hdr) r body p = Some (served, x)"
  shows "accounts_agree p (ex_proc x)" "milestones_ok p \<Longrightarrow> milestones_ok (ex_proc x)"
proof -
  note a = serve_http_accounts [of h env "fresh_client hdr" r body p, unfolded assms]
  have same: "audit_events oc (ex_proc x) = audit_events oc p" for oc
    using a log_sum_log_of [of Audit_Events_Total] by (simp add: audit_events_def) metis
  have "calm p (ex_proc x)" by (rule serve_http_calm [OF assms])
  moreover have "length (xjobs x) \<le> Suc (length (p_jobs p))"
    using serve_http_routed [of h env hdr r body p] routed_jobs [of h env r body "arrival env hdr r p" served x] assms
    by (auto simp: arrival_def time_now_def)
  ultimately show "accounts_agree p (ex_proc x)"
    using a by (simp add: accounts_agree_def since_def same posts_of_def pending_of_def requests_of_def calm_def)
  show "milestones_ok p \<Longrightarrow> milestones_ok (ex_proc x)"
    using serve_http_calm [OF assms] by (simp add: calm_def)
qed

lemma deliver_accounts:
  assumes "p_jobs p = js @ job # ks"
    and q: "q = build_and_send_audit_event us (client_send lib c) h env job (p\<lparr>p_jobs := js @ ks\<rparr>)"
  shows "accounts_agree p q" "milestones_ok p \<Longrightarrow> milestones_ok q"
proof -
  let ?p = "p\<lparr>p_jobs := js @ ks\<rparr>"
  obtain event where e: "q = send_best_effort (client_send lib c) env event
      (with_metrics (add_audit_event ''built'') (?p\<lparr>p_ticks := Suc (p_ticks ?p)\<rparr>))"
    unfolding q using build_and_send_eq by blast
  let ?p1 = "with_metrics (add_audit_event ''built'') (?p\<lparr>p_ticks := Suc (p_ticks ?p)\<rparr>)"
  have p1: "p_net ?p1 = p_net p" "p_jobs ?p1 = js @ ks" by (simp_all add: with_metrics_def)
  have a1: "audit_events oc ?p1 = audit_events oc p + of_bool (oc = ''built'')" for oc
    by (simp add: audit_events_def with_metrics_def add_audit_event_def metric_simps outcome_matches of_bool_def eq_commute)
  have m1: "log_sum i a (p_metrics ?p1) = log_sum i a (p_metrics p)"
    "log_count i (p_metrics ?p1) = log_count i (p_metrics p)" if "i \<noteq> Audit_Events_Total" for i a
    using that by (simp_all add: with_metrics_def add_audit_event_def metric_simps)
  note se = send_best_effort_effects [where send = "client_send lib c" and env = env and event = event and p = ?p1,
      folded e, unfolded p1 a1]
  let ?res = "client_send lib c (wrap event) (p_net p)"
  have posts: "length (wh_posts (snd ?res)) \<le> Suc (length (wh_posts (p_net p)))"
    "fst ?res = None \<Longrightarrow> length (wh_posts (snd ?res)) = Suc (length (wh_posts (p_net p)))"
    using client.posts_after [of lib c "wrap event" "p_net p"] by simp_all
  have grow: "length (wh_posts (p_net p)) \<le> length (wh_posts (snd ?res))"
    using client.posts_grow [of lib c "wrap event" "p_net p" "fst ?res" "snd ?res"]
    by (metis length_append le_add1 length_map prod.collapse)
  have "since posts_of p q \<le> 1" "0 \<le> since posts_of p q" "fst ?res = None \<Longrightarrow> since posts_of p q = 1"
    using posts grow se(1) by (simp_all add: since_def posts_of_def)
  moreover have "since (audit_events oc) p q = of_bool (oc = ''built'') +
      (if fst ?res = None then of_bool (oc = ''sent'') else of_bool (oc = ''send_error''))" for oc
    using se(5) by (simp add: since_def)
  moreover have "since pending_of p q = -1" using se(3) assms(1) by (simp add: since_def pending_of_def)
  moreover have "since requests_of p q = 0"
    using se(6) [of Requests_Total] m1(2) [of Requests_Total] by (simp add: since_def requests_of_def)
  moreover have "log_sum Streams_Active a (p_metrics q) = log_sum Streams_Active a (p_metrics p)" for a
    using se(6) [of Streams_Active a] m1(1) [of Streams_Active] by simp
  ultimately show "accounts_agree p q"
    by (cases "fst ?res = None") (simp_all add: accounts_agree_def)
  show "milestones_ok q" if "milestones_ok p"
    using se(7) that by (simp add: milestones_ok_def info_lines_def with_metrics_def)
qed

lemma process_step_accounts:
  assumes "process_step h us lib c p q"
  shows "accounts_agree p q" "milestones_ok p \<Longrightarrow> milestones_ok q"
  using assms by (cases, auto intro: serve_accounts deliver_accounts [OF _ refl])+

text \<open>
  C9: in every run of the process, whatever the requests, the backends, the receiver and the order in which
  jobs run: every event that was built was sent or failed to be sent, none failed to be built; every event
  counted as sent was posted, and no event was posted that was not built; a request leads to at most one
  event, built or pending; and no stream stays open on the gauge.
\<close>

theorem delivery_accounting:
  assumes "process_reach h us lib c p0 p"
  shows "accounts_agree p0 p"
  using assms
proof induction
  case Start
  show ?case by (rule accounts_agree_refl)
next
  case (Step p q)
  then show ?case using accounts_agree_trans process_step_accounts(1) by blast
qed

text \<open>
  C12: each of the four milestones is logged at most once in the life of the process, exactly when its
  flag is set, and nothing else is logged at level info.
\<close>

theorem milestones_logged_once:
  assumes "process_reach h us lib c p0 p" "p_lines p0 = []"
    "p_once p0 = \<lparr>first_request = False, first_verified_request = False, first_backend_ok = False, first_webhook_ok = False\<rparr>"
  shows "distinct (filter (\<lambda>l. fst l = Log_Info) (p_lines p)) \<and>
    set (filter (\<lambda>l. fst l = Log_Info) (p_lines p)) = milestone_lines (p_once p)"
proof -
  have "milestones_ok p"
    using assms
  proof induction
    case Start
    then show ?case by (simp add: milestones_ok_def info_lines_def milestone_lines_def)
  next
    case (Step p q)
    then show ?case using process_step_accounts(2) by blast
  qed
  then show ?thesis by (simp add: milestones_ok_def info_lines_def)
qed

section \<open>What an event says of an exchange\<close>

text \<open>
  A recorded body.  A body within the limit is recorded whole if it is JSON, and not at all if it is blank or
  not JSON.  A longer body is recorded as a placeholder with its true sizes, and not at all if the part that
  was captured is blank.  A part of a body is never recorded.
\<close>

definition recorded :: "int64 \<Rightarrow> bytes \<Rightarrow> unknown option \<Rightarrow> bool" where
  "recorded limit data u \<longleftrightarrow>
     (if int (length data) \<le> sint limit
      then (if trim_space data = [] \<or> \<not> json_valid data then u = None
            else \<exists>w. u = Some w \<and> raw w = data \<and> content_type w = ''application/json'')
      else if trim_space (take (nat (sint limit)) data) = [] then u = None
      else \<exists>w. u = Some w \<and> content_type w = ''application/json'' \<and>
             parse_json (raw w) =
               Some (J_Obj [(''capturedBytes'', J_Num (itoa (sint limit))),
                            (''originalSizeBytes'', J_Num (itoa (int (length data)))),
                            (''truncated'', J_Bool True)]))"

lemma recorded_unknown:
  assumes "represents h b data" "length data < 2 ^ 63"
  shows "recorded (h_capture_max h) data (fst (build_unknown (captured b) (sp_size b) (truncated b)))"
proof -
  have size: "sint (of_nat (length data) :: int64) = int (length data)" by (rule sint_of_nat_int64 [OF assms(2)])
  have c: "captured b = take (nat (sint (h_capture_max h))) data"
    and t: "truncated b = (sint (h_capture_max h) < int (length data))" and s: "sint (sp_size b) = int (length data)"
    using assms(1) size by (simp_all add: represents_def)
  show ?thesis
  proof (cases "int (length data) \<le> sint (h_capture_max h)")
    case True
    then have "captured b = data" using c by simp
    with True t show ?thesis by (simp add: recorded_def build_unknown_def)
  next
    case False
    show ?thesis
    proof (cases "0 < sint (h_capture_max h)")
      case True
      then have "int (length (captured b)) = sint (h_capture_max h)" using c False by simp
      with False t c s show ?thesis by (simp add: recorded_def build_unknown_def marshalled_placeholder)
    next
      case no: False
      then have "captured b = []" using c by simp
      with False no show ?thesis by (simp add: recorded_def build_unknown_def)
    qed
  qed
qed

text \<open>
  C8: the event of an exchange names the authenticated user, the verb of the request and the backend's
  status, and records each of the two bodies by the same rule: a body within the capture limit whole if it is
  JSON and not at all otherwise, a longer one as a placeholder with its true sizes, or not at all if its
  captured part is blank; never in part.
\<close>

theorem event_records_exchange:
  assumes "faithful h r info user content at resp job"
    and "length content < 2 ^ 63" "length (script_content (rs_body resp)) < 2 ^ 63"
  shows "\<exists>event. build us uuid (h_builder h) (job_input job now) = Inr event \<and>
     ev_user event = user \<and> ev_verb event = verb info \<and> ev_request_uri event = request_uri (rq_url r) \<and>
     ev_request_received event = at \<and> ev_stage_timestamp event = now \<and>
     ev_response_status event =
       build_response_status us (rs_status_code resp) (take (nat (sint (h_capture_max h))) (script_content (rs_body resp))) \<and>
     recorded (h_capture_max h) content (ev_request_object event) \<and>
     recorded (h_capture_max h) (script_content (rs_body resp)) (ev_response_object event)"
proof -
  note f = assms(1) [unfolded faithful_def]
  have rq: "represents h (job_request_body job) content" and rs: "represents h (job_response_body job) (script_content (rs_body resp))"
    using f by blast+
  have inp: "in_request (job_input job now) = Some r" "in_request_info (job_input job now) = Some info"
    using f by (simp_all add: job_input_def)
  obtain ev where ev: "build us uuid (h_builder h) (job_input job now) = Inr ev"
    "ev_verb ev = verb info" "ev_user ev = in_user (job_input job now)" "ev_request_uri ev = request_uri (rq_url r)"
    "ev_request_received ev = in_request_received_at (job_input job now)"
    "ev_stage_timestamp ev = in_response_completed_at (job_input job now)"
    "ev_response_status ev = build_response_status us (in_response_status_code (job_input job now))
       (in_response_body (job_input job now))"
    "ev_request_object ev = fst (build_unknown (in_request_body (job_input job now))
       (in_request_body_bytes (job_input job now)) (in_request_body_truncated (job_input job now)))"
    "ev_response_object ev = fst (build_unknown (in_response_body (job_input job now))
       (in_response_body_bytes (job_input job now)) (in_response_body_truncated (job_input job now)))"
    by (rule build_parts [OF inp, of us uuid "h_builder h"]) blast
  show ?thesis
    using ev f recorded_unknown [OF rq assms(2)] recorded_unknown [OF rs assms(3)] rs
    by (intro exI [of _ ev]) (simp add: job_input_def represents_def)
qed

section \<open>Witnesses\<close>

definition sample_spool :: "bytes \<Rightarrow> spooled_body" where
  "sample_spool data = \<lparr>sp_path = ''/tmp/x'', captured = take 16 data, sp_size = of_nat (length data),
     truncated = (16 < sint (of_nat (length data) :: int64))\<rparr>"

definition sample_job :: audit_job where
  "sample_job = \<lparr>job_request = header_request [], job_info = sample_info, job_user = sample_user,
     job_request_body = sample_spool ''{}'', job_response_body = sample_spool ''ok'', job_status_code = 201,
     job_received_at = 1\<rparr>"

definition sample_lib :: "(unit, unit, unit, unit) webhook_lib" where
  "sample_lib =
     \<lparr>build_config_from_flags = (\<lambda>_. Inr ()), transport_for = (\<lambda>_. None), config_host = (\<lambda>_. ''https://hook''),
      parse_url = (\<lambda>_. Inl ()), reparse = Inr, marshal_events = (\<lambda>_. Inr ''[]''),
      do_request = (\<lambda>_ n. (Inr \<lparr>wr_status_code = 200, wr_status = ''200 OK'', wr_body = []\<rparr>, n))\<rparr>"

definition sample_client :: webhook_client where
  "sample_client = \<lparr>endpoint = \<lparr>scheme = ''https'', url_host = ''hook'', path = '''', raw_path = '''',
     force_query = False, raw_query = ''''\<rparr>, client_timeout = 5\<rparr>"

definition sample_process :: "unit webhook_world process" where
  "sample_process =
     \<lparr>p_os = empty_os, p_metrics = [], p_lines = [], p_once = \<lparr>first_request = False, first_verified_request = False,
        first_backend_ok = False, first_webhook_ok = False\<rparr>, p_ticks = 0, p_jobs = [sample_job], p_upstream = [],
      p_net = \<lparr>wh_net = (), wh_posts = [], wh_open_bodies = 0\<rparr>\<rparr>"

definition sample_unmarshal :: "bytes \<Rightarrow> unit status option" where
  "sample_unmarshal b = None"

lemma sample_run:
  "\<exists>q. process_reach sample_handler sample_unmarshal sample_lib sample_client sample_process q \<and> p_jobs q = [] \<and>
     length (wh_posts (p_net q)) = 1"
proof -
  let ?q = "build_and_send_audit_event sample_unmarshal (client_send sample_lib sample_client) sample_handler sample_env
      sample_job (sample_process\<lparr>p_jobs := [] @ []\<rparr>)"
  have jobs: "p_jobs sample_process = [] @ sample_job # []" by (simp add: sample_process_def)
  have "process_reach sample_handler sample_unmarshal sample_lib sample_client sample_process ?q"
    by (rule process_reach.Step [OF process_reach.Start process_step.Deliver [OF jobs]])
  moreover obtain event where e: "?q = send_best_effort (client_send sample_lib sample_client) sample_env event
      (with_metrics (add_audit_event ''built'') ((sample_process\<lparr>p_jobs := [] @ []\<rparr>)\<lparr>p_ticks := Suc 0\<rparr>))"
    using build_and_send_eq [of sample_unmarshal sample_env "sample_process\<lparr>p_jobs := [] @ []\<rparr>" sample_handler sample_job
        "client_send sample_lib sample_client"] by (auto simp: sample_process_def)
  moreover have "p_jobs ?q = []" "length (wh_posts (p_net ?q)) = 1"
    unfolding e
    by (simp_all add: send_best_effort_effects(1,3) with_metrics_def sample_process_def client_send_def sample_lib_def Let_def)
  ultimately show ?thesis by blast
qed

lemma delivery_accounting_witness:
  "\<exists>q. p_jobs q = [] \<and> length (wh_posts (p_net q)) = 1 \<and> accounts_agree sample_process q"
  using sample_run delivery_accounting by blast

lemma milestones_logged_once_witness:
  "\<exists>q. process_reach sample_handler sample_unmarshal sample_lib sample_client sample_process q \<and> p_jobs q = [] \<and>
     distinct (filter (\<lambda>l. fst l = Log_Info) (p_lines q))"
proof -
  obtain q where q: "process_reach sample_handler sample_unmarshal sample_lib sample_client sample_process q" "p_jobs q = []"
    using sample_run by blast
  then show ?thesis
    using milestones_logged_once [OF q(1)] by (auto simp: sample_process_def)
qed

lemma event_records_exchange_witness:
  "\<exists>event. build sample_unmarshal ''id'' (h_builder sample_handler) (job_input sample_job 2) = Inr event \<and>
     ev_user event = sample_user \<and> recorded 16 ''{}'' (ev_request_object event)"
proof -
  have f: "faithful sample_handler (header_request []) sample_info sample_user ''{}'' 1 sample_response sample_job"
    by (simp add: faithful_def sample_job_def represents_def sample_spool_def sample_handler_def sample_response_def)
  show ?thesis
    using event_records_exchange [OF f, of sample_unmarshal "''id''" 2]
    by (auto simp: sample_handler_def sample_response_def)
qed

end
