(* ===== verification/Go_Flag.thy ===== *)
theory Go_Flag
  imports Go_Strings
begin

text \<open>
  Go's \<open>flag\<close> package as \<open>parseFlags\<close> uses it: a flag set with string, boolean, 64-bit integer and duration
  variables, \<open>FlagSet.Parse\<close> under \<open>ContinueOnError\<close> and \<open>FlagSet.Visit\<close>; and the value syntax of
  \<open>strconv.ParseBool\<close>, \<open>strconv.ParseInt(s, 0, 64)\<close> and \<open>time.ParseDuration\<close>.  What \<open>Usage\<close> prints is left out.
\<close>

section \<open>Values\<close>

definition parse_bool :: "string \<Rightarrow> bool option" where
  "parse_bool s =
     (if s \<in> {''1'', ''t'', ''T'', ''true'', ''TRUE'', ''True''} then Some True
      else if s \<in> {''0'', ''f'', ''F'', ''false'', ''FALSE'', ''False''} then Some False
      else None)"

text \<open>The value of a digit or letter; \<open>lower\<close> of \<open>strconv\<close> sets a bit, which for letters is the lower case.\<close>

definition digit_value :: "char \<Rightarrow> nat option" where
  "digit_value c =
     (let n = of_char c :: nat; l = of_char (lower_char c) :: nat
      in if 48 \<le> n \<and> n \<le> 57 then Some (n - 48)
         else if 97 \<le> l \<and> l \<le> 122 then Some (l - 97 + 10)
         else None)"

fun uint_digits :: "nat \<Rightarrow> nat \<Rightarrow> string \<Rightarrow> nat option" where
  "uint_digits base acc [] = Some acc"
| "uint_digits base acc (c # cs) =
     (if c = CHR ''_'' then uint_digits base acc cs
      else case digit_value c of
             None \<Rightarrow> None
           | Some d \<Rightarrow> if base \<le> d then None else uint_digits base (acc * base + d) cs)"

text \<open>Underscores may only separate digits; the base prefix counts as a digit.\<close>

fun underscores_ok :: "bool \<Rightarrow> char \<Rightarrow> string \<Rightarrow> bool" where
  "underscores_ok hex saw [] \<longleftrightarrow> saw \<noteq> CHR ''_''"
| "underscores_ok hex saw (c # cs) \<longleftrightarrow>
     (if is_digit c \<or> hex \<and> lower_char c \<in> set ''abcdef'' then underscores_ok hex (CHR ''0'') cs
      else if c = CHR ''_'' then saw = CHR ''0'' \<and> underscores_ok hex (CHR ''_'') cs
      else saw \<noteq> CHR ''_'' \<and> underscores_ok hex (CHR ''!'') cs)"

definition has_base_prefix :: "string \<Rightarrow> bool" where
  "has_base_prefix s \<longleftrightarrow>
     2 \<le> length s \<and> s ! 0 = CHR ''0'' \<and> lower_char (s ! 1) \<in> {CHR ''b'', CHR ''o'', CHR ''x''}"

definition underscore_ok :: "string \<Rightarrow> bool" where
  "underscore_ok s =
     (if has_base_prefix s then underscores_ok (lower_char (s ! 1) = CHR ''x'') (CHR ''0'') (drop 2 s)
      else underscores_ok False (CHR ''^'') s)"

text \<open>\<open>strconv.ParseUint\<close> with base 0; the number is not bounded yet.\<close>

definition parse_uint :: "string \<Rightarrow> nat option" where
  "parse_uint s =
     (if s = '''' then None
      else
        let (base, ds) =
              (if hd s = CHR ''0'' then
                 (if 3 \<le> length s \<and> lower_char (s ! 1) = CHR ''b'' then (2, drop 2 s)
                  else if 3 \<le> length s \<and> lower_char (s ! 1) = CHR ''o'' then (8, drop 2 s)
                  else if 3 \<le> length s \<and> lower_char (s ! 1) = CHR ''x'' then (16, drop 2 s)
                  else (8, drop 1 s))
               else (10, s))
        in case uint_digits base 0 ds of
             None \<Rightarrow> None
           | Some n \<Rightarrow> if CHR ''_'' \<in> set ds \<and> \<not> underscore_ok s then None else Some n)"

text \<open>\<open>strconv.ParseInt(s, 0, 64)\<close>: out of range is an error, as a syntax error is.\<close>

definition parse_int64 :: "string \<Rightarrow> int64 option" where
  "parse_int64 s =
     (let neg = (s \<noteq> '''' \<and> hd s = CHR ''-'');
          digits = (if s \<noteq> '''' \<and> hd s \<in> {CHR ''+'', CHR ''-''} then tl s else s)
      in case parse_uint digits of
           None \<Rightarrow> None
         | Some n \<Rightarrow>
             if neg then (if n \<le> 2 ^ 63 then Some (- of_nat n) else None)
             else (if n < 2 ^ 63 then Some (of_nat n) else None))"

section \<open>Durations\<close>

definition duration_unit :: "string \<Rightarrow> nat option" where
  "duration_unit u =
     (if u = ''ns'' then Some 1
      else if u = ''us'' \<or> u = [CHR 0xC2, CHR 0xB5, CHR ''s''] \<or> u = [CHR 0xCE, CHR 0xBC, CHR ''s''] then Some 1000
      else if u = ''ms'' then Some 1000000
      else if u = ''s'' then Some 1000000000
      else if u = ''m'' then Some 60000000000
      else if u = ''h'' then Some 3600000000000
      else None)"

text \<open>\<open>leadingFraction\<close>: the digits that still fit, and the power of ten that scales them.\<close>

fun fraction_digits :: "nat \<times> nat \<times> bool \<Rightarrow> string \<Rightarrow> nat \<times> nat \<times> bool" where
  "fraction_digits st [] = st"
| "fraction_digits (x, scale, overflow) (c # cs) =
     (let y = x * 10 + (of_char c - 48)
      in fraction_digits
           (if overflow then (x, scale, True)
            else if (2 ^ 63 - 1) div 10 < x then (x, scale, True)
            else if 2 ^ 63 < y then (x, scale, True)
            else (y, Suc scale, False)) cs)"

text \<open>
  One component \<open>digits[.digits]unit\<close>: its nanoseconds and the rest.  \<open>frac f scale unit\<close> is the value the
  code computes in \<open>float64\<close> as \<open>f * (unit / 10^scale)\<close>, cut to an integer.
\<close>

definition duration_number :: "string \<Rightarrow> string \<times> string \<times> string" where
  "duration_number s =
     (let s1 = dropWhile is_digit s
      in if s1 \<noteq> [] \<and> hd s1 = CHR ''.''
         then (takeWhile is_digit s, takeWhile is_digit (tl s1), dropWhile is_digit (tl s1))
         else (takeWhile is_digit s, [], s1))"

definition unit_char :: "char \<Rightarrow> bool" where
  "unit_char c \<longleftrightarrow> c \<noteq> CHR ''.'' \<and> \<not> is_digit c"

definition duration_component ::
  "(nat \<Rightarrow> nat \<Rightarrow> nat \<Rightarrow> nat) \<Rightarrow> string \<Rightarrow> (nat \<times> string) option" where
  "duration_component frac s =
     (case duration_number s of (pre, post, s2) \<Rightarrow>
        if 2 ^ 63 < nat_of_digits 0 pre then None
        else if pre = [] \<and> post = [] then None
        else case duration_unit (takeWhile unit_char s2) of
               None \<Rightarrow> None
             | Some unit \<Rightarrow>
                 if 2 ^ 63 div unit < nat_of_digits 0 pre then None
                 else
                   (case fraction_digits (0, 0, False) post of
                      (f, scale, _) \<Rightarrow>
                        let d = nat_of_digits 0 pre * unit + (if 0 < f then frac f scale unit else 0)
                        in if 2 ^ 63 < d then None else Some (d, dropWhile unit_char s2)))"

lemma dropWhile_shorter:
  "length (dropWhile P s) \<le> length s"
  "takeWhile P s \<noteq> [] \<Longrightarrow> length (dropWhile P s) < length s"
  by (induction s) (auto split: if_splits simp: less_Suc_eq_le)

lemma duration_number_shorter: "duration_number s = (pre, post, s2) \<Longrightarrow> length s2 \<le> length s"
proof -
  have t: "length (dropWhile is_digit (tl t)) \<le> length t" for t :: string
    using dropWhile_shorter(1) [of is_digit "tl t"] by simp
  have "length (dropWhile is_digit (tl (dropWhile is_digit s))) \<le> length s"
    by (rule le_trans [OF t dropWhile_shorter(1)])
  then show "duration_number s = (pre, post, s2) \<Longrightarrow> length s2 \<le> length s"
    using dropWhile_shorter(1) [of is_digit s] by (auto simp: duration_number_def Let_def split: if_splits)
qed

lemma duration_unit_Nil [simp]: "duration_unit [] = None"
  by (simp add: duration_unit_def)

lemma duration_component_shorter:
  assumes "duration_component frac s = Some (d, s')"
  shows "length s' < length s"
proof -
  obtain pre post s2 where n: "duration_number s = (pre, post, s2)" by (metis prod_cases3)
  have "s' = dropWhile unit_char s2 \<and> duration_unit (takeWhile unit_char s2) \<noteq> None"
    using assms by (auto simp: duration_component_def n Let_def split: option.splits prod.splits if_splits)
  then have s': "s' = dropWhile unit_char s2" and u: "takeWhile unit_char s2 \<noteq> []" by auto
  show ?thesis
    unfolding s' using dropWhile_shorter(2) [OF u] duration_number_shorter [OF n] by (rule less_le_trans)
qed

text \<open>The sum is a \<open>uint64\<close>, so two components of \<open>2 ^ 63\<close> wrap to zero and pass the check.\<close>

function duration_total :: "(nat \<Rightarrow> nat \<Rightarrow> nat \<Rightarrow> nat) \<Rightarrow> nat \<Rightarrow> string \<Rightarrow> nat option" where
  "duration_total frac acc s =
     (if s = '''' then Some acc
      else case duration_component frac s of
             None \<Rightarrow> None
           | Some (d, s') \<Rightarrow>
               let acc = (acc + d) mod 2 ^ 64
               in if 2 ^ 63 < acc then None else duration_total frac acc s')"
  by pat_completeness auto
termination
  by (relation "measure (\<lambda>(frac, acc, s). length s)") (auto dest: duration_component_shorter)

declare duration_total.simps [simp del]

definition parse_duration :: "(nat \<Rightarrow> nat \<Rightarrow> nat \<Rightarrow> nat) \<Rightarrow> string \<Rightarrow> int option" where
  "parse_duration frac s =
     (let neg = (s \<noteq> '''' \<and> hd s = CHR ''-'');
          t = (if s \<noteq> '''' \<and> hd s \<in> {CHR ''+'', CHR ''-''} then tl s else s)
      in if t = ''0'' then Some 0
         else if t = '''' then None
         else case duration_total frac 0 t of
                None \<Rightarrow> None
              | Some d \<Rightarrow> if neg then Some (- int d) else if 2 ^ 63 - 1 < d then None else Some (int d))"

section \<open>Flag sets\<close>

datatype 'c flag_var =
    String_Var "string \<Rightarrow> 'c \<Rightarrow> 'c"
  | Bool_Var "bool \<Rightarrow> 'c \<Rightarrow> 'c"
  | Int64_Var "int64 \<Rightarrow> 'c \<Rightarrow> 'c"
  | Duration_Var "int \<Rightarrow> 'c \<Rightarrow> 'c"

type_synonym 'c flag_set = "string \<rightharpoonup> 'c flag_var"

datatype flag_error =
    Bad_Flag_Syntax string
  | Flag_Help
  | Flag_Not_Defined string
  | Invalid_Boolean string string
  | Flag_Needs_Argument string
  | Invalid_Flag_Value string string

text \<open>\<open>Value.Set\<close> of each kind of variable.\<close>

fun set_var :: "(nat \<Rightarrow> nat \<Rightarrow> nat \<Rightarrow> nat) \<Rightarrow> 'c flag_var \<Rightarrow> string \<Rightarrow> 'c \<Rightarrow> 'c option" where
  "set_var frac (String_Var f) v c = Some (f v c)"
| "set_var frac (Bool_Var f) v c = map_option (\<lambda>b. f b c) (parse_bool v)"
| "set_var frac (Int64_Var f) v c = map_option (\<lambda>n. f n c) (parse_int64 v)"
| "set_var frac (Duration_Var f) v c = map_option (\<lambda>d. f d c) (parse_duration frac v)"

definition is_bool_var :: "'c flag_var \<Rightarrow> bool" where
  "is_bool_var v = (case v of Bool_Var _ \<Rightarrow> True | _ \<Rightarrow> False)"

text \<open>The name and the value of \<open>name=value\<close>; the first byte of a name cannot be the sign.\<close>

definition cut_flag :: "string \<Rightarrow> string \<times> string option" where
  "cut_flag name =
     (case index_byte CHR ''='' (tl name) of
        None \<Rightarrow> (name, None)
      | Some i \<Rightarrow> (take (Suc i) name, Some (drop (i + 2) name)))"

datatype 'c parsed_one =
    No_Flag "string list"
  | Flag_Seen string 'c "string list"
  | Flag_Failed flag_error

text \<open>\<open>FlagSet.parseOne\<close>, on the remaining arguments.\<close>

definition parse_one ::
  "(nat \<Rightarrow> nat \<Rightarrow> nat \<Rightarrow> nat) \<Rightarrow> 'c flag_set \<Rightarrow> string list \<Rightarrow> 'c \<Rightarrow> 'c parsed_one" where
  "parse_one frac fs args c =
     (case args of
        [] \<Rightarrow> No_Flag []
      | s # rest \<Rightarrow>
          if length s < 2 \<or> s ! 0 \<noteq> CHR ''-'' then No_Flag args
          else if s = ''--'' then No_Flag rest
          else
            let name = (if s ! 1 = CHR ''-'' then drop 2 s else drop 1 s)
            in if name = '''' \<or> hd name = CHR ''-'' \<or> hd name = CHR ''='' then Flag_Failed (Bad_Flag_Syntax s)
               else
                 let (name, value) = cut_flag name
                 in case fs name of
                      None \<Rightarrow>
                        Flag_Failed (if name = ''help'' \<or> name = ''h'' then Flag_Help else Flag_Not_Defined name)
                    | Some var \<Rightarrow>
                        if is_bool_var var then
                          let v = (case value of None \<Rightarrow> ''true'' | Some v \<Rightarrow> v)
                          in case set_var frac var v c of
                               None \<Rightarrow> Flag_Failed (Invalid_Boolean v name)
                             | Some c \<Rightarrow> Flag_Seen name c rest
                        else
                          case (case value of
                                  Some v \<Rightarrow> Some (v, rest)
                                | None \<Rightarrow> (case rest of [] \<Rightarrow> None | v # rest \<Rightarrow> Some (v, rest))) of
                            None \<Rightarrow> Flag_Failed (Flag_Needs_Argument name)
                          | Some (v, rest) \<Rightarrow>
                              (case set_var frac var v c of
                                 None \<Rightarrow> Flag_Failed (Invalid_Flag_Value v name)
                               | Some c \<Rightarrow> Flag_Seen name c rest))"

lemma parse_one_shorter: "parse_one frac fs args c = Flag_Seen name c' rest \<Longrightarrow> length rest < length args"
  by (auto simp: parse_one_def Let_def split: list.splits if_splits prod.splits option.splits)

text \<open>\<open>FlagSet.Parse\<close>: the variables, the names that were set (\<open>Visit\<close>) and the remaining arguments.\<close>

function parse_args ::
  "(nat \<Rightarrow> nat \<Rightarrow> nat \<Rightarrow> nat) \<Rightarrow> 'c flag_set \<Rightarrow> string list \<Rightarrow> 'c \<Rightarrow> string set \<Rightarrow>
     flag_error + 'c \<times> string set \<times> string list" where
  "parse_args frac fs args c actual =
     (case parse_one frac fs args c of
        No_Flag rest \<Rightarrow> Inr (c, actual, rest)
      | Flag_Failed e \<Rightarrow> Inl e
      | Flag_Seen name c' rest \<Rightarrow> parse_args frac fs rest c' (insert name actual))"
  by pat_completeness auto
termination
  by (relation "measure (\<lambda>(frac, fs, args, c, actual). length args)") (auto intro: parse_one_shorter)

declare parse_args.simps [simp del]

text \<open>What every assignment of a flag keeps, the parser keeps.\<close>

lemma parse_one_sets:
  assumes "parse_one frac fs args c = Flag_Seen name c' rest"
  shows "\<exists>var v. fs name = Some var \<and> set_var frac var v c = Some c'"
  using assms
  by (auto simp: parse_one_def Let_def split: list.splits if_splits prod.splits option.splits)

lemma parse_args_keeps:
  assumes "parse_args frac fs args c actual = Inr (c', actual', rest)" "P c actual"
    and "\<And>name var v c c' A. fs name = Some var \<Longrightarrow> set_var frac var v c = Some c' \<Longrightarrow> P c A \<Longrightarrow> P c' (insert name A)"
  shows "P c' actual'"
  using assms
proof (induction frac fs args c actual rule: parse_args.induct)
  case (1 frac fs args c actual)
  show ?case
  proof (cases "parse_one frac fs args c")
    case (Flag_Seen name c1 rest1)
    obtain var v where v: "fs name = Some var" "set_var frac var v c = Some c1"
      using parse_one_sets [OF Flag_Seen] by auto
    have p: "P c1 (insert name actual)" by (rule "1.prems"(3) [OF v "1.prems"(2)])
    have "parse_args frac fs rest1 c1 (insert name actual) = Inr (c', actual', rest)"
      using "1.prems"(1) Flag_Seen by (simp add: parse_args.simps [of frac fs args])
    then show ?thesis by (rule "1.IH" [OF Flag_Seen _ p "1.prems"(3)])
  qed (use "1.prems"(1,2) in \<open>simp_all add: parse_args.simps [of frac fs args]\<close>)
qed

section \<open>Printing and parsing values\<close>

text \<open>A printer and a parser of one kind of value: what is printed of a printable value is read back.\<close>

locale value_codec =
  fixes printable :: "'v \<Rightarrow> bool" and render :: "'v \<Rightarrow> string" and read_back :: "string \<Rightarrow> 'v option"
  assumes read_render: "printable v \<Longrightarrow> read_back (render v) = Some v"
begin

lemma set_render: "printable v \<Longrightarrow> map_option (\<lambda>x. f x c) (read_back (render v)) = Some (f v c)"
  by (simp add: read_render)

end

definition render_int64 :: "int64 \<Rightarrow> string" where
  "render_int64 n = itoa (sint n)"

definition render_duration :: "int \<Rightarrow> string" where
  "render_duration d = itoa d @ ''ns''"

lemma parse_format_bool: "parse_bool (format_bool b) = Some b"
proof -
  have "parse_bool (format_bool True) = Some True" "parse_bool (format_bool False) = Some False" by code_simp+
  then show ?thesis by (cases b) simp_all
qed

interpretation bool_codec: value_codec "\<lambda>_. True" format_bool parse_bool
  by unfold_locales (rule parse_format_bool)

lemma uint_digits_decimal:
  "\<forall>c \<in> set ds. is_digit c \<Longrightarrow> uint_digits 10 acc ds = Some (nat_of_digits acc ds)"
proof (induction ds arbitrary: acc)
  case (Cons c cs)
  have d: "48 \<le> (of_char c :: nat)" "(of_char c :: nat) \<le> 57" using Cons.prems by (auto simp: is_digit_def Let_def)
  then have v: "digit_value c = Some (of_char c - 48)" by (simp add: digit_value_def Let_def)
  have "c \<noteq> CHR ''_''" using d by auto
  with v d Cons show ?case by (simp add: mult.commute)
qed simp

lemma parse_uint_digits: "parse_uint (nat_digits n) = Some n"
proof -
  have ds: "\<forall>c \<in> set (nat_digits n). is_digit c" using nat_digits_digits by blast
  then have us: "CHR ''_'' \<notin> set (nat_digits n)" by (auto simp: is_digit_def Let_def)
  show ?thesis
  proof (cases "n = 0")
    case True
    have "parse_uint (nat_digits 0) = Some 0" by code_simp
    with True show ?thesis by simp
  next
    case False
    then have "hd (nat_digits n) \<noteq> CHR ''0''" by (rule nat_digits_hd)
    then show ?thesis using us by (simp add: parse_uint_def uint_digits_decimal [OF ds])
  qed
qed

lemma hd_nat_digits: "is_digit (hd (nat_digits n))"
  using nat_digits_digits [of "hd (nat_digits n)" n] by simp

lemma not_digit_signs [simp]: "\<not> is_digit CHR ''-''" "\<not> is_digit CHR ''+''" "\<not> is_digit CHR ''.''"
  "\<not> is_digit CHR ''n''" "\<not> is_digit CHR ''s''"
  by (simp_all add: is_digit_def)

lemma parse_render_int64: "parse_int64 (render_int64 n) = Some n"
proof (cases "sint n < 0")
  case True
  have r: "- (2 ^ 63) \<le> sint n" using sint_range_size [of n] by (simp add: word_size)
  have "of_nat (nat (- sint n)) = - n" using True by simp
  with True r show ?thesis
    by (simp add: parse_int64_def render_int64_def itoa_def parse_uint_digits Let_def nat_le_iff)
next
  case False
  have r: "sint n < 2 ^ 63" using sint_range_size [of n] by (simp add: word_size)
  let ?d = "nat_digits (nat (sint n))"
  have "hd ?d \<noteq> CHR ''-''" "hd ?d \<noteq> CHR ''+''"
    using hd_nat_digits [of "nat (sint n)"] by (metis not_digit_signs(1), metis not_digit_signs(2))
  with False r show ?thesis
    by (simp add: parse_int64_def render_int64_def itoa_def parse_uint_digits Let_def nat_less_iff)
qed

interpretation int64_codec: value_codec "\<lambda>_. True" render_int64 parse_int64
  by unfold_locales (simp add: parse_render_int64)

lemma takeWhile_all_digits:
  assumes "\<forall>c \<in> set ds. is_digit c"
  shows "takeWhile is_digit (ds @ ''ns'') = ds" "dropWhile is_digit (ds @ ''ns'') = ''ns''"
  using assms by (induction ds) auto

lemma duration_component_ns:
  assumes "n \<le> 2 ^ 63"
  shows "duration_component frac (nat_digits n @ ''ns'') = Some (n, '''')"
proof -
  have "\<forall>c \<in> set (nat_digits n). is_digit c" using nat_digits_digits by blast
  note t = takeWhile_all_digits [OF this]
  have "duration_number (nat_digits n @ ''ns'') = (nat_digits n, [], ''ns'')"
    by (simp add: duration_number_def t)
  moreover have "takeWhile unit_char ''ns'' = ''ns''" "dropWhile unit_char ''ns'' = []" by (simp_all add: unit_char_def)
  ultimately show ?thesis
    using assms by (simp add: duration_component_def duration_unit_def)
qed

lemma parse_render_duration:
  assumes "- (2 ^ 63) \<le> d" "d < 2 ^ 63"
  shows "parse_duration frac (render_duration d) = Some d"
proof -
  have total: "duration_total frac 0 (nat_digits n @ ''ns'') = Some n" if "n \<le> 2 ^ 63" for n
    using duration_component_ns [OF that, of frac] that
    by (simp add: duration_total.simps [of frac 0] duration_total.simps [of frac n] Let_def)
  have shape: "nat_digits n @ ''ns'' \<noteq> ''0''" "nat_digits n @ ''ns'' \<noteq> ''''" for n
    by (cases "nat_digits n"; simp)+
  show ?thesis
  proof (cases "d < 0")
    case True
    then have "nat (- d) \<le> 2 ^ 63" using assms(1) by (simp add: nat_le_iff)
    then show ?thesis
      using True total shape by (simp add: parse_duration_def render_duration_def itoa_def Let_def)
  next
    case False
    let ?n = "nat d" let ?s = "nat_digits ?n @ ''ns''"
    have n: "?n < 2 ^ 63" using assms(2) by (simp add: nat_less_iff)
    have hd: "hd ?s \<noteq> CHR ''-''" "hd ?s \<noteq> CHR ''+''"
      using hd_nat_digits [of ?n] by (simp_all, metis not_digit_signs(1), metis not_digit_signs(2))
    show ?thesis
      using False hd n total [of ?n] shape [of ?n]
      by (simp add: parse_duration_def render_duration_def itoa_def Let_def)
  qed
qed

text \<open>A parsed duration is an \<open>int64\<close>.\<close>

lemma duration_total_bound: "duration_total frac acc s = Some d \<Longrightarrow> acc \<le> 2 ^ 63 \<Longrightarrow> d \<le> 2 ^ 63"
proof (induction frac acc s rule: duration_total.induct)
  case (1 frac acc s)
  show ?case
    using "1.prems" "1.IH"
    by (auto simp: duration_total.simps [of frac acc s] Let_def split: if_splits option.splits prod.splits)
qed

lemma parse_duration_range:
  assumes "parse_duration frac s = Some d"
  shows "- (2 ^ 63) \<le> d \<and> d < 2 ^ 63"
  using assms duration_total_bound [of frac 0]
  by (fastforce simp: parse_duration_def Let_def split: if_splits option.splits)

interpretation duration_codec: value_codec "\<lambda>d. - (2 ^ 63) \<le> d \<and> d < 2 ^ 63" render_duration "parse_duration frac" for frac
  by unfold_locales (simp add: parse_render_duration)

lemma set_var_rendered:
  "set_var frac (Bool_Var f) (format_bool b) c = Some (f b c)"
  "set_var frac (Int64_Var g) (render_int64 n) c = Some (g n c)"
  "- (2 ^ 63) \<le> d \<Longrightarrow> d < 2 ^ 63 \<Longrightarrow> set_var frac (Duration_Var k) (render_duration d) c = Some (k d c)"
  by (simp_all only: set_var.simps bool_codec.set_render int64_codec.set_render duration_codec.set_render simp_thms)

section \<open>Printing and parsing arguments\<close>

text \<open>The argument \<open>--name=v\<close>.\<close>

definition flag_arg :: "string \<Rightarrow> string \<Rightarrow> string" where
  "flag_arg name v = ''--'' @ name @ ''='' @ v"

lemma index_byte_skip:
  "c \<notin> set xs \<Longrightarrow> index_byte c (xs @ c # ys) = Some (length xs)"
  by (induction xs) auto

lemma cut_flag_arg:
  assumes "CHR ''='' \<notin> set name" "name \<noteq> ''''"
  shows "cut_flag (name @ ''='' @ value) = (name, Some value)"
proof -
  obtain c cs where n: "name = c # cs" using assms(2) by (cases name) auto
  have "index_byte CHR ''='' (cs @ CHR ''='' # value) = Some (length cs)"
    using assms(1) n by (intro index_byte_skip) simp
  then show ?thesis by (simp add: cut_flag_def n)
qed

text \<open>A printed flag is read back as its name and value, whatever follows it.\<close>

lemma parse_args_flag:
  assumes "fs name = Some var" "name \<noteq> ''''" "hd name \<noteq> CHR ''-''" "CHR ''='' \<notin> set name"
    and "set_var frac var v c = Some c'"
  shows "parse_args frac fs (flag_arg name v # args) c actual = parse_args frac fs args c' (insert name actual)"
proof -
  have "hd name \<noteq> CHR ''=''" using assms(2,4) by (cases name) auto
  then have "parse_one frac fs (flag_arg name v # args) c = Flag_Seen name c' args"
    using assms cut_flag_arg [OF assms(4,2), of v]
    by (simp add: parse_one_def flag_arg_def Let_def)
  then show ?thesis by (simp add: parse_args.simps [of frac fs "flag_arg name v # args"])
qed

lemma parse_args_Nil: "parse_args frac fs [] c actual = Inr (c, actual, [])"
  by (simp add: parse_args.simps parse_one_def)

text \<open>A setting of one flag: its name, its value as text, and what it does to the variables.\<close>

type_synonym 'c setting = "string \<times> string \<times> ('c \<Rightarrow> 'c)"

definition setting_ok :: "(nat \<Rightarrow> nat \<Rightarrow> nat \<Rightarrow> nat) \<Rightarrow> 'c flag_set \<Rightarrow> 'c setting \<Rightarrow> bool" where
  "setting_ok frac fs st \<longleftrightarrow>
     (case st of (name, v, f) \<Rightarrow>
        name \<noteq> '''' \<and> hd name \<noteq> CHR ''-'' \<and> CHR ''='' \<notin> set name \<and>
        (\<exists>var. fs name = Some var \<and> (\<forall>c. set_var frac var v c = Some (f c))))"

definition setting_args :: "'c setting list \<Rightarrow> string list" where
  "setting_args sts = map (\<lambda>(name, v, f). flag_arg name v) sts"

lemma parse_settings:
  assumes "list_all (setting_ok frac fs) sts"
  shows "parse_args frac fs (setting_args sts) c actual =
    Inr (fold (\<lambda>(name, v, f). f) sts c, actual \<union> set (map fst sts), [])"
  using assms
proof (induction sts arbitrary: c actual)
  case Nil
  show ?case by (simp add: setting_args_def parse_args_Nil)
next
  case (Cons st sts)
  obtain name v f where st: "st = (name, v, f)" by (cases st)
  obtain var where "fs name = Some var" "name \<noteq> ''''" "hd name \<noteq> CHR ''-''" "CHR ''='' \<notin> set name"
    "set_var frac var v c = Some (f c)"
    using Cons.prems by (auto simp: setting_ok_def st)
  then have "parse_args frac fs (setting_args (st # sts)) c actual =
      parse_args frac fs (setting_args sts) (f c) (insert name actual)"
    by (simp add: setting_args_def st parse_args_flag)
  then show ?case using Cons by (simp add: st)
qed

end
