(* ===== verification/Conn_Tracker.thy ===== *)
theory Conn_Tracker
  imports Telemetry
begin

text \<open>
  \<open>connStateTracker\<close> of \<open>cmd/server/main.go\<close>.  \<open>observe\<close> changes the map under the lock and reports
  to the gauge after releasing it, so calls for different connections interleave there: the step relation
  has one step for the locked part and one for each report.  \<open>'c\<close> is the type of connections.
\<close>

datatype conn_state = State_New | State_Active | State_Idle | State_Hijacked | State_Closed

fun conn_state_string :: "conn_state \<Rightarrow> string" where
  "conn_state_string State_New = ''new''"
| "conn_state_string State_Active = ''active''"
| "conn_state_string State_Idle = ''idle''"
| "conn_state_string State_Hijacked = ''hijacked''"
| "conn_state_string State_Closed = ''closed''"

type_synonym 'c conn_states = "'c \<rightharpoonup> conn_state"

definition new_conn_state_tracker :: "'c conn_states" where
  "new_conn_state_tracker = Map.empty"

text \<open>The part of \<open>observe\<close> under the lock: the previous state and the new map.\<close>

definition observe_locked :: "'c \<Rightarrow> conn_state \<Rightarrow> 'c conn_states \<Rightarrow> conn_state option \<times> 'c conn_states" where
  "observe_locked conn next_state states =
     (let previous = states conn
      in (previous,
          if next_state = State_Closed \<or> next_state = State_Hijacked then states(conn := None)
          else states(conn := Some next_state)))"

text \<open>The reports to the gauge, in their order.\<close>

definition observe_reports :: "conn_state option \<Rightarrow> conn_state \<Rightarrow> (string \<times> int) list" where
  "observe_reports previous next_state =
     (case previous of None \<Rightarrow> [] | Some p \<Rightarrow> [(conn_state_string p, -1)]) @
     (if next_state \<noteq> State_Closed \<and> next_state \<noteq> State_Hijacked
      then [(conn_state_string next_state, 1)] else [])"

definition report :: "string \<times> int \<Rightarrow> metric_log \<Rightarrow> metric_log" where
  "report r log = add_connection (fst r) (snd r) log"

text \<open>\<open>observe\<close> without interference.\<close>

definition observe :: "'c \<Rightarrow> conn_state \<Rightarrow> 'c conn_states \<times> metric_log \<Rightarrow> 'c conn_states \<times> metric_log" where
  "observe conn next_state st =
     (case observe_locked conn next_state (fst st) of
        (previous, states) \<Rightarrow> (states, fold report (observe_reports previous next_state) (snd st)))"

section \<open>Interleaved calls\<close>

record 'c tracker_sys =
  ts_states :: "'c conn_states"
  ts_pending :: "(string \<times> int) list list"
  ts_log :: metric_log

inductive tracker_step :: "'c tracker_sys \<Rightarrow> 'c tracker_sys \<Rightarrow> bool" where
  Lock: "observe_locked conn next_state (ts_states s) = (previous, states) \<Longrightarrow>
    tracker_step s (s\<lparr>ts_states := states,
                      ts_pending := ts_pending s @ [observe_reports previous next_state]\<rparr>)"
| Report: "ts_pending s = xs @ (r # rs) # ys \<Longrightarrow>
    tracker_step s (s\<lparr>ts_pending := xs @ rs # ys, ts_log := report r (ts_log s)\<rparr>)"

inductive_cases tracker_stepE: "tracker_step s s'"

inductive tracker_reach :: "'c tracker_sys \<Rightarrow> bool" where
  Start: "tracker_reach \<lparr>ts_states = new_conn_state_tracker, ts_pending = [], ts_log = []\<rparr>"
| Step: "tracker_reach s \<Longrightarrow> tracker_step s s' \<Longrightarrow> tracker_reach s'"

section \<open>The gauge counts connections\<close>

definition gauge :: "string \<Rightarrow> metric_log \<Rightarrow> int" where
  "gauge st log = log_sum Connections_Active [(''state'', st)] log"

definition report_sum :: "string \<Rightarrow> (string \<times> int) list \<Rightarrow> int" where
  "report_sum st rs = sum_list (map snd (filter (\<lambda>r. fst r = st) rs))"

definition tracked :: "string \<Rightarrow> 'c conn_states \<Rightarrow> 'c set" where
  "tracked st states = {c. map_option conn_state_string (states c) = Some st}"

lemma report_sum_simps [simp]:
  "report_sum st [] = 0"
  "report_sum st (r # rs) = (if fst r = st then snd r else 0) + report_sum st rs"
  "report_sum st (rs @ ss) = report_sum st rs + report_sum st ss"
  by (simp_all add: report_sum_def)

lemma gauge_report [metric_simps]:
  "gauge st (report r log) = gauge st log + (if fst r = st then snd r else 0)"
  by (auto simp: gauge_def report_def add_connection_def attrs_match_def metric_simps)

lemma conn_state_string_inj: "conn_state_string a = conn_state_string b \<longleftrightarrow> a = b"
  by (cases a; cases b) simp_all

lemma finite_tracked: "finite (dom states) \<Longrightarrow> finite (tracked st states)"
  by (rule finite_subset [of _ "dom states"]) (auto simp: tracked_def)


lemma tracked_upd_None: "tracked st (states(c := None)) = tracked st states - {c}"
  by (auto simp: tracked_def)

lemma tracked_upd_Some:
  "tracked st (states(c := Some n)) =
     (if conn_state_string n = st then insert c (tracked st states) else tracked st states - {c})"
  by (auto simp: tracked_def)

lemma tracked_member: "c \<in> tracked st states \<longleftrightarrow> (\<exists>p. states c = Some p \<and> conn_state_string p = st)"
  by (auto simp: tracked_def)

lemma observe_reports_count:
  assumes "finite (dom states)" "observe_locked c n states = (previous, states')"
  shows "report_sum st (observe_reports previous n) =
           int (card (tracked st states')) - int (card (tracked st states))"
proof -
  note f = finite_tracked [OF assms(1), of st]
  have c: "int (card (tracked st states)) =
      int (card (tracked st states - {c})) + (if c \<in> tracked st states then 1 else 0)"
    using card.remove [OF f, of c] by (cases "c \<in> tracked st states") simp_all
  have i: "int (card (insert c (tracked st states))) = int (card (tracked st states - {c})) + 1"
    using f by (simp add: card.insert_remove)
  have p: "previous = states c" using assms(2) by (auto simp: observe_locked_def Let_def)
  have m: "(c \<in> tracked st states) = (case previous of None \<Rightarrow> False | Some q \<Rightarrow> conn_state_string q = st)"
    by (auto simp: p tracked_def split: option.splits)
  have s: "int (card (tracked st states')) = int (card (tracked st states - {c})) +
      (if n \<noteq> State_Closed \<and> n \<noteq> State_Hijacked \<and> conn_state_string n = st then 1 else 0)"
    using assms(2) i by (auto simp: observe_locked_def Let_def tracked_upd_None tracked_upd_Some)
  show ?thesis
    unfolding c s m by (auto simp: observe_reports_def split: option.splits)
qed

definition tracker_ok :: "'c tracker_sys \<Rightarrow> bool" where
  "tracker_ok s \<longleftrightarrow>
     finite (dom (ts_states s)) \<and>
     (\<forall>st. gauge st (ts_log s) + report_sum st (concat (ts_pending s)) = int (card (tracked st (ts_states s)))) \<and>
     State_Closed \<notin> ran (ts_states s) \<and> State_Hijacked \<notin> ran (ts_states s)"

lemma observe_locked_finite:
  "finite (dom states) \<Longrightarrow> observe_locked c n states = (previous, states') \<Longrightarrow> finite (dom states')"
  by (auto simp: observe_locked_def Let_def)

lemma observe_locked_ran:
  assumes "observe_locked c n states = (previous, states')"
    and "State_Closed \<notin> ran states" "State_Hijacked \<notin> ran states"
  shows "State_Closed \<notin> ran states'" "State_Hijacked \<notin> ran states'"
  using assms by (auto simp: observe_locked_def Let_def ran_def split: if_splits)

lemma tracker_step_ok: "tracker_step s s' \<Longrightarrow> tracker_ok s \<Longrightarrow> tracker_ok s'"
proof (induction rule: tracker_step.induct)
  case (Lock conn next_state s previous states)
  from Lock have fin: "finite (dom (ts_states s))"
    and g: "\<And>st. gauge st (ts_log s) + report_sum st (concat (ts_pending s)) = int (card (tracked st (ts_states s)))"
    and r: "State_Closed \<notin> ran (ts_states s)" "State_Hijacked \<notin> ran (ts_states s)"
    by (auto simp: tracker_ok_def)
  have "gauge st (ts_log s) + (report_sum st (concat (ts_pending s)) + report_sum st (observe_reports previous next_state))
      = int (card (tracked st states))" for st
    using g [of st] observe_reports_count [OF fin Lock(1), of st] by simp
  then show ?case
    using observe_locked_finite [OF fin Lock(1)] observe_locked_ran [OF Lock(1) r]
    by (simp add: tracker_ok_def)
next
  case (Report s xs r rs ys)
  have "report_sum st (concat (ts_pending s)) =
      (if fst r = st then snd r else 0) + report_sum st (concat (xs @ rs # ys))" for st
    by (simp add: Report)
  with Report(2)
  have "gauge st (ts_log s) + ((if fst r = st then snd r else 0) + report_sum st (concat (xs @ rs # ys))) =
      int (card (tracked st (ts_states s)))" for st
    by (metis tracker_ok_def)
  with Report(2) show ?case
    by (simp add: tracker_ok_def gauge_report algebra_simps)
qed

lemma tracker_reach_ok: "tracker_reach s \<Longrightarrow> tracker_ok s"
proof (induction rule: tracker_reach.induct)
  case Start
  then show ?case
    by (auto simp: tracker_ok_def new_conn_state_tracker_def gauge_def tracked_def)
next
  case (Step s s')
  then show ?case by (simp add: tracker_step_ok)
qed

text \<open>
  C35: in every interleaving of \<open>ConnState\<close> calls, the gauge of each state plus the reports still to be
  made is the number of connections tracked in that state, so with no report outstanding the gauge is
  exact; closed and hijacked connections are not tracked.
\<close>

theorem connection_gauge_exact:
  assumes "tracker_reach s"
  shows "gauge st (ts_log s) + report_sum st (concat (ts_pending s)) = int (card (tracked st (ts_states s))) \<and>
    State_Closed \<notin> ran (ts_states s) \<and> State_Hijacked \<notin> ran (ts_states s)"
  using tracker_reach_ok [OF assms] by (simp add: tracker_ok_def)

text \<open>Two connections whose calls overlap: the second is locked before the first one has reported.\<close>

lemma tracker_reach_overlap:
  "tracker_reach
     \<lparr>ts_states = [0 \<mapsto> State_Active, Suc 0 \<mapsto> State_New],
      ts_pending = [[], [(''new'', 1)], [(''new'', -1), (''active'', 1)]],
      ts_log = report (''new'', 1) []\<rparr>"
proof -
  let ?s0 = "\<lparr>ts_states = new_conn_state_tracker, ts_pending = [], ts_log = []\<rparr> :: nat tracker_sys"
  let ?s1 = "\<lparr>ts_states = [0 \<mapsto> State_New], ts_pending = [[(''new'', 1)]], ts_log = []\<rparr> :: nat tracker_sys"
  let ?s2 = "\<lparr>ts_states = [0 \<mapsto> State_New, Suc 0 \<mapsto> State_New],
      ts_pending = [[(''new'', 1)], [(''new'', 1)]], ts_log = []\<rparr> :: nat tracker_sys"
  let ?s3 = "?s2\<lparr>ts_pending := [[], [(''new'', 1)]], ts_log := report (''new'', 1) []\<rparr>"
  let ?s4 = "?s3\<lparr>ts_states := [0 \<mapsto> State_Active, Suc 0 \<mapsto> State_New],
      ts_pending := [[], [(''new'', 1)], [(''new'', -1), (''active'', 1)]]\<rparr>"
  have "tracker_step ?s0 ?s1"
    using tracker_step.Lock [of 0 State_New ?s0 None "[0 \<mapsto> State_New]"]
    by (simp add: observe_locked_def observe_reports_def new_conn_state_tracker_def)
  moreover have "tracker_step ?s1 ?s2"
    using tracker_step.Lock [of "Suc 0" State_New ?s1 None "[0 \<mapsto> State_New, Suc 0 \<mapsto> State_New]"]
    by (simp add: observe_locked_def observe_reports_def)
  moreover have "tracker_step ?s2 ?s3"
    using tracker_step.Report [of ?s2 "[]" "(''new'', 1)" "[]" "[[(''new'', 1)]]"] by simp
  moreover have "tracker_step ?s3 ?s4"
    using tracker_step.Lock [of 0 State_Active ?s3 "Some State_New" "[0 \<mapsto> State_Active, Suc 0 \<mapsto> State_New]"]
    by (simp add: observe_locked_def observe_reports_def fun_upd_twist)
  ultimately have "tracker_reach ?s4"
    by (meson tracker_reach.intros)
  then show ?thesis by simp
qed

lemma connection_gauge_exact_witness:
  "gauge ''new'' (report (''new'', 1) []) +
     report_sum ''new'' (concat [[], [(''new'', 1)], [(''new'', -1), (''active'', 1)]]) =
     int (card (tracked ''new'' ([0 \<mapsto> State_Active, Suc 0 \<mapsto> State_New] :: nat conn_states)))"
  using connection_gauge_exact [OF tracker_reach_overlap, of "''new''"] by simp

end
