(* ===== verification/Server_Config.thy ===== *)
theory Server_Config
  imports Go_Flag Identity_Extractor Conn_Tracker
begin

text \<open>
  The configuration of \<open>cmd/server/main.go\<close>: its constants, \<open>config\<close>, \<open>parseFlags\<close> with the validations it
  calls, \<open>splitCommaList\<close>, the backend transport and the two servers.  Certificates, certificate pools and
  the files they come from are the fields of \<open>tls_lib\<close>; durations are nanoseconds.
\<close>

section \<open>Constants\<close>

definition default_listen_address :: string where "default_listen_address = '':9445''"
definition default_metrics_address :: string where "default_metrics_address = '':8080''"
definition default_read_header_timeout :: int where "default_read_header_timeout = 15 * 1000000000"
definition default_idle_timeout :: int where "default_idle_timeout = 60 * 1000000000"
definition default_shutdown_timeout :: int where "default_shutdown_timeout = 10 * 1000000000"
definition default_webhook_timeout :: int where "default_webhook_timeout = 5 * 1000000000"
definition default_max_audit_body_size :: int64 where "default_max_audit_body_size = 1024 * 1024"
definition request_header_trust_startup_timeout :: int where
  "request_header_trust_startup_timeout = 30 * 1000000000"
definition request_header_trust_poll_interval :: int where
  "request_header_trust_poll_interval = 100 * 1000000"
definition backend_identity_mode_request_header :: string where
  "backend_identity_mode_request_header = ''requestheader''"
definition backend_identity_mode_impersonation :: string where
  "backend_identity_mode_impersonation = ''impersonation''"
definition default_backend_identity_mode :: string where
  "default_backend_identity_mode = backend_identity_mode_request_header"
definition default_backend_impersonation_token_file :: string where
  "default_backend_impersonation_token_file = ''/var/run/secrets/kubernetes.io/serviceaccount/token''"
definition exit_code_usage :: int where "exit_code_usage = 2"

section \<open>config\<close>

record config =
  listen_address :: string
  metrics_listen_address :: string
  metrics_tls_cert_file :: string
  metrics_tls_private_key_file :: string
  backend_url :: string
  backend_insecure_skip_verify :: bool
  backend_ca_file :: string
  backend_client_cert_file :: string
  backend_client_key_file :: string
  backend_server_name :: string
  backend_identity_mode :: string
  backend_impersonation_token_file :: string
  backend_impersonation_extra_keys :: string
  backend_impersonation_forward_all_extras :: bool
  backend_impersonation_forward_uid :: bool
  webhook_kubeconfig :: string
  webhook_timeout :: int
  max_audit_body_bytes :: int64
  capture_temp_dir :: string
  tls_cert_file :: string
  tls_private_key_file :: string

text \<open>The flag table of \<open>parseFlags\<close>: the values its registration stores, and the variable of each flag.\<close>

definition default_config :: config where
  "default_config =
     \<lparr>listen_address = default_listen_address, metrics_listen_address = default_metrics_address,
      metrics_tls_cert_file = '''', metrics_tls_private_key_file = '''', backend_url = '''',
      backend_insecure_skip_verify = False, backend_ca_file = '''', backend_client_cert_file = '''',
      backend_client_key_file = '''', backend_server_name = '''',
      backend_identity_mode = default_backend_identity_mode,
      backend_impersonation_token_file = default_backend_impersonation_token_file,
      backend_impersonation_extra_keys = '''', backend_impersonation_forward_all_extras = False,
      backend_impersonation_forward_uid = True, webhook_kubeconfig = '''',
      webhook_timeout = default_webhook_timeout, max_audit_body_bytes = default_max_audit_body_size,
      capture_temp_dir = '''', tls_cert_file = '''', tls_private_key_file = ''''\<rparr>"

definition flag_table :: "(string \<times> config flag_var) list" where
  "flag_table =
     [(''listen-address'', String_Var (\<lambda>v. listen_address_update (\<lambda>_. v))),
      (''metrics-listen-address'', String_Var (\<lambda>v. metrics_listen_address_update (\<lambda>_. v))),
      (''metrics-tls-cert-file'', String_Var (\<lambda>v. metrics_tls_cert_file_update (\<lambda>_. v))),
      (''metrics-tls-private-key-file'', String_Var (\<lambda>v. metrics_tls_private_key_file_update (\<lambda>_. v))),
      (''backend-url'', String_Var (\<lambda>v. backend_url_update (\<lambda>_. v))),
      (''backend-insecure-skip-verify'', Bool_Var (\<lambda>v. backend_insecure_skip_verify_update (\<lambda>_. v))),
      (''backend-ca-file'', String_Var (\<lambda>v. backend_ca_file_update (\<lambda>_. v))),
      (''backend-client-cert-file'', String_Var (\<lambda>v. backend_client_cert_file_update (\<lambda>_. v))),
      (''backend-client-key-file'', String_Var (\<lambda>v. backend_client_key_file_update (\<lambda>_. v))),
      (''backend-server-name'', String_Var (\<lambda>v. backend_server_name_update (\<lambda>_. v))),
      (''backend-identity-mode'', String_Var (\<lambda>v. backend_identity_mode_update (\<lambda>_. v))),
      (''backend-impersonation-token-file'', String_Var (\<lambda>v. backend_impersonation_token_file_update (\<lambda>_. v))),
      (''backend-impersonation-extra-keys'', String_Var (\<lambda>v. backend_impersonation_extra_keys_update (\<lambda>_. v))),
      (''backend-impersonation-forward-all-extras'',
         Bool_Var (\<lambda>v. backend_impersonation_forward_all_extras_update (\<lambda>_. v))),
      (''backend-impersonation-forward-uid'', Bool_Var (\<lambda>v. backend_impersonation_forward_uid_update (\<lambda>_. v))),
      (''webhook-kubeconfig'', String_Var (\<lambda>v. webhook_kubeconfig_update (\<lambda>_. v))),
      (''webhook-timeout'', Duration_Var (\<lambda>v. webhook_timeout_update (\<lambda>_. v))),
      (''max-audit-body-bytes'', Int64_Var (\<lambda>v. max_audit_body_bytes_update (\<lambda>_. v))),
      (''capture-temp-dir'', String_Var (\<lambda>v. capture_temp_dir_update (\<lambda>_. v))),
      (''tls-cert-file'', String_Var (\<lambda>v. tls_cert_file_update (\<lambda>_. v))),
      (''tls-private-key-file'', String_Var (\<lambda>v. tls_private_key_file_update (\<lambda>_. v)))]"

section \<open>Validation\<close>

datatype config_error =
    Flag_Error flag_error
  | Backend_Url_Missing
  | Webhook_Kubeconfig_Missing
  | Max_Audit_Body_Bytes_Not_Positive
  | Serving_TLS_Not_Together
  | Metrics_TLS_Not_Together
  | Backend_Client_TLS_Not_Together
  | Backend_Identity_Mode_Unknown
  | Requires_Impersonation_Mode string
  | Client_Cert_With_Impersonation
  | Extra_Keys_With_Forward_All

definition validate_serving_tls_flags :: "config \<Rightarrow> config_error option" where
  "validate_serving_tls_flags cfg =
     (if (tls_cert_file cfg \<noteq> '''') = (tls_private_key_file cfg \<noteq> '''') then None
      else Some Serving_TLS_Not_Together)"

definition validate_metrics_tls_flags :: "config \<Rightarrow> config_error option" where
  "validate_metrics_tls_flags cfg =
     (if (metrics_tls_cert_file cfg \<noteq> '''') = (metrics_tls_private_key_file cfg \<noteq> '''') then None
      else Some Metrics_TLS_Not_Together)"

definition validate_backend_client_tls_flags :: "config \<Rightarrow> config_error option" where
  "validate_backend_client_tls_flags cfg =
     (let has_cert = backend_client_cert_file cfg \<noteq> ''''; has_key = backend_client_key_file cfg \<noteq> ''''
      in if has_cert = has_key then None else Some Backend_Client_TLS_Not_Together)"

definition impersonation_only_flags :: "string list" where
  "impersonation_only_flags =
     [''backend-impersonation-token-file'', ''backend-impersonation-extra-keys'',
      ''backend-impersonation-forward-all-extras'', ''backend-impersonation-forward-uid'']"

definition validate_backend_identity_flags :: "config \<Rightarrow> string set \<Rightarrow> config_error option" where
  "validate_backend_identity_flags cfg set_flags =
     (if backend_identity_mode cfg \<noteq> backend_identity_mode_request_header \<and>
         backend_identity_mode cfg \<noteq> backend_identity_mode_impersonation then Some Backend_Identity_Mode_Unknown
      else if backend_identity_mode cfg = backend_identity_mode_request_header then
        map_option Requires_Impersonation_Mode (List.find (\<lambda>name. name \<in> set_flags) impersonation_only_flags)
      else if backend_client_cert_file cfg \<noteq> '''' \<or> backend_client_key_file cfg \<noteq> '''' then
        Some Client_Cert_With_Impersonation
      else if backend_impersonation_extra_keys cfg \<noteq> '''' \<and> backend_impersonation_forward_all_extras cfg then
        Some Extra_Keys_With_Forward_All
      else None)"

section \<open>parseFlags\<close>

definition check_config :: "config \<Rightarrow> string set \<Rightarrow> config_error option" where
  "check_config cfg set_flags =
     (if backend_url cfg = '''' then Some Backend_Url_Missing
      else if webhook_kubeconfig cfg = '''' then Some Webhook_Kubeconfig_Missing
      else if sint (max_audit_body_bytes cfg) \<le> 0 then Some Max_Audit_Body_Bytes_Not_Positive
      else case validate_serving_tls_flags cfg of Some e \<Rightarrow> Some e | None \<Rightarrow>
          (case validate_metrics_tls_flags cfg of Some e \<Rightarrow> Some e | None \<Rightarrow>
          (case validate_backend_client_tls_flags cfg of Some e \<Rightarrow> Some e | None \<Rightarrow>
             validate_backend_identity_flags cfg set_flags)))"

definition parse_flags :: "(nat \<Rightarrow> nat \<Rightarrow> nat \<Rightarrow> nat) \<Rightarrow> string list \<Rightarrow> config_error + config" where
  "parse_flags frac args =
     (case parse_args frac (map_of flag_table) args default_config {} of
        Inl e \<Rightarrow> Inl (Flag_Error e)
      | Inr (cfg, set_flags, _) \<Rightarrow>
          (case check_config cfg set_flags of Some e \<Rightarrow> Inl e | None \<Rightarrow> Inr cfg))"

section \<open>splitCommaList\<close>

definition split_comma_list :: "string \<Rightarrow> string list" where
  "split_comma_list v =
     (if trim_space v = '''' then []
      else fold (\<lambda>part result. let trimmed = trim_space part
                               in if trimmed \<noteq> '''' then result @ [trimmed] else result)
             (split_on CHR '','' v) [])"

section \<open>What is accepted\<close>

definition valid_identity_flags :: "config \<Rightarrow> string set \<Rightarrow> bool" where
  "valid_identity_flags cfg set_flags \<longleftrightarrow>
     backend_identity_mode cfg = ''requestheader'' \<and> set_flags \<inter> set impersonation_only_flags = {} \<or>
     backend_identity_mode cfg = ''impersonation'' \<and>
       backend_client_cert_file cfg = '''' \<and> backend_client_key_file cfg = '''' \<and>
       (backend_impersonation_extra_keys cfg = '''' \<or> \<not> backend_impersonation_forward_all_extras cfg)"

definition valid_config :: "config \<Rightarrow> string set \<Rightarrow> bool" where
  "valid_config cfg set_flags \<longleftrightarrow>
     backend_url cfg \<noteq> '''' \<and> webhook_kubeconfig cfg \<noteq> '''' \<and> 0 < sint (max_audit_body_bytes cfg) \<and>
     (tls_cert_file cfg = '''') = (tls_private_key_file cfg = '''') \<and>
     (metrics_tls_cert_file cfg = '''') = (metrics_tls_private_key_file cfg = '''') \<and>
     (backend_client_cert_file cfg = '''') = (backend_client_key_file cfg = '''') \<and>
     valid_identity_flags cfg set_flags"

lemma modes_differ: "''requestheader'' \<noteq> ''impersonation''"
  by simp

lemma validate_identity_None:
  "validate_backend_identity_flags cfg set_flags = None \<longleftrightarrow> valid_identity_flags cfg set_flags"
proof -
  have "List.find (\<lambda>name. name \<in> set_flags) impersonation_only_flags = None \<longleftrightarrow>
      set_flags \<inter> set impersonation_only_flags = {}"
    by (auto simp: find_None_iff)
  then show ?thesis
    using modes_differ
    by (auto simp: validate_backend_identity_flags_def valid_identity_flags_def
        backend_identity_mode_request_header_def backend_identity_mode_impersonation_def simp del: list.inject)
qed

lemma check_config_None: "check_config cfg set_flags = None \<longleftrightarrow> valid_config cfg set_flags"
  by (auto simp: check_config_def valid_config_def validate_identity_None validate_serving_tls_flags_def
      validate_metrics_tls_flags_def validate_backend_client_tls_flags_def Let_def split: option.splits if_splits)

text \<open>
  C29: \<open>parseFlags\<close> accepts a command line exactly when its flags can be read and the configuration they
  give is complete and consistent: a backend URL and a webhook kubeconfig, a positive capture limit,
  certificates only together with their keys, and an identity mode whose flags fit it.
\<close>

theorem parse_flags_accepts:
  "parse_flags frac args = Inr cfg \<longleftrightarrow>
     (\<exists>set_flags rest. parse_args frac (map_of flag_table) args default_config {} = Inr (cfg, set_flags, rest) \<and>
        valid_config cfg set_flags)"
  by (auto simp: parse_flags_def check_config_None [symmetric] split: sum.splits option.splits)

section \<open>Printing a configuration\<close>

definition common_settings :: "config \<Rightarrow> config setting list" where
  "common_settings cfg =
     [(''listen-address'', listen_address cfg,
         listen_address_update (\<lambda>_. listen_address cfg)),
      (''metrics-listen-address'', metrics_listen_address cfg,
         metrics_listen_address_update (\<lambda>_. metrics_listen_address cfg)),
      (''metrics-tls-cert-file'', metrics_tls_cert_file cfg,
         metrics_tls_cert_file_update (\<lambda>_. metrics_tls_cert_file cfg)),
      (''metrics-tls-private-key-file'', metrics_tls_private_key_file cfg,
         metrics_tls_private_key_file_update (\<lambda>_. metrics_tls_private_key_file cfg)),
      (''backend-url'', backend_url cfg,
         backend_url_update (\<lambda>_. backend_url cfg)),
      (''backend-insecure-skip-verify'', format_bool (backend_insecure_skip_verify cfg),
         backend_insecure_skip_verify_update (\<lambda>_. backend_insecure_skip_verify cfg)),
      (''backend-ca-file'', backend_ca_file cfg,
         backend_ca_file_update (\<lambda>_. backend_ca_file cfg)),
      (''backend-client-cert-file'', backend_client_cert_file cfg,
         backend_client_cert_file_update (\<lambda>_. backend_client_cert_file cfg)),
      (''backend-client-key-file'', backend_client_key_file cfg,
         backend_client_key_file_update (\<lambda>_. backend_client_key_file cfg)),
      (''backend-server-name'', backend_server_name cfg,
         backend_server_name_update (\<lambda>_. backend_server_name cfg)),
      (''backend-identity-mode'', backend_identity_mode cfg,
         backend_identity_mode_update (\<lambda>_. backend_identity_mode cfg)),
      (''webhook-kubeconfig'', webhook_kubeconfig cfg,
         webhook_kubeconfig_update (\<lambda>_. webhook_kubeconfig cfg)),
      (''webhook-timeout'', render_duration (webhook_timeout cfg),
         webhook_timeout_update (\<lambda>_. webhook_timeout cfg)),
      (''max-audit-body-bytes'', render_int64 (max_audit_body_bytes cfg),
         max_audit_body_bytes_update (\<lambda>_. max_audit_body_bytes cfg)),
      (''capture-temp-dir'', capture_temp_dir cfg,
         capture_temp_dir_update (\<lambda>_. capture_temp_dir cfg)),
      (''tls-cert-file'', tls_cert_file cfg,
         tls_cert_file_update (\<lambda>_. tls_cert_file cfg)),
      (''tls-private-key-file'', tls_private_key_file cfg,
         tls_private_key_file_update (\<lambda>_. tls_private_key_file cfg))]"

definition impersonation_settings :: "config \<Rightarrow> config setting list" where
  "impersonation_settings cfg =
     [(''backend-impersonation-token-file'', backend_impersonation_token_file cfg,
         backend_impersonation_token_file_update (\<lambda>_. backend_impersonation_token_file cfg)),
      (''backend-impersonation-extra-keys'', backend_impersonation_extra_keys cfg,
         backend_impersonation_extra_keys_update (\<lambda>_. backend_impersonation_extra_keys cfg)),
      (''backend-impersonation-forward-all-extras'', format_bool (backend_impersonation_forward_all_extras cfg),
         backend_impersonation_forward_all_extras_update (\<lambda>_. backend_impersonation_forward_all_extras cfg)),
      (''backend-impersonation-forward-uid'', format_bool (backend_impersonation_forward_uid cfg),
         backend_impersonation_forward_uid_update (\<lambda>_. backend_impersonation_forward_uid cfg))]"

definition config_settings :: "config \<Rightarrow> config setting list" where
  "config_settings cfg =
     common_settings cfg @ (if backend_identity_mode cfg = ''impersonation'' then impersonation_settings cfg else [])"

text \<open>
  A configuration that a command line can say: its timeout is an \<open>int64\<close> of nanoseconds, and outside
  impersonation mode the impersonation flags keep their defaults.
\<close>

definition sayable :: "config \<Rightarrow> bool" where
  "sayable cfg \<longleftrightarrow>
     - (2 ^ 63) \<le> webhook_timeout cfg \<and> webhook_timeout cfg < 2 ^ 63 \<and>
     (backend_identity_mode cfg = ''impersonation'' \<or>
      backend_impersonation_token_file cfg = backend_impersonation_token_file default_config \<and>
      backend_impersonation_extra_keys cfg = backend_impersonation_extra_keys default_config \<and>
      backend_impersonation_forward_all_extras cfg = backend_impersonation_forward_all_extras default_config \<and>
      backend_impersonation_forward_uid cfg = backend_impersonation_forward_uid default_config)"

lemma settings_ok:
  assumes "- (2 ^ 63) \<le> webhook_timeout cfg" "webhook_timeout cfg < 2 ^ 63"
  shows "list_all (setting_ok frac (map_of flag_table)) (common_settings cfg)"
    "list_all (setting_ok frac (map_of flag_table)) (impersonation_settings cfg)"
  by (simp_all add: common_settings_def impersonation_settings_def setting_ok_def flag_table_def
      set_var_rendered(1,2) set_var_rendered(3) [OF assms] del: set_var.simps(2-4))

lemma fold_settings:
  "sayable cfg \<Longrightarrow> fold (\<lambda>(name, v, f). f) (config_settings cfg) default_config = cfg"
  by (cases cfg) (auto simp: config_settings_def common_settings_def impersonation_settings_def sayable_def default_config_def)

lemma common_names:
  "set (map fst (common_settings cfg)) \<inter> set impersonation_only_flags = {}"
proof -
  let ?names =
     "[''listen-address'',
      ''metrics-listen-address'',
      ''metrics-tls-cert-file'',
      ''metrics-tls-private-key-file'',
      ''backend-url'',
      ''backend-insecure-skip-verify'',
      ''backend-ca-file'',
      ''backend-client-cert-file'',
      ''backend-client-key-file'',
      ''backend-server-name'',
      ''backend-identity-mode'',
      ''webhook-kubeconfig'',
      ''webhook-timeout'',
      ''max-audit-body-bytes'',
      ''capture-temp-dir'',
      ''tls-cert-file'',
      ''tls-private-key-file'']"
  have n: "map fst (common_settings cfg) = ?names" by (simp add: common_settings_def)
  have "\<forall>n \<in> set ?names. n \<notin> set impersonation_only_flags"
    unfolding list_all_iff [symmetric] by code_simp
  then show ?thesis unfolding n by blast
qed

text \<open>
  Every valid configuration that a command line can say is read back when each flag is printed as
  \<open>--name=value\<close>, the impersonation flags only in impersonation mode.
\<close>

lemma parse_flags_printed:
  assumes "sayable cfg"
    and "valid_config cfg (if backend_identity_mode cfg = ''impersonation'' then set impersonation_only_flags else {})"
  shows "parse_flags frac (setting_args (config_settings cfg)) = Inr cfg"
proof -
  have t: "- (2 ^ 63) \<le> webhook_timeout cfg" "webhook_timeout cfg < 2 ^ 63" using assms(1) by (simp_all add: sayable_def)
  have "list_all (setting_ok frac (map_of flag_table)) (config_settings cfg)"
    using settings_ok [OF t, of frac] by (simp add: config_settings_def)
  note p = parse_settings [OF this, of default_config "{}", unfolded fold_settings [OF assms(1)]]
  have "valid_config cfg ({} \<union> set (map fst (config_settings cfg)))"
    using assms(2) common_names [of cfg] modes_differ
    by (auto simp: valid_config_def valid_identity_flags_def config_settings_def)
  then show ?thesis
    using p by (simp add: parse_flags_def check_config_None [symmetric])
qed

text \<open>
  Conversely, what \<open>parseFlags\<close> accepts can be said: a duration that was parsed is an \<open>int64\<close>, and an
  impersonation variable that is not its default was set, which is refused outside impersonation mode.
\<close>

definition set_or_default :: "config \<Rightarrow> string set \<Rightarrow> bool" where
  "set_or_default cfg A \<longleftrightarrow>
     - (2 ^ 63) \<le> webhook_timeout cfg \<and> webhook_timeout cfg < 2 ^ 63 \<and>
     (''backend-impersonation-token-file'' \<in> A \<or>
        backend_impersonation_token_file cfg = backend_impersonation_token_file default_config) \<and>
     (''backend-impersonation-extra-keys'' \<in> A \<or>
        backend_impersonation_extra_keys cfg = backend_impersonation_extra_keys default_config) \<and>
     (''backend-impersonation-forward-all-extras'' \<in> A \<or>
        backend_impersonation_forward_all_extras cfg = backend_impersonation_forward_all_extras default_config) \<and>
     (''backend-impersonation-forward-uid'' \<in> A \<or>
        backend_impersonation_forward_uid cfg = backend_impersonation_forward_uid default_config)"

lemma set_or_default_flags:
  "list_all (\<lambda>(name, var). \<forall>v c c' A. set_var frac var v c = Some c' \<longrightarrow> set_or_default c A \<longrightarrow>
     set_or_default c' (insert name A)) flag_table"
  unfolding flag_table_def list.pred_inject prod.case
  by (intro conjI allI impI TrueI) (clarsimp simp: set_or_default_def dest!: parse_duration_range)+

lemma set_or_default_step:
  assumes "map_of flag_table name = Some var" "set_var frac var v c = Some c'" "set_or_default c A"
  shows "set_or_default c' (insert name A)"
  using set_or_default_flags [of frac] map_of_SomeD [OF assms(1)] assms(2,3) by (auto simp: list_all_iff)

lemma accepted_sayable:
  assumes "parse_flags frac args = Inr cfg"
  shows "sayable cfg"
    "valid_config cfg (if backend_identity_mode cfg = ''impersonation'' then set impersonation_only_flags else {})"
proof -
  obtain A rest where p: "parse_args frac (map_of flag_table) args default_config {} = Inr (cfg, A, rest)"
    and v: "valid_config cfg A"
    using assms by (auto simp: parse_flags_def check_config_None [symmetric] split: sum.splits option.splits)
  have "set_or_default default_config {}"
    by (simp add: set_or_default_def default_config_def default_webhook_timeout_def)
  then have "set_or_default cfg A"
    by (rule parse_args_keeps [where P = set_or_default, OF p _ set_or_default_step])
  then show "sayable cfg"
    using v by (auto simp: sayable_def set_or_default_def valid_config_def valid_identity_flags_def impersonation_only_flags_def)
  show "valid_config cfg (if backend_identity_mode cfg = ''impersonation'' then set impersonation_only_flags else {})"
    using v modes_differ by (auto simp: valid_config_def valid_identity_flags_def)
qed

text \<open>
  C28: every configuration that \<open>parseFlags\<close> accepts from any command line can be printed, each flag as
  \<open>--name=value\<close> and the impersonation flags only in impersonation mode, and the printed command line is
  accepted and gives exactly that configuration.  So these are the configurations the printed form reads
  back, and no others.
\<close>

theorem parse_flags_roundtrip:
  "(\<exists>args. parse_flags frac args = Inr cfg) \<longleftrightarrow>
     parse_flags frac (setting_args (config_settings cfg)) = Inr cfg"
  using parse_flags_printed [OF accepted_sayable] by blast

section \<open>Lists of extra keys\<close>

lemma fold_nonempty_parts:
  "fold (\<lambda>part result. let trimmed = trim_space part in if trimmed \<noteq> '''' then result @ [trimmed] else result) parts acc =
     acc @ filter (\<lambda>p. p \<noteq> '''') (map trim_space parts)"
  by (induction parts arbitrary: acc) (simp_all add: Let_def)

lemma blank_no_comma:
  assumes "trim_space v = ''''"
  shows "CHR '','' \<notin> set v"
proof
  assume c: "CHR '','' \<in> set v"
  have runes: "list_all (\<lambda>r. CHR '','' \<notin> set r) space_runes" by code_simp
  have strip: "strip_rune rs s = Some t \<Longrightarrow> list_all (\<lambda>r. CHR '','' \<notin> set r) rs \<Longrightarrow> CHR '','' \<in> set s \<Longrightarrow> CHR '','' \<in> set t"
    for rs s t
    by (auto simp: strip_rune_def find_Some_iff list_all_iff prefix_def split: option.splits)
  have keep: "list_all (\<lambda>r. CHR '','' \<notin> set r) rs \<Longrightarrow> CHR '','' \<in> set s \<Longrightarrow> CHR '','' \<in> set (trim_runes rs s)" for rs s
  proof (induction rs s rule: trim_runes.induct)
    case (1 rs s)
    then show ?case using strip by (cases "strip_rune rs s") (auto simp: trim_runes.simps [of rs s])
  qed
  have "list_all (\<lambda>r. CHR '','' \<notin> set r) (map rev space_runes)" using runes by (simp add: list_all_iff)
  then have "CHR '','' \<in> set (trim_space v)"
    using keep [OF runes c] keep [of "map rev space_runes" "rev (trim_left v)"]
    by (simp add: trim_space_def trim_right_def trim_left_def)
  with assms show False by simp
qed

text \<open>
  \<open>splitCommaList\<close> gives the trimmed parts between the commas that are not blank, in their order; the
  early return for a blank value is only a shortcut.
\<close>

lemma split_comma_list_spec:
  "split_comma_list v = filter (\<lambda>p. p \<noteq> '''') (map trim_space (split_on CHR '','' v))"
proof (cases "trim_space v = ''''")
  case True
  then have "split_on CHR '','' v = [v]" using blank_no_comma split_on_single by blast
  with True show ?thesis by (simp add: split_comma_list_def)
next
  case False
  then show ?thesis by (simp add: split_comma_list_def fold_nonempty_parts)
qed

section \<open>The backend transport\<close>

text \<open>
  What \<open>crypto/tls\<close>, \<open>crypto/x509\<close> and the file system give: the system pool (or none), appending a PEM
  bundle (\<open>None\<close> when it holds no certificate), loading a key pair and reading a file.
\<close>

record ('cert, 'pool, 'e) tls_lib =
  system_cert_pool :: "'e + 'pool option"
  empty_cert_pool :: 'pool
  append_certs_from_pem :: "'pool \<Rightarrow> bytes \<Rightarrow> 'pool option"
  load_x509_key_pair :: "string \<Rightarrow> string \<Rightarrow> 'e + 'cert"
  read_os_file :: "string \<Rightarrow> 'e + bytes"

datatype client_auth_type = No_Client_Cert | Request_Client_Cert

definition version_tls12 :: nat where
  "version_tls12 = 0x0303"

record ('cert, 'pool) tls_config =
  min_version :: nat
  client_auth :: client_auth_type
  insecure_skip_verify :: bool
  server_name :: string
  certificates :: "'cert list"
  root_cas :: "'pool option"

definition new_tls_config :: "('cert, 'pool) tls_config" where
  "new_tls_config =
     \<lparr>min_version = version_tls12, client_auth = No_Client_Cert, insecure_skip_verify = False, server_name = '''',
      certificates = [], root_cas = None\<rparr>"

datatype 'e transport_error =
    Default_Transport_Type
  | Unsupported_Scheme string
  | TLS_Flags_Need_Https
  | Skip_Verify_With_CA
  | Https_Needs_CA_Or_Skip
  | Load_Key_Pair_Error 'e
  | System_Pool_Error 'e
  | Read_CA_Error 'e
  | No_CA_Certificates

text \<open>A clone of the default transport; \<open>None\<close> leaves its TLS configuration as it is.\<close>

record ('b, 'cert, 'pool) backend_transport =
  bt_base :: 'b
  tls_client_config :: "('cert, 'pool) tls_config option"

definition load_key_pair :: "('cert, 'pool, 'e) tls_lib \<Rightarrow> string \<Rightarrow> string \<Rightarrow> 'e transport_error + 'cert" where
  "load_key_pair lib cert_path key_path =
     (case load_x509_key_pair lib (filepath_clean cert_path) (filepath_clean key_path) of
        Inl e \<Rightarrow> Inl (Load_Key_Pair_Error e)
      | Inr c \<Rightarrow> Inr c)"

definition load_cert_pool :: "('cert, 'pool, 'e) tls_lib \<Rightarrow> string \<Rightarrow> 'e transport_error + 'pool" where
  "load_cert_pool lib p =
     (case system_cert_pool lib of
        Inl e \<Rightarrow> Inl (System_Pool_Error e)
      | Inr pool \<Rightarrow>
          (let root_cas = (case pool of None \<Rightarrow> empty_cert_pool lib | Some r \<Rightarrow> r)
           in case read_os_file lib (filepath_clean p) of
                Inl e \<Rightarrow> Inl (Read_CA_Error e)
              | Inr pem \<Rightarrow>
                  (case append_certs_from_pem lib root_cas pem of
                     None \<Rightarrow> Inl No_CA_Certificates
                   | Some r \<Rightarrow> Inr r)))"

text \<open>\<open>default_transport\<close> is \<open>http.DefaultTransport\<close> when it is an \<open>*http.Transport\<close>.  \<open>main\<close> never passes a nil URL.\<close>

definition build_backend_transport ::
  "('cert, 'pool, 'e) tls_lib \<Rightarrow> 'b option \<Rightarrow> url \<Rightarrow> config \<Rightarrow>
     'e transport_error + ('b, 'cert, 'pool) backend_transport" where
  "build_backend_transport lib default_transport u cfg =
     (case default_transport of
        None \<Rightarrow> Inl Default_Transport_Type
      | Some base \<Rightarrow>
          if scheme u \<noteq> ''http'' \<and> scheme u \<noteq> ''https'' then Inl (Unsupported_Scheme (scheme u))
          else if scheme u \<noteq> ''https'' then
            if backend_insecure_skip_verify cfg \<or> backend_ca_file cfg \<noteq> '''' \<or> backend_server_name cfg \<noteq> '''' \<or>
               backend_client_cert_file cfg \<noteq> '''' \<or> backend_client_key_file cfg \<noteq> ''''
            then Inl TLS_Flags_Need_Https
            else Inr \<lparr>bt_base = base, tls_client_config = None\<rparr>
          else if backend_insecure_skip_verify cfg \<and> backend_ca_file cfg \<noteq> '''' then Inl Skip_Verify_With_CA
          else if \<not> backend_insecure_skip_verify cfg \<and> backend_ca_file cfg = '''' then Inl Https_Needs_CA_Or_Skip
          else
            (let t = new_tls_config;
                t = (if backend_insecure_skip_verify cfg then t\<lparr>insecure_skip_verify := True\<rparr> else t);
                t = (if backend_server_name cfg \<noteq> '''' then t\<lparr>server_name := backend_server_name cfg\<rparr> else t)
            in case (if backend_client_cert_file cfg \<noteq> '''' then
                       map_sum id (\<lambda>c. t\<lparr>certificates := [c]\<rparr>)
                         (load_key_pair lib (backend_client_cert_file cfg) (backend_client_key_file cfg))
                     else Inr t) of
                 Inl e \<Rightarrow> Inl e
               | Inr t \<Rightarrow>
                   (case (if backend_ca_file cfg \<noteq> '''' then
                            map_sum id (\<lambda>r. t\<lparr>root_cas := Some r\<rparr>) (load_cert_pool lib (backend_ca_file cfg))
                          else Inr t) of
                      Inl e \<Rightarrow> Inl e
                    | Inr t \<Rightarrow> Inr \<lparr>bt_base = base, tls_client_config = Some t\<rparr>)))"

text \<open>
  C30: what \<open>buildBackendTransport\<close> gives.  A plain HTTP backend gets the default transport and admits no TLS
  flag.  An HTTPS backend is verified against the given CA bundle unless verification was switched off, and
  exactly one of the two is chosen; it gets TLS 1.2 or newer, the server name of the flag and the client
  certificate of the flags.  Every failure has its cause.
\<close>

theorem backend_transport_spec:
  "(case build_backend_transport lib dt u cfg of
      Inr t \<Rightarrow>
        dt = Some (bt_base t) \<and>
        (case tls_client_config t of
           None \<Rightarrow> scheme u = ''http'' \<and> \<not> backend_insecure_skip_verify cfg \<and> backend_ca_file cfg = '''' \<and>
             backend_server_name cfg = '''' \<and> backend_client_cert_file cfg = '''' \<and> backend_client_key_file cfg = ''''
         | Some c \<Rightarrow> scheme u = ''https'' \<and> min_version c = version_tls12 \<and>
             insecure_skip_verify c = backend_insecure_skip_verify cfg \<and> server_name c = backend_server_name cfg \<and>
             (case root_cas c of
                None \<Rightarrow> insecure_skip_verify c \<and> backend_ca_file cfg = ''''
              | Some pool \<Rightarrow> \<not> insecure_skip_verify c \<and> load_cert_pool lib (backend_ca_file cfg) = Inr pool) \<and>
             (case certificates c of
                [] \<Rightarrow> backend_client_cert_file cfg = ''''
              | k # ks \<Rightarrow> ks = [] \<and>
                  load_key_pair lib (backend_client_cert_file cfg) (backend_client_key_file cfg) = Inr k))
    | Inl Default_Transport_Type \<Rightarrow> dt = None
    | Inl (Unsupported_Scheme s) \<Rightarrow> s = scheme u \<and> s \<notin> {''http'', ''https''}
    | Inl TLS_Flags_Need_Https \<Rightarrow> scheme u = ''http''
    | Inl Skip_Verify_With_CA \<Rightarrow> backend_insecure_skip_verify cfg \<and> backend_ca_file cfg \<noteq> ''''
    | Inl Https_Needs_CA_Or_Skip \<Rightarrow> \<not> backend_insecure_skip_verify cfg \<and> backend_ca_file cfg = ''''
    | Inl e \<Rightarrow>
        backend_client_cert_file cfg \<noteq> '''' \<and>
          load_key_pair lib (backend_client_cert_file cfg) (backend_client_key_file cfg) = Inl e \<or>
        backend_ca_file cfg \<noteq> '''' \<and> load_cert_pool lib (backend_ca_file cfg) = Inl e)"
proof (cases "dt = None \<or> scheme u \<noteq> ''https''")
  case True
  then show ?thesis by (auto simp: build_backend_transport_def split: option.splits)
next
  case https: False
  then obtain base where dt: "dt = Some base" and s: "scheme u = ''https''" by auto
  note e = build_backend_transport_def [of lib dt u cfg, unfolded dt option.case s]
  have pool: "load_cert_pool lib f \<noteq> Inl Default_Transport_Type" "load_cert_pool lib f \<noteq> Inl (Unsupported_Scheme x)"
    "load_cert_pool lib f \<noteq> Inl TLS_Flags_Need_Https" "load_cert_pool lib f \<noteq> Inl Skip_Verify_With_CA"
    "load_cert_pool lib f \<noteq> Inl Https_Needs_CA_Or_Skip" for f x
    by (auto simp: load_cert_pool_def Let_def split: sum.splits option.splits)
  show ?thesis
  proof (cases "load_key_pair lib (backend_client_cert_file cfg) (backend_client_key_file cfg)")
    case kp: (Inl e1)
    then have k: "\<exists>x. e1 = Load_Key_Pair_Error x" by (auto simp: load_key_pair_def split: sum.splits)
    show ?thesis
      using k kp pool dt
      by (cases "load_cert_pool lib (backend_ca_file cfg)")
        (auto simp: e s new_tls_config_def Let_def split: transport_error.split)
  next
    case (Inr c)
    then show ?thesis
      using pool dt
      by (cases "load_cert_pool lib (backend_ca_file cfg)")
        (auto simp: e s new_tls_config_def Let_def split: transport_error.split)
  qed
qed

section \<open>The servers\<close>

definition build_serving_tls_config :: "config \<Rightarrow> ('cert, 'pool) tls_config option" where
  "build_serving_tls_config cfg =
     (if tls_cert_file cfg = '''' then None
      else Some (new_tls_config\<lparr>min_version := version_tls12, client_auth := Request_Client_Cert\<rparr>))"

record ('h, 'cert, 'pool, 'conn) http_server =
  srv_addr :: string
  srv_handler :: 'h
  srv_read_timeout :: int
  srv_read_header_timeout :: int
  srv_write_timeout :: int
  srv_idle_timeout :: int
  srv_tls_config :: "('cert, 'pool) tls_config option"
  srv_conn_state :: "'conn conn_states"

text \<open>\<open>configure_http2\<close> is \<open>http2.ConfigureServer\<close> with the idle timeout of its second argument.\<close>

definition new_http_server ::
  "(('h, 'cert, 'pool, 'conn) http_server \<Rightarrow> int \<Rightarrow> 'e + ('h, 'cert, 'pool, 'conn) http_server) \<Rightarrow> string \<Rightarrow> 'h \<Rightarrow>
     ('cert, 'pool) tls_config option \<Rightarrow> 'e + ('h, 'cert, 'pool, 'conn) http_server" where
  "new_http_server configure_http2 addr h tls =
     (let server = \<lparr>srv_addr = addr, srv_handler = h, srv_read_timeout = 0,
                    srv_read_header_timeout = default_read_header_timeout, srv_write_timeout = 0,
                    srv_idle_timeout = default_idle_timeout, srv_tls_config = tls,
                    srv_conn_state = new_conn_state_tracker\<rparr>
      in configure_http2 server (srv_idle_timeout server))"

text \<open>How a server listens: the address, and the certificate and key of TLS.\<close>

datatype listen_mode = Listen_Plain string | Listen_TLS string string string

definition serve_mode :: "('h, 'cert, 'pool, 'conn) http_server \<Rightarrow> config \<Rightarrow> listen_mode" where
  "serve_mode server cfg =
     (if tls_cert_file cfg = '''' then Listen_Plain (srv_addr server)
      else Listen_TLS (srv_addr server) (tls_cert_file cfg) (tls_private_key_file cfg))"

definition metrics_mode :: "config \<Rightarrow> listen_mode" where
  "metrics_mode cfg =
     (if metrics_tls_cert_file cfg \<noteq> ''''
      then Listen_TLS (metrics_listen_address cfg) (metrics_tls_cert_file cfg) (metrics_tls_private_key_file cfg)
      else Listen_Plain (metrics_listen_address cfg))"

text \<open>A configuration that serves.\<close>

definition sample_config :: config where
  "sample_config = default_config\<lparr>backend_url := ''https://b'', webhook_kubeconfig := ''k'', backend_ca_file := ''ca''\<rparr>"

end
