(* ===== verification/Server_Startup.thy ===== *)
theory Server_Startup
  imports Server_Config Webhook_Client Proxy_Handler
begin

text \<open>
  \<open>cmd/server/main.go\<close>, part two: the trust gate (\<open>startRequestHeaderTrust\<close>, \<open>waitForTrust\<close>), the health
  endpoints and \<open>main\<close> up to the moment it serves.  Kubernetes clients, the network
  listener and the TLS library are parameters; what the trust controller holds while its watch runs in the
  background is a sequence of snapshots, one for each look the start-up takes at it.
\<close>

type_synonym log_lines = "(log_level \<times> string) list"

section \<open>The logger\<close>

text \<open>\<open>slog\<close> orders its levels by number; the handler of \<open>main\<close> writes the lines from level info on.\<close>

fun slog_level :: "log_level \<Rightarrow> int" where
  "slog_level Log_Info = 0"
| "slog_level Log_Warn = 4"
| "slog_level Log_Error = 8"

lemma slog_level_inj: "slog_level a = slog_level b \<longleftrightarrow> a = b"
  by (cases a; cases b) simp_all

instantiation log_level :: linorder
begin

definition less_eq_log_level :: "log_level \<Rightarrow> log_level \<Rightarrow> bool" where
  "less_eq_log_level a b \<longleftrightarrow> slog_level a \<le> slog_level b"

definition less_log_level :: "log_level \<Rightarrow> log_level \<Rightarrow> bool" where
  "less_log_level a b \<longleftrightarrow> slog_level a < slog_level b"

instance
  by standard (auto simp: less_eq_log_level_def less_log_level_def slog_level_inj)

end

definition main_log_level :: log_level where
  "main_log_level = Log_Info"

definition written_lines :: "log_lines \<Rightarrow> log_lines" where
  "written_lines lines = filter (\<lambda>l. main_log_level \<le> fst l) lines"

lemma nothing_suppressed: "written_lines lines = lines"
proof -
  have "main_log_level \<le> l" for l by (cases l) (simp_all add: main_log_level_def less_eq_log_level_def)
  then show ?thesis by (simp add: written_lines_def)
qed

section \<open>Waiting for trust\<close>

text \<open>What ends one wait of the \<open>select\<close>: a tick, or the context with its error.\<close>

datatype 'e wake = Ticked | Context_Done 'e

text \<open>
  \<open>waitForTrust\<close>: \<open>ready n\<close> is \<open>controller.Ready()\<close> at the \<open>n\<close>-th look.  The result is the error and the
  number of the last look; \<open>None\<close> is a loop that does not end.
\<close>

partial_function (option) wait_for_trust ::
  "(nat \<Rightarrow> bool) \<Rightarrow> (nat \<Rightarrow> 'e wake) \<Rightarrow> nat \<Rightarrow> ('e option \<times> nat) option" where
  "wait_for_trust ready wake n =
     (if ready n then Some (None, n)
      else case wake n of
          Context_Done e \<Rightarrow> Some (Some e, n)
        | Ticked \<Rightarrow> wait_for_trust ready wake (Suc n))"

definition waiting :: "(nat \<Rightarrow> bool) \<Rightarrow> (nat \<Rightarrow> 'e wake) \<Rightarrow> nat \<Rightarrow> bool" where
  "waiting ready wake n \<longleftrightarrow> \<not> ready n \<and> wake n = Ticked"

lemma wait_stop:
  "\<not> waiting ready wake n \<Longrightarrow>
     wait_for_trust ready wake n = Some (if ready n then None else case wake n of Context_Done e \<Rightarrow> Some e | Ticked \<Rightarrow> None, n)"
  by (subst wait_for_trust.simps) (auto simp: waiting_def split: wake.splits)

lemma wait_step: "waiting ready wake n \<Longrightarrow> wait_for_trust ready wake n = wait_for_trust ready wake (Suc n)"
  by (subst wait_for_trust.simps) (auto simp: waiting_def)

lemma wait_skip:
  "list_all (waiting ready wake) [n..<n + d] \<Longrightarrow> wait_for_trust ready wake n = wait_for_trust ready wake (n + d)"
proof (induction d)
  case (Suc d)
  then show ?case using wait_step [of ready wake "n + d"] by simp
qed simp

lemma wait_result:
  assumes "wait_for_trust ready wake n = Some y"
  shows "n \<le> snd y \<and> list_all (waiting ready wake) [n..<snd y] \<and> \<not> waiting ready wake (snd y)"
proof (rule wait_for_trust.raw_induct [OF _ assms])
  fix f and ready :: "nat \<Rightarrow> bool" and wake :: "nat \<Rightarrow> 'e wake" and n y
  assume ih: "\<And>ready wake n y. f ready wake n = Some y \<Longrightarrow>
      n \<le> snd y \<and> list_all (waiting ready wake) [n..<snd y] \<and> \<not> waiting ready wake (snd y)"
    and r: "(if ready n then Some (None, n)
      else case wake n of Ticked \<Rightarrow> f ready wake (Suc n) | Context_Done e \<Rightarrow> Some (Some e, n)) = Some y"
  show "n \<le> snd y \<and> list_all (waiting ready wake) [n..<snd y] \<and> \<not> waiting ready wake (snd y)"
  proof (cases "waiting ready wake n")
    case True
    then have "f ready wake (Suc n) = Some y" using r by (simp add: waiting_def)
    from ih [OF this] have ih: "Suc n \<le> snd y" "list_all (waiting ready wake) [Suc n..<snd y]" "\<not> waiting ready wake (snd y)"
      by simp_all
    then have "[n..<snd y] = n # [Suc n..<snd y]" by (simp add: upt_conv_Cons)
    with ih True show ?thesis by simp
  next
    case False
    then have "snd y = n" using r by (auto simp: waiting_def split: wake.splits if_splits)
    with False show ?thesis by simp
  qed
qed

lemma wait_forever:
  assumes "\<forall>k. waiting ready wake (n + k)"
  shows "wait_for_trust ready wake n = None"
proof (rule ccontr)
  assume "wait_for_trust ready wake n \<noteq> None"
  then obtain y where "wait_for_trust ready wake n = Some y" by auto
  with wait_result [OF this] assms show False by (metis le_add_diff_inverse)
qed

lemma wait_ends_at:
  assumes "list_all (waiting ready wake) [0..<k]" and "\<not> waiting ready wake k"
  shows "wait_for_trust ready wake 0 =
    Some (if ready k then None else case wake k of Context_Done e \<Rightarrow> Some e | Ticked \<Rightarrow> None, k)"
  using wait_skip [of ready wake 0 k] wait_stop [of ready wake k] assms by simp

lemma wait_never_iff:
  "wait_for_trust ready wake 0 = None \<longleftrightarrow> (\<forall>n. waiting ready wake n)"
proof
  assume none: "wait_for_trust ready wake 0 = None"
  have upto: "list_all (waiting ready wake) [0..<n]" for n
  proof (induction n)
    case (Suc n)
    with wait_ends_at [of ready wake n] none show ?case by auto
  qed simp
  show "\<forall>n. waiting ready wake n" using upto [of "Suc n" for n] by simp
qed (simp add: wait_forever)

lemma wait_iff:
  "wait_for_trust ready wake 0 = Some (r, k) \<longleftrightarrow>
     list_all (waiting ready wake) [0..<k] \<and> \<not> waiting ready wake k \<and>
     r = (if ready k then None else case wake k of Context_Done e \<Rightarrow> Some e | Ticked \<Rightarrow> None)"
  using wait_result [of ready wake 0 "(r, k)"] wait_ends_at [of ready wake k] by auto

lemma wait_succeeds_iff:
  "wait_for_trust ready wake 0 = Some (None, k) \<longleftrightarrow> ready k \<and> list_all (waiting ready wake) [0..<k]"
  unfolding wait_iff by (cases "ready k"; cases "wake k") (simp_all add: waiting_def)

text \<open>
  C13: the start-up waits for trust without missing it and without inventing it.  It succeeds at the first
  look that finds the controller ready, if the context has not expired before; it fails with the error of
  the context at the first wait that the context ends while the controller is still not ready; and it goes
  on for ever only when neither ever happens.
\<close>

theorem wait_for_trust_spec:
  "(wait_for_trust ready wake 0 = Some (None, k) \<longleftrightarrow> ready k \<and> list_all (waiting ready wake) [0..<k]) \<and>
   (wait_for_trust ready wake 0 = Some (Some e, k) \<longleftrightarrow>
      \<not> ready k \<and> wake k = Context_Done e \<and> list_all (waiting ready wake) [0..<k]) \<and>
   (wait_for_trust ready wake 0 = None \<longleftrightarrow> (\<forall>n. \<not> ready n \<and> wake n = Ticked))"
proof -
  have err: "wait_for_trust ready wake 0 = Some (Some e, k) \<longleftrightarrow>
      \<not> ready k \<and> wake k = Context_Done e \<and> list_all (waiting ready wake) [0..<k]"
    unfolding wait_iff by (cases "ready k"; cases "wake k") (auto simp add: waiting_def)
  have all: "(\<forall>n. waiting ready wake n) \<longleftrightarrow> (\<forall>n. \<not> ready n \<and> wake n = Ticked)" by (simp only: waiting_def)
  from wait_succeeds_iff err wait_never_iff [of ready wake, unfolded all] show ?thesis by (intro conjI)
qed

text \<open>The deadline and the interval of the code make room for 300 waits.\<close>

lemma trust_waits: "request_header_trust_startup_timeout div request_header_trust_poll_interval = 300"
  by (simp add: request_header_trust_startup_timeout_def request_header_trust_poll_interval_def)

section \<open>The trust gate\<close>

text \<open>
  What the gate uses of the cluster: reading a ConfigMap by namespace and name, the classification of the
  error, the controllers and the wake-ups of the wait.
\<close>

record ('k, 'c, 'h, 'v, 'e) trust_env =
  te_lib :: "('k, 'c, 'h, 'v, 'e) trust_lib"
  te_get_config_map :: "'k \<Rightarrow> string \<Rightarrow> string \<Rightarrow> 'e option"
  te_is_forbidden :: "'e \<Rightarrow> bool"
  te_is_not_found :: "'e \<Rightarrow> bool"
  te_wake :: "nat \<Rightarrow> 'e wake"

datatype 'e trust_error =
    Needs_Role_Binding 'e
  | Trust_Not_Published 'e
  | Read_Config_Map 'e
  | Initial_Trust_Load "'e extractor_error"
  | Trust_Never_Usable 'e

text \<open>The controller behind its pointer at the \<open>n\<close>-th look, with \<open>Run\<close> in the background.\<close>

definition trust_watched ::
  "('k, 'c, 'h, 'v, 'e) trust_lib \<Rightarrow> ('c, 'h) trust_controller \<Rightarrow> nat \<Rightarrow> ('c, 'h) trust_controller" where
  "trust_watched lib c n = (case trust_run lib n (Some c) of Some c' \<Rightarrow> c' | None \<Rightarrow> c)"

definition start_request_header_trust ::
  "('k, 'c, 'h, 'v, 'e) trust_env \<Rightarrow> 'k \<Rightarrow> ('c, 'h) trust_controller \<Rightarrow> log_lines \<Rightarrow>
     (('e trust_error + ('c, 'h) trust_controller) \<times> log_lines) option" where
  "start_request_header_trust env client controller lines =
     (let lines = lines @ [(Log_Info, ''loading requestheader trust from cluster ConfigMap'')]
      in case te_get_config_map env client authentication_config_map_namespace authentication_config_map_name of
           Some e \<Rightarrow>
             Some (Inl (if te_is_forbidden env e then Needs_Role_Binding e
                        else if te_is_not_found env e then Trust_Not_Published e
                        else Read_Config_Map e), lines)
         | None \<Rightarrow>
             (case trust_run_once (te_lib env) (Some controller) of
                (Some e, _) \<Rightarrow> Some (Inl (Initial_Trust_Load e), lines)
              | (None, None) \<Rightarrow> None
              | (None, Some loaded) \<Rightarrow>
                  (case wait_for_trust (\<lambda>n. trust_ready (te_lib env) (Some (trust_watched (te_lib env) loaded n))) (te_wake env) 0 of
                     None \<Rightarrow> None
                   | Some (Some e, _) \<Rightarrow> Some (Inl (Trust_Never_Usable e), lines)
                   | Some (None, n) \<Rightarrow>
                       Some (Inr (trust_watched (te_lib env) loaded n),
                         lines @ [(Log_Info, ''requestheader trust loaded from cluster ConfigMap'')]))))"

text \<open>The gate opens only on a controller that is ready.\<close>

lemma trust_gate_ready:
  assumes "start_request_header_trust env client c lines = Some (Inr c', lines')"
  shows "trust_ready (te_lib env) (Some c') \<and>
    te_get_config_map env client authentication_config_map_namespace authentication_config_map_name = None \<and>
    fst (trust_run_once (te_lib env) (Some c)) = None"
proof -
  from assms obtain loaded n where
    g: "te_get_config_map env client authentication_config_map_namespace authentication_config_map_name = None"
    and r: "trust_run_once (te_lib env) (Some c) = (None, Some loaded)"
    and w: "wait_for_trust (\<lambda>n. trust_ready (te_lib env) (Some (trust_watched (te_lib env) loaded n))) (te_wake env) 0 = Some (None, n)"
    and c: "c' = trust_watched (te_lib env) loaded n"
    by (auto simp: start_request_header_trust_def Let_def split: option.splits prod.splits if_splits)
  have "trust_ready (te_lib env) (Some c')" using w c unfolding wait_succeeds_iff by simp
  with g r show ?thesis by simp
qed

section \<open>The Kubernetes client\<close>

datatype 'e kube_error = In_Cluster_Config_Error 'e | New_For_Config_Error 'e

definition build_kube_client :: "'e + 'r \<Rightarrow> ('r \<Rightarrow> 'e + 'k) \<Rightarrow> 'e kube_error + 'k" where
  "build_kube_client in_cluster_config new_for_config =
     (case in_cluster_config of
        Inl e \<Rightarrow> Inl (In_Cluster_Config_Error e)
      | Inr rest_config \<Rightarrow> map_sum New_For_Config_Error id (new_for_config rest_config))"

section \<open>The health endpoints and the request multiplexer\<close>

text \<open>A reply of a probe: its status, header and body.\<close>

type_synonym reply = "int \<times> header \<times> bytes"

definition handle_health :: reply where
  "handle_health = (200, [], ''ok'')"

definition readiness_handler :: "('k, 'c, 'h, 'v, 'e) trust_lib \<Rightarrow> ('c, 'h) trust_controller \<Rightarrow> reply" where
  "readiness_handler lib controller =
     (if \<not> trust_ready lib (Some controller)
      then (503, http_error_header [], ''requestheader trust not ready'' @ [CHR 0x0A])
      else (200, [], ''ok''))"

text \<open>
  \<open>http.ServeMux\<close> for patterns without method and host: a pattern ending in a slash matches a subtree,
  any other one path, an empty path nothing; paths are compared by their decoded segments and the longest pattern wins.  A path that
  is not clean is redirected to its clean form, except for CONNECT.
\<close>

definition clean_path :: "string \<Rightarrow> string" where
  "clean_path p =
     (if p = '''' then ''/''
      else let p = (if hd p \<noteq> CHR ''/'' then CHR ''/'' # p else p);
               np = filepath_clean p
           in if last p = CHR ''/'' \<and> np \<noteq> ''/'' then np @ ''/'' else np)"

definition path_segments :: "string \<Rightarrow> string list" where
  "path_segments p =
     map (\<lambda>s. case unescape Enc_Path_Segment s of Some t \<Rightarrow> t | None \<Rightarrow> s) (split_on CHR ''/'' p)"

definition pattern_matches :: "string \<Rightarrow> string \<Rightarrow> bool" where
  "pattern_matches pattern p =
     (if p = '''' then False
      else if last pattern = CHR ''/'' then prefix (butlast (split_on CHR ''/'' pattern)) (path_segments p)
      else split_on CHR ''/'' pattern = path_segments p)"

definition mux_lookup :: "(string \<times> 'f) list \<Rightarrow> string \<Rightarrow> 'f option" where
  "mux_lookup m p =
     (case filter (\<lambda>kv. pattern_matches (fst kv) p) m of
        [] \<Rightarrow> None
      | kv # kvs \<Rightarrow> Some (snd (fold (\<lambda>b a. if length (fst a) < length (fst b) then b else a) kvs kv)))"

datatype 'f mux_result = Mux_Handle 'f | Mux_Redirect string string | Mux_Not_Found

definition mux_handler :: "(string \<times> 'f) list \<Rightarrow> http_request \<Rightarrow> 'f mux_result" where
  "mux_handler m r =
     (let p = escaped_path (rq_url r)
      in if rq_method r \<noteq> ''CONNECT'' \<and> clean_path p \<noteq> p then Mux_Redirect (clean_path p) (raw_query (rq_url r))
         else case mux_lookup m p of Some f \<Rightarrow> Mux_Handle f | None \<Rightarrow> Mux_Not_Found)"

datatype ('c, 'h, 'p) endpoint_handler =
    Health_Endpoint
  | Readiness_Endpoint "('c, 'h) trust_controller"
  | Proxy_Endpoint 'p

text \<open>The routes that \<open>main\<close> registers.\<close>

definition main_mux :: "('c, 'h) trust_controller \<Rightarrow> 'p \<Rightarrow> (string \<times> ('c, 'h, 'p) endpoint_handler) list" where
  "main_mux controller proxy =
     [(''/livez'', Health_Endpoint), (''/readyz'', Readiness_Endpoint controller), (''/'', Proxy_Endpoint proxy)]"

lemma main_mux_lookup:
  "mux_lookup (main_mux c p) pth =
     (if pth = '''' then None
      else if path_segments pth = ['''', ''livez''] then Some Health_Endpoint
      else if path_segments pth = ['''', ''readyz''] then Some (Readiness_Endpoint c)
      else if prefix [''''] (path_segments pth) then Some (Proxy_Endpoint p) else None)"
proof -
  have s: "split_on CHR ''/'' ''/livez'' = ['''', ''livez'']" "split_on CHR ''/'' ''/readyz'' = ['''', ''readyz'']"
    "split_on CHR ''/'' ''/'' = ['''', '''']"
    by code_simp+
  have m: "pth \<noteq> [] \<Longrightarrow> pattern_matches ''/livez'' pth = (path_segments pth = ['''', ''livez''])"
    "pth \<noteq> [] \<Longrightarrow> pattern_matches ''/readyz'' pth = (path_segments pth = ['''', ''readyz''])"
    "pth \<noteq> [] \<Longrightarrow> pattern_matches ''/'' pth = prefix [''''] (path_segments pth)"
    by (auto simp: pattern_matches_def s)
  show ?thesis
    by (cases "pth = []") (auto simp: mux_lookup_def main_mux_def m pattern_matches_def [of _ "[]"])
qed

section \<open>The webhook endpoint in the log\<close>

text \<open>\<open>url.URL.String\<close> for the URLs of \<open>Go_Url\<close>; the bytes a host may keep unescaped beside letters and digits.\<close>

definition host_char :: "char \<Rightarrow> bool" where
  "host_char c \<longleftrightarrow> is_alnum c \<or> c \<in> set ''!$&()*+,;=:[]<>-_.~'' \<or> c = CHR 0x22 \<or> c = CHR 0x27"

definition escape_host :: "string \<Rightarrow> string" where
  "escape_host h = concat (map (\<lambda>c. if host_char c then [c] else percent_byte c) h)"

definition url_string :: "url \<Rightarrow> string" where
  "url_string u =
     (let p = escaped_path u;
          s = (if scheme u \<noteq> '''' then scheme u @ '':'' else '''');
          s = s @ (if (scheme u \<noteq> '''' \<or> url_host u \<noteq> '''') \<and> (url_host u \<noteq> '''' \<or> path u \<noteq> '''')
                   then ''//'' @ escape_host (url_host u) else '''');
          s = s @ (if p \<noteq> '''' \<and> hd p \<noteq> CHR ''/'' \<and> url_host u \<noteq> '''' then ''/'' else '''');
          s = s @ (if s = '''' \<and> CHR '':'' \<in> set (fst (cut_on CHR ''/'' p)) then ''./'' else '''') @ p
      in if force_query u \<or> raw_query u \<noteq> '''' then s @ ''?'' @ raw_query u else s)"

definition webhook_endpoint_string :: "webhook_client option \<Rightarrow> string" where
  "webhook_endpoint_string client =
     (case client_endpoint client of None \<Rightarrow> ''<unknown>'' | Some u \<Rightarrow> url_string u)"

lemma webhook_endpoint_string_examples:
  "webhook_endpoint_string None = ''<unknown>''"
  "webhook_endpoint_string (Some \<lparr>endpoint = \<lparr>scheme = ''https'', url_host = ''[::1]:8443'', path = ''/audit log'',
      raw_path = '''', force_query = False, raw_query = ''timeout=30s''\<rparr>, client_timeout = 0\<rparr>) =
     ''https://[::1]:8443/audit%20log?timeout=30s''"
  by code_simp+

section \<open>Start-up\<close>

text \<open>The lines of \<open>logStartupAssumptions\<close>; their attributes are not modelled.\<close>

definition log_startup_assumptions :: "config \<Rightarrow> log_lines" where
  "log_startup_assumptions cfg =
     [(Log_Info, ''backend wiring'')] @
     (if backend_insecure_skip_verify cfg then
        [(Log_Warn, ''backend TLS verification is disabled (--backend-insecure-skip-verify); '' @
           ''backend identity is not authenticated '' @ em_dash @ '' only acceptable for prototype clusters'')]
      else []) @
     (if backend_identity_mode cfg = backend_identity_mode_impersonation then
        [(Log_Info, ''backend identity: impersonation'')] @
        (if backend_impersonation_forward_all_extras cfg then
           [(Log_Warn, ''impersonation forwards ALL inbound extras to the backend '' @
              ''(--backend-impersonation-forward-all-extras); any caller-supplied extra key reaches the backend'')]
         else [])
      else if backend_identity_mode cfg = backend_identity_mode_request_header then
        [(Log_Info, ''backend identity: requestheader (forwarding inbound X-Remote-* headers unchanged)'')]
      else []) @
     [(Log_Info, ''inbound trust source''), (Log_Info, ''audit capture'')] @
     (if tls_cert_file cfg = '''' then
        [(Log_Warn, ''serving plain HTTP (no --tls-cert-file); '' @
           ''requestheader identity is meaningless without TLS '' @ em_dash @ '' only acceptable for local debugging'')]
      else [(Log_Info, ''serving TLS'')]) @
     (if metrics_listen_address cfg = '''' \<or> metrics_listen_address cfg = ''0'' then
        [(Log_Info, ''metrics server disabled'')]
      else if metrics_tls_cert_file cfg \<noteq> '''' then [(Log_Info, ''serving metrics over HTTPS'')]
      else [(Log_Info, ''serving metrics over plain HTTP'')])"

definition insecure_settings :: "config \<Rightarrow> nat" where
  "insecure_settings cfg =
     length (filter id
       [backend_insecure_skip_verify cfg,
        backend_identity_mode cfg = ''impersonation'' \<and> backend_impersonation_forward_all_extras cfg,
        tls_cert_file cfg = ''''])"

text \<open>Each wide-open setting is logged as one warning, and nothing else is.\<close>

lemma insecure_settings_warned:
  "length (filter (\<lambda>l. fst l = Log_Warn) (log_startup_assumptions cfg)) = insecure_settings cfg"
  using modes_differ
  by (auto simp: log_startup_assumptions_def insecure_settings_def backend_identity_mode_impersonation_def
      backend_identity_mode_request_header_def simp del: list.inject)

text \<open>One constructor for each way \<open>main\<close> gives up before it serves, with its log line and exit code.\<close>

datatype 'e startup_error =
    Bad_Flags config_error
  | Bad_Backend_URL 'e
  | Bad_Backend_Transport "'e transport_error"
  | Bad_Impersonation_Transport 'e
  | No_Kube_Client "'e kube_error"
  | No_Identity_Extractor "'e extractor_error"
  | No_Trust "'e trust_error"
  | No_Webhook_Client "'e webhook_error"
  | No_Handler "'e handler_error"
  | No_Metrics_Exporter 'e
  | No_Server 'e

fun exit_code :: "'e startup_error \<Rightarrow> int" where
  "exit_code (Bad_Flags _) = exit_code_usage"
| "exit_code _ = 1"

fun exit_line :: "'e startup_error \<Rightarrow> string" where
  "exit_line (Bad_Flags _) = ''invalid flags''"
| "exit_line (Bad_Backend_URL _) = ''invalid backend URL''"
| "exit_line (Bad_Backend_Transport _) = ''unable to configure backend transport''"
| "exit_line (Bad_Impersonation_Transport _) = ''unable to configure backend impersonation transport''"
| "exit_line (No_Kube_Client _) = ''unable to build in-cluster Kubernetes client''"
| "exit_line (No_Identity_Extractor _) = ''unable to initialize cluster requestheader identity extractor''"
| "exit_line (No_Trust _) = ''unable to establish requestheader trust from cluster''"
| "exit_line (No_Webhook_Client _) = ''unable to initialize webhook client''"
| "exit_line (No_Handler _) = ''unable to initialize proxy handler''"
| "exit_line (No_Metrics_Exporter _) = ''unable to initialize metrics exporter''"
| "exit_line (No_Server _) = ''unable to initialize serving HTTP server''"

text \<open>A call whose error ends the process, or whose result the rest of \<open>main\<close> goes on with.\<close>

definition or_exit ::
  "log_lines \<Rightarrow> ('x \<Rightarrow> 'e startup_error) \<Rightarrow> 'x + 'a \<Rightarrow>
     ('a \<Rightarrow> ('e startup_error \<times> log_lines + 'r) option) \<Rightarrow> ('e startup_error \<times> log_lines + 'r) option" where
  "or_exit lines err r k =
     (case r of
        Inl x \<Rightarrow> Some (Inl (err x, lines @ [(Log_Error, exit_line (err x))]))
      | Inr a \<Rightarrow> k a)"

lemma or_exit_serves: "or_exit lines err r k = Some (Inr s) \<longleftrightarrow> (\<exists>a. r = Inr a \<and> k a = Some (Inr s))"
  by (simp add: or_exit_def split: sum.splits)

lemma or_exit_fails:
  "or_exit lines err r k = Some (Inl (e, ls)) \<longleftrightarrow>
     (\<exists>x. r = Inl x \<and> e = err x \<and> ls = lines @ [(Log_Error, exit_line e)]) \<or> (\<exists>a. r = Inr a \<and> k a = Some (Inl (e, ls)))"
  by (auto simp: or_exit_def split: sum.splits)

text \<open>
  What \<open>main\<close> uses of its libraries: \<open>url.Parse\<close>, TLS and the file system, the round tripper that an
  \<open>http.Transport\<close> is, the bearer-token round tripper, the Kubernetes client, the trust gate, the
  authenticator built on a controller's snapshot, the webhook and metric libraries and HTTP/2.
\<close>

type_synonym ('e, 'c, 'h) main_routes =
  "(string \<times> ('c, 'h, ('e, 'e) handler \<times> webhook_client) endpoint_handler) list"

record ('e, 'cert, 'pool, 'b, 'r, 'k, 'c, 'h, 'v, 'wk, 's, 'n, 'ex, 'm, 'conn) main_env =
  me_fraction :: "nat \<Rightarrow> nat \<Rightarrow> nat \<Rightarrow> nat"
  me_parse_url :: "string \<Rightarrow> 'e + url"
  me_tls :: "('cert, 'pool, 'e) tls_lib"
  me_default_transport :: "'b option"
  me_round_tripper :: "('b, 'cert, 'pool) backend_transport \<Rightarrow> 'e transport"
  me_bearer_auth :: "string \<Rightarrow> string \<Rightarrow> 'e transport \<Rightarrow> 'e + 'e transport"
  me_in_cluster_config :: "'e + 'r"
  me_new_for_config :: "'r \<Rightarrow> 'e + 'k"
  me_trust :: "('k, 'c, 'h, 'v, 'e) trust_env"
  me_new_dynamic :: "('c, 'h) trust_controller \<Rightarrow> 'e request_authenticator"
  me_webhook :: "('wk, 's, 'n, 'e) webhook_lib"
  me_auth :: "('v, 'e) auth_lib"
  me_http_default :: "'e transport"
  me_new_exporter :: "'e + 'ex"
  me_meter :: "'ex \<Rightarrow> instrument_kind \<Rightarrow> string \<Rightarrow> nat list \<Rightarrow> 'e + 'm"
  me_configure_http2 ::
    "(('e, 'c, 'h) main_routes, 'cert, 'pool, 'conn) http_server \<Rightarrow> int \<Rightarrow>
       'e + (('e, 'c, 'h) main_routes, 'cert, 'pool, 'conn) http_server"

definition wrap_impersonation_transport ::
  "(string \<Rightarrow> string \<Rightarrow> 'e transport \<Rightarrow> 'e + 'e transport) \<Rightarrow> 'e transport \<Rightarrow> string \<Rightarrow> 'e + 'e transport" where
  "wrap_impersonation_transport bearer_auth base token_file = bearer_auth '''' token_file base"

text \<open>The round tripper and the identity presented to the backend, by the mode.\<close>

definition backend_wiring ::
  "(string \<Rightarrow> string \<Rightarrow> 'e transport \<Rightarrow> 'e + 'e transport) \<Rightarrow> 'e transport \<Rightarrow> config \<Rightarrow>
     'e + 'e transport \<times> backend_identity" where
  "backend_wiring bearer_auth backend_transport cfg =
     (if backend_identity_mode cfg = backend_identity_mode_impersonation then
        (case wrap_impersonation_transport bearer_auth backend_transport (backend_impersonation_token_file cfg) of
           Inl e \<Rightarrow> Inl e
         | Inr round_tripper \<Rightarrow>
             Inr (round_tripper,
               Impersonator (new_impersonator
                 \<lparr>extra_keys = split_comma_list (backend_impersonation_extra_keys cfg),
                  cfg_forward_all_extras = backend_impersonation_forward_all_extras cfg,
                  cfg_forward_uid = backend_impersonation_forward_uid cfg\<rparr>)))
      else Inr (backend_transport, Request_Header_Forwarder))"

text \<open>
  The extractor reads the controller through its pointer: once the controller has the snapshot \<open>c\<close>, the
  extractor acts as the one built on \<open>c\<close>.
\<close>

definition live_extractor ::
  "(('c, 'h) trust_controller \<Rightarrow> 'e request_authenticator) \<Rightarrow> ('c, 'h) trust_controller \<Rightarrow> 'e extractor \<Rightarrow> 'e extractor" where
  "live_extractor new_dynamic c e = e\<lparr>authenticator := Some (new_dynamic c)\<rparr>"

text \<open>What runs when \<open>main\<close> has reached its call of \<open>serve\<close>.\<close>

record ('e, 'c, 'h, 'cert, 'pool, 'conn, 'm) running =
  rn_config :: config
  rn_controller :: "('c, 'h) trust_controller"
  rn_proxy :: "('e, 'e) handler \<times> webhook_client"
  rn_server :: "(('e, 'c, 'h) main_routes, 'cert, 'pool, 'conn) http_server"
  rn_serving :: listen_mode
  rn_metrics :: "listen_mode option"
  rn_registry :: "'m registry"
  rn_lines :: log_lines

definition start_metrics_server :: "config \<Rightarrow> listen_mode option" where
  "start_metrics_server cfg =
     (if metrics_listen_address cfg \<noteq> '''' \<and> metrics_listen_address cfg \<noteq> ''0'' then Some (metrics_mode cfg) else None)"

text \<open>The instruments that \<open>InitPrometheusExporter\<close> leaves, none of them set before.\<close>

definition initial_registry ::
  "('e + 'x) \<Rightarrow> ('x \<Rightarrow> instrument_kind \<Rightarrow> string \<Rightarrow> nat list \<Rightarrow> 'e + 'h) \<Rightarrow> 'e + 'h registry" where
  "initial_registry new_exporter meter =
     (case init_prometheus_exporter new_exporter meter Map.empty of
        (Some e, _) \<Rightarrow> Inl e
      | (None, registry) \<Rightarrow> Inr registry)"

definition main_startup ::
  "('e, 'cert, 'pool, 'b, 'r, 'k, 'c, 'h, 'v, 'wk, 's, 'n, 'ex, 'm, 'conn) main_env \<Rightarrow> string list \<Rightarrow>
     ('e startup_error \<times> log_lines + ('e, 'c, 'h, 'cert, 'pool, 'conn, 'm) running) option" where
  "main_startup env args =
     or_exit [] Bad_Flags (parse_flags (me_fraction env) args) (\<lambda>cfg.
     or_exit [] Bad_Backend_URL (me_parse_url env (backend_url cfg)) (\<lambda>url.
     or_exit [] Bad_Backend_Transport (build_backend_transport (me_tls env) (me_default_transport env) url cfg) (\<lambda>bt.
     or_exit [] Bad_Impersonation_Transport (backend_wiring (me_bearer_auth env) (me_round_tripper env bt) cfg)
       (\<lambda>(round_tripper, identity).
     or_exit [] No_Kube_Client (build_kube_client (me_in_cluster_config env) (me_new_for_config env)) (\<lambda>kube_client.
     or_exit [] No_Identity_Extractor
       (new_cluster_extractor (te_lib (me_trust env)) (me_new_dynamic env) (Some kube_client)) (\<lambda>(extractor, controller).
     case start_request_header_trust (me_trust env) kube_client controller [] of
       None \<Rightarrow> None
     | Some (trust, lines) \<Rightarrow>
     or_exit lines No_Trust trust (\<lambda>controller.
     or_exit lines No_Webhook_Client
       (new_client_from_kubeconfig (me_webhook env) (webhook_kubeconfig cfg) (webhook_timeout cfg)) (\<lambda>webhook.
     let lines = lines @ [(Log_Info, ''audit webhook client configured'')] in
     or_exit lines No_Handler
       (new_handler (me_auth env) (me_http_default env)
          \<lparr>cfg_backend_url = Some url, cfg_webhook_client = Some webhook,
           cfg_identity_extractor = Some (live_extractor (me_new_dynamic env) controller extractor),
           cfg_transport = Some round_tripper, cfg_backend_identity = Some identity,
           cfg_max_audit_body_bytes = max_audit_body_bytes cfg, cfg_temp_dir = capture_temp_dir cfg\<rparr>) (\<lambda>proxy.
     or_exit lines No_Metrics_Exporter (initial_registry (me_new_exporter env) (me_meter env)) (\<lambda>registry.
     or_exit lines No_Server
       (new_http_server (me_configure_http2 env) (listen_address cfg) (main_mux controller proxy)
          (build_serving_tls_config cfg)) (\<lambda>server.
     Some (Inr
       \<lparr>rn_config = cfg, rn_controller = controller, rn_proxy = proxy, rn_server = server, rn_serving = serve_mode server cfg,
        rn_metrics = start_metrics_server cfg, rn_registry = registry,
        rn_lines = lines @ log_startup_assumptions cfg @
          [(Log_Info, ''audit pass-through API server listening; waiting for first request from the cluster'')]\<rparr>))))))))))))"

lemma gate_hangs:
  assumes "start_request_header_trust env client c lines = None"
  shows "te_wake env n = Ticked"
proof -
  have "trust_run_once (te_lib env) (Some c) \<noteq> (None, None)"
    by (auto simp: trust_run_once_def split: prod.splits)
  with assms obtain loaded where
    "wait_for_trust (\<lambda>n. trust_ready (te_lib env) (Some (trust_watched (te_lib env) loaded n))) (te_wake env) 0 = None"
    by (auto simp: start_request_header_trust_def Let_def split: option.splits prod.splits)
  then show ?thesis by (simp add: wait_never_iff waiting_def)
qed

lemma startup_hangs:
  assumes "main_startup env args = None"
  shows "te_wake (me_trust env) n = Ticked"
  using assms gate_hangs [of "me_trust env"]
  by (auto simp: main_startup_def or_exit_def Let_def split: sum.splits option.splits prod.splits)

lemma startup_fails:
  assumes "main_startup env args = Some (Inl (e, lines))"
  shows "exit_code e = (if \<exists>c. e = Bad_Flags c then 2 else 1) \<and> last lines = (Log_Error, exit_line e)"
proof -
  have code: "exit_code e = (if \<exists>c. e = Bad_Flags c then 2 else 1)" for e :: "'a startup_error"
    by (cases e) (simp_all add: exit_code_usage_def)
  show ?thesis
    using assms code [of e]
    by (auto simp: main_startup_def or_exit_fails Let_def simp del: exit_line.simps exit_code.simps
        split: option.splits prod.splits)
qed

lemma wiring_matches_mode:
  assumes "backend_wiring auth bt cfg = Inr (rt, i)" and "valid_config cfg set_flags"
  shows "i = Request_Header_Forwarder \<longleftrightarrow> backend_identity_mode cfg = ''requestheader''"
  using assms modes_differ
  by (auto simp: backend_wiring_def valid_config_def valid_identity_flags_def backend_identity_mode_impersonation_def
      split: if_splits sum.splits)

lemma new_handler_wires:
  assumes "new_handler lib dt cfg = Inr (h, webhook)"
  shows "cfg_webhook_client cfg = Some webhook"
    and "cfg_identity_extractor cfg = Some x \<Longrightarrow> h_identity h = x"
    and "cfg_backend_identity cfg = Some i \<Longrightarrow> h_backend_identity h = i"
    and "h_capture_max h = cfg_max_audit_body_bytes cfg"
  using assms by (auto simp: new_handler_def Let_def split: option.splits sum.splits)

lemma cluster_extractor_live:
  "new_cluster_extractor lib new_dynamic (Some client) = Inr (e, c) \<Longrightarrow>
     live_extractor new_dynamic c' e = \<lparr>authenticator = Some (new_dynamic c'), requires_verified = True\<rparr>"
  by (auto simp: new_cluster_extractor_def live_extractor_def split: sum.splits)

text \<open>
  What holds of a start-up that got as far as serving: valid flags, a usable trust snapshot, one handler behind the
  routes that requires verified headers, authenticates with the controller's snapshot, presents the identity
  that the mode asks for and captures up to the limit of the flags.
\<close>

definition started_safely ::
  "('e, 'cert, 'pool, 'b, 'r, 'k, 'c, 'h, 'v, 'wk, 's, 'n, 'ex, 'm, 'conn) main_env \<Rightarrow> string list \<Rightarrow>
     ('e, 'c, 'h, 'cert, 'pool, 'conn, 'm) running \<Rightarrow> bool" where
  "started_safely env args s \<longleftrightarrow>
    parse_flags (me_fraction env) args = Inr (rn_config s) \<and>
    trust_ready (te_lib (me_trust env)) (Some (rn_controller s)) \<and>
    (case rn_proxy s of (handler, webhook) \<Rightarrow>
       new_http_server (me_configure_http2 env) (listen_address (rn_config s))
         (main_mux (rn_controller s) (handler, webhook)) (build_serving_tls_config (rn_config s)) = Inr (rn_server s) \<and>
       h_identity handler = \<lparr>authenticator = Some (me_new_dynamic env (rn_controller s)), requires_verified = True\<rparr> \<and>
       (h_backend_identity handler = Request_Header_Forwarder \<longleftrightarrow>
          backend_identity_mode (rn_config s) = ''requestheader'') \<and>
       h_capture_max handler = max_audit_body_bytes (rn_config s) \<and> 0 < sint (h_capture_max handler) \<and>
       client_timeout webhook = webhook_timeout (rn_config s))"

lemma startup_serves:
  assumes "main_startup env args = Some (Inr s)"
  shows "started_safely env args s"
proof -
  obtain cfg url bt rt i kube e c0 c lines webhook handler hook server registry where
    p: "parse_flags (me_fraction env) args = Inr cfg"
    and w: "backend_wiring (me_bearer_auth env) (me_round_tripper env bt) cfg = Inr (rt, i)"
    and e: "new_cluster_extractor (te_lib (me_trust env)) (me_new_dynamic env) (Some kube) = Inr (e, c0)"
    and t: "start_request_header_trust (me_trust env) kube c0 [] = Some (Inr c, lines)"
    and k: "new_client_from_kubeconfig (me_webhook env) (webhook_kubeconfig cfg) (webhook_timeout cfg) = Inr webhook"
    and h: "new_handler (me_auth env) (me_http_default env)
          \<lparr>cfg_backend_url = Some url, cfg_webhook_client = Some webhook,
           cfg_identity_extractor = Some (live_extractor (me_new_dynamic env) c e),
           cfg_transport = Some rt, cfg_backend_identity = Some i,
           cfg_max_audit_body_bytes = max_audit_body_bytes cfg, cfg_temp_dir = capture_temp_dir cfg\<rparr> = Inr (handler, hook)"
    and v: "new_http_server (me_configure_http2 env) (listen_address cfg) (main_mux c (handler, hook))
          (build_serving_tls_config cfg) = Inr server"
    and s: "rn_config s = cfg" "rn_controller s = c" "rn_proxy s = (handler, hook)" "rn_server s = server"
    using assms
    by (auto simp: main_startup_def or_exit_serves Let_def split: option.splits prod.splits)
  obtain set_flags where valid: "valid_config cfg set_flags"
    using p by (auto simp: parse_flags_def check_config_None [symmetric] split: sum.splits option.splits)
  have "client_timeout webhook = webhook_timeout cfg"
    using k by (auto simp: new_client_from_kubeconfig_def split: sum.splits option.splits)
  moreover have "0 < sint (max_audit_body_bytes cfg)" using valid by (simp add: valid_config_def)
  ultimately show ?thesis
    using new_handler_wires [OF h] cluster_extractor_live [OF e, of c] wiring_matches_mode [OF w valid]
      trust_gate_ready [OF t] p v
    unfolding started_safely_def s prod.case by (intro conjI) simp_all
qed

text \<open>
  C4: the start-up gate.  Once \<open>main\<close> serves, its flags were valid, the ConfigMap could be read and the
  trust controller holds a usable snapshot; every request reaches the one handler, which requires verified
  headers, authenticates with the controller's snapshot and presents the identity the mode asks for, with
  the capture limit of the flags.  Otherwise the process exits with code 2 for bad flags and code 1 for
  anything else, and its last log line says why.
\<close>

theorem startup_gate:
  "(case main_startup env args of
      None \<Rightarrow> (\<forall>n. te_wake (me_trust env) n = Ticked)
    | Some (Inl (e, lines)) \<Rightarrow>
        exit_code e = (if \<exists>c. e = Bad_Flags c then 2 else 1) \<and> last lines = (Log_Error, exit_line e)
    | Some (Inr s) \<Rightarrow> started_safely env args s)"
proof (cases "main_startup env args")
  case None
  then show ?thesis using startup_hangs by auto
next
  case (Some r)
  then show ?thesis using startup_fails startup_serves by (cases r) (auto simp del: exit_line.simps exit_code.simps)
qed

section \<open>A start-up that serves\<close>

text \<open>
  A cluster whose ConfigMap is readable and whose watch has loaded the CA bundle at the third look: the
  process serves, after the loop has run three times.
\<close>

definition sample_trust :: "(unit, bool, string list, unit, string) trust_env" where
  "sample_trust =
     \<lparr>te_lib =
        \<lparr>new_ca_controller = \<lambda>_ _ _ _ _. Inr False, new_headers_controller = \<lambda>_ _ _ _ _ _ _ _. [],
         ca_run_once = \<lambda>c. (None, c), headers_run_once = \<lambda>_. (None, [''X-Remote-User'']),
         ca_run = \<lambda>n _. 2 \<le> n, headers_run = \<lambda>_ h. h, ca_verify_options = \<lambda>c. ((), c), username_headers = id,
         new_aggregate = \<lambda>es. Option.bind (List.find (\<lambda>e. e \<noteq> None) es) id\<rparr>,
      te_get_config_map = \<lambda>_ _ _. None, te_is_forbidden = \<lambda>_. False, te_is_not_found = \<lambda>_. False,
      te_wake = \<lambda>n. if n < 300 then Ticked else Context_Done ''deadline''\<rparr>"

definition sample_backend :: "string transport" where
  "sample_backend =
     (\<lambda>_ _. ([On_Body (Do_Read 32768), On_Body Do_Close],
        Inr \<lparr>rs_status_code = 201, rs_proto = ''HTTP/2.0'', rs_header = [], rs_body = [(''ok'', Some EOF)]\<rparr>))"

definition sample_main_env ::
  "((bool, string list) trust_controller \<Rightarrow> string request_authenticator) \<Rightarrow> (string, unit, unit, unit, unit, unit, bool, string list, unit, unit, unit, unit, unit, unit, unit) main_env" where
  "sample_main_env new_dynamic =
     \<lparr>me_fraction = \<lambda>_ _ _. 0,
      me_parse_url = \<lambda>_. Inr \<lparr>scheme = ''https'', url_host = ''b'', path = '''', raw_path = '''', force_query = False, raw_query = ''''\<rparr>,
      me_tls =
        \<lparr>system_cert_pool = Inr None, empty_cert_pool = (), append_certs_from_pem = \<lambda>p _. Some p,
         load_x509_key_pair = \<lambda>_ _. Inr (), read_os_file = \<lambda>_. Inr ''PEM''\<rparr>,
      me_default_transport = Some (), me_round_tripper = \<lambda>_. sample_backend,
      me_bearer_auth = \<lambda>_ _ t. Inr t, me_in_cluster_config = Inr (), me_new_for_config = Inr,
      me_trust = sample_trust, me_new_dynamic = new_dynamic,
      me_webhook =
        \<lparr>build_config_from_flags = \<lambda>_. Inr (), transport_for = \<lambda>_. None, config_host = \<lambda>_. ''https://hook'',
         parse_url = \<lambda>h. Inr \<lparr>scheme = ''https'', url_host = h, path = '''', raw_path = '''', force_query = False, raw_query = ''''\<rparr>,
         reparse = Inr, marshal_events = \<lambda>_. Inr ''{}'', do_request = \<lambda>_ n. (Inl ''refused'', n)\<rparr>,
      me_auth =
        \<lparr>headerrequest_new = \<lambda>_ _ _ _. Inl ''unused'', new_static_verifier_from_file = \<lambda>_. Inl ''unused'',
         new_verify_options_secure = \<lambda>_ _ _ _ _ _ _. (None, False, None)\<rparr>,
      me_http_default = \<lambda>_ _. ([], Inl ''refused''), me_new_exporter = Inr (), me_meter = \<lambda>_ _ _ _. Inr (),
      me_configure_http2 = \<lambda>s _. Inr s\<rparr>"

definition sample_args :: "string list" where
  "sample_args = [''--backend-url=https://b'', ''--webhook-kubeconfig'', ''k'', ''-backend-ca-file=ca'']"

lemma sample_flags: "parse_flags (\<lambda>_ _ _. 0) sample_args = Inr sample_config"
  by code_simp

lemma sample_gate:
  "start_request_header_trust sample_trust () \<lparr>tc_ca = False, tc_headers = []\<rparr> [] =
     Some (Inr \<lparr>tc_ca = True, tc_headers = [''X-Remote-User'']\<rparr>,
       [(Log_Info, ''loading requestheader trust from cluster ConfigMap''),
        (Log_Info, ''requestheader trust loaded from cluster ConfigMap'')])"
  by (simp add: start_request_header_trust_def sample_trust_def trust_run_once_def trust_ready_def trust_watched_def trust_run_def
      wait_for_trust.simps [of _ _ 0] wait_for_trust.simps [of _ _ "Suc 0"] wait_for_trust.simps [of _ _ "Suc (Suc 0)"])

lemma sample_registry: "initial_registry (Inr ()) (\<lambda>_ _ _ _. Inr ()) \<noteq> Inl e"
  by (simp add: initial_registry_def init_prometheus_exporter_def register_instruments_def instrument_specs_def)

lemma sample_serves:
  "\<exists>s c hook. main_startup (sample_main_env nd) sample_args = Some (Inr s) \<and>
     rn_proxy s =
       (\<lparr>h_backend_url = \<lparr>scheme = ''https'', url_host = ''b'', path = '''', raw_path = '''', force_query = False, raw_query = ''''\<rparr>,
         h_identity = \<lparr>authenticator = Some (nd c), requires_verified = True\<rparr>, h_transport = sample_backend,
         h_backend_identity = Request_Header_Forwarder, h_builder = new_builder default_max_audit_body_size,
         h_temp_dir = '''', h_capture_max = default_max_audit_body_size\<rparr>, hook)"
proof -
  obtain registry where r: "initial_registry (Inr ()) (\<lambda>_ _ _ _. Inr ()) = (Inr registry :: string + unit registry)"
    using sample_registry by (metis sum.exhaust)
  have w: "backend_wiring bearer rt sample_config = Inr (rt, Request_Header_Forwarder)" for bearer and rt :: "string transport"
    by (simp add: backend_wiring_def sample_config_def default_config_def default_backend_identity_mode_def
        backend_identity_mode_request_header_def backend_identity_mode_impersonation_def)
  have c: "\<not> backend_insecure_skip_verify sample_config" "backend_ca_file sample_config \<noteq> ''''"
    "backend_server_name sample_config = ''''" "backend_client_cert_file sample_config = ''''"
    "max_audit_body_bytes sample_config = default_max_audit_body_size" "capture_temp_dir sample_config = ''''"
    by (simp_all add: sample_config_def default_config_def)
  have x: "new_cluster_extractor (te_lib sample_trust) nd (Some ()) =
      Inr (\<lparr>authenticator = Some (nd \<lparr>tc_ca = False, tc_headers = []\<rparr>), requires_verified = True\<rparr>,
           \<lparr>tc_ca = False, tc_headers = []\<rparr>)" for nd
    by (simp add: new_cluster_extractor_def new_request_header_trust_controller_def sample_trust_def)
  show ?thesis
    unfolding or_exit_serves main_startup_def sample_main_env_def
    by (simp add: or_exit_serves or_exit_def sample_flags w x sample_gate r build_kube_client_def
        build_backend_transport_def load_cert_pool_def new_client_from_kubeconfig_def new_handler_def new_http_server_def
        Let_def c live_extractor_def) blast
qed

end
