(* ===== verification/Proxy_System.thy ===== *)
theory Proxy_System
  imports Audit_Pipeline Server_Startup
begin

text \<open>
  The whole program: what \<open>main\<close> has started, serving requests that come in through its routes, running
  audit jobs, and adopting new trust snapshots, in any order.  Two invariants of every run: what may reach
  the backend, and what may reach the webhook.
\<close>

section \<open>The running system\<close>

text \<open>The snapshot the trust controller holds, all it has held since the start, and the process.\<close>

record ('c, 'h, 'n) system =
  sy_controller :: "('c, 'h) trust_controller"
  sy_held :: "('c, 'h) trust_controller list"
  sy_process :: "'n webhook_world process"

text \<open>The handler reads the controller through its extractor at every request.\<close>

definition handler_at ::
  "(('c, 'h) trust_controller \<Rightarrow> 'e request_authenticator) \<Rightarrow> ('c, 'h) trust_controller \<Rightarrow> ('x, 'e) handler \<Rightarrow> ('x, 'e) handler" where
  "handler_at new_dynamic c h = h\<lparr>h_identity := live_extractor new_dynamic c (h_identity h)\<rparr>"

definition new_system ::
  "('e, 'c, 'h, 'cert, 'pool, 'conn, 'm) running \<Rightarrow> os_state \<Rightarrow> 'n \<Rightarrow> ('c, 'h, 'n) system" where
  "new_system s os net =
     \<lparr>sy_controller = rn_controller s, sy_held = [rn_controller s],
      sy_process =
        \<lparr>p_os = os, p_metrics = [], p_lines = rn_lines s,
         p_once = \<lparr>first_request = False, first_verified_request = False, first_backend_ok = False,
                   first_webhook_ok = False\<rparr>,
         p_ticks = 0, p_jobs = [], p_upstream = [], p_net = \<lparr>wh_net = net, wh_posts = [], wh_open_bodies = 0\<rparr>\<rparr>\<rparr>"

inductive system_step ::
  "('e, 'cert, 'pool, 'b, 'r, 'k, 'c, 'h, 'v, 'wk, 's, 'n, 'ex, 'm, 'conn) main_env \<Rightarrow> (bytes \<Rightarrow> 's status option) \<Rightarrow>
     ('e, 'c, 'h, 'cert, 'pool, 'conn, 'm) running \<Rightarrow> ('c, 'h, 'n) system \<Rightarrow> ('c, 'h, 'n) system \<Rightarrow> bool"
  for env us s where
  Adopt: "system_step env us s y (y\<lparr>sy_controller := c, sy_held := sy_held y @ [c]\<rparr>)"
| Request:
    "mux_handler (main_mux (sy_controller y) (rn_proxy s)) r = Mux_Handle (Proxy_Endpoint (h, webhook)) \<Longrightarrow>
     serve_http (handler_at (me_new_dynamic env) (sy_controller y) h) henv (fresh_client hdr) r body (sy_process y) =
       Some (served, x) \<Longrightarrow>
     system_step env us s y (y\<lparr>sy_process := ex_proc x\<rparr>)"
| Job:
    "p_jobs (sy_process y) = js @ job # ks \<Longrightarrow> rn_proxy s = (h, webhook) \<Longrightarrow>
     system_step env us s y
       (y\<lparr>sy_process := build_and_send_audit_event us (client_send (me_webhook env) webhook) h henv job
             ((sy_process y)\<lparr>p_jobs := js @ ks\<rparr>)\<rparr>)"

inductive system_reach ::
  "('e, 'cert, 'pool, 'b, 'r, 'k, 'c, 'h, 'v, 'wk, 's, 'n, 'ex, 'm, 'conn) main_env \<Rightarrow> (bytes \<Rightarrow> 's status option) \<Rightarrow>
     ('e, 'c, 'h, 'cert, 'pool, 'conn, 'm) running \<Rightarrow> ('c, 'h, 'n) system \<Rightarrow> ('c, 'h, 'n) system \<Rightarrow> bool"
  for env us s y0 where
  Begin: "system_reach env us s y0 y0"
| Go: "system_reach env us s y0 y \<Longrightarrow> system_step env us s y z \<Longrightarrow> system_reach env us s y0 z"

section \<open>What may be sent\<close>

text \<open>
  A request at the backend that stems from one the authenticator accepted, with the identity it gave.  An
  audited request declares the length of the client's body, and what it offers is that body or, when the
  spooled file cannot be read, a beginning of it.
\<close>

definition accepts_as :: "'e request_authenticator \<Rightarrow> http_request \<Rightarrow> user_info \<Rightarrow> bool" where
  "accepts_as auth r user \<longleftrightarrow> (\<exists>u. auth r = (u, True, None) \<and> user = (case u of Some (Some v) \<Rightarrow> v | _ \<Rightarrow> empty_user))"

definition vouched :: "'e request_authenticator \<Rightarrow> ('x, 'e) handler \<Rightarrow> http_request \<times> bytes \<Rightarrow> bool" where
  "vouched auth h sent \<longleftrightarrow>
     (\<exists>r user. accepts_as auth r user \<and>
        (passthrough_request (h_backend_url h) (h_backend_identity h) (Some user) r = Some (fst sent) \<or>
         (\<exists>content. prefix (snd sent) content \<and>
            fst sent = build_upstream_request (h_backend_url h) (h_backend_identity h) r (of_nat (length content)) user)))"

definition mutating_verbs :: "string set" where
  "mutating_verbs = {''create'', ''update'', ''patch'', ''delete'', ''deletecollection''}"

definition job_ok :: "'e request_authenticator \<Rightarrow> audit_job \<Rightarrow> bool" where
  "job_ok auth job \<longleftrightarrow> accepts_as auth (job_request job) (job_user job) \<and>
     is_resource_request (job_info job) \<and> verb (job_info job) \<in> mutating_verbs"

text \<open>The type of the events that leave the proxy.\<close>

definition json_object_ok :: "unknown option \<Rightarrow> bool" where
  "json_object_ok u \<longleftrightarrow> (case u of None \<Rightarrow> True | Some u \<Rightarrow> content_type u = ''application/json'' \<and> json_valid (raw u))"

definition well_formed_event :: "'s audit_event \<Rightarrow> bool" where
  "well_formed_event ev \<longleftrightarrow>
     ev_level ev = ''RequestResponse'' \<and> ev_stage ev = ''ResponseComplete'' \<and> ev_verb ev \<in> mutating_verbs \<and>
     ev_object_ref ev \<noteq> None \<and> json_object_ok (ev_request_object ev) \<and> json_object_ok (ev_response_object ev) \<and>
     distinct (ev_source_ips ev) \<and> '''' \<notin> set (ev_source_ips ev) \<and>
     (\<forall>k v. map_of (ev_annotations ev) k = Some v \<longrightarrow>
        v = ''true'' \<and> k \<in> {truncation_annotation_prefix @ ''request-truncated'', truncation_annotation_prefix @ ''response-truncated''})"

definition posted_ok ::
  "('wk, 's, 'n, 'e) webhook_lib \<Rightarrow> 'e request_authenticator \<Rightarrow> bytes \<Rightarrow> bool" where
  "posted_ok lib auth payload \<longleftrightarrow>
     (\<exists>ev r. payload = event_payload lib (wrap ev) \<and> well_formed_event ev \<and> accepts_as auth r (ev_user ev) \<and>
        ev_request_uri ev = request_uri (rq_url r))"

section \<open>Steps of the parts\<close>

definition one_more :: "('a \<Rightarrow> bool) \<Rightarrow> 'a list \<Rightarrow> 'a list \<Rightarrow> bool" where
  "one_more P xs ys \<longleftrightarrow> ys = xs \<or> (\<exists>x. ys = xs @ [x] \<and> P x)"

lemma one_more_list_all: "one_more P xs ys \<Longrightarrow> (\<And>x. P x \<Longrightarrow> Q x) \<Longrightarrow> list_all Q xs \<Longrightarrow> list_all Q ys"
  by (auto simp: one_more_def)

lemma route_accepts:
  assumes "h_identity h = \<lparr>authenticator = Some auth, requires_verified = True\<rparr>"
  shows "route_of h env r = Pass_Through user \<Longrightarrow> accepts_as auth r user"
    and "route_of h env r = Audit user info \<Longrightarrow>
      accepts_as auth r user \<and> is_resource_request info \<and> verb info \<in> mutating_verbs"
  using assms user_info_rebuild
  by (auto simp: route_of_def from_request_def requires_verified_headers_def accepts_as_def should_audit_def
      mutating_verbs_def Let_def split: prod.splits option.splits bool.splits sum.splits if_splits)

lemma serve_adds:
  assumes "serve_http h env (fresh_client hdr) r body p = Some (served, x)"
    and id: "h_identity h = \<lparr>authenticator = Some auth, requires_verified = True\<rparr>"
  shows "one_more (vouched auth h) (p_upstream p) (p_upstream (ex_proc x))"
    and "one_more (job_ok auth) (p_jobs p) (p_jobs (ex_proc x))"
proof -
  have r: "routed h env r body (arrival env hdr r p) served x"
    using serve_http_routed [of h env hdr r body p] assms(1) by auto
  have a: "xups (arrival env hdr r p) = p_upstream p" "xjobs (arrival env hdr r p) = p_jobs p"
    by (simp_all add: arrival_def time_now_def)
  have "one_more (vouched auth h) (p_upstream p) (xups x) \<and> one_more (job_ok auth) (p_jobs p) (xjobs x)"
  proof (cases "route_of h env r")
    case Reject
    then show ?thesis using r by (auto simp: routed_def same_effects_def one_more_def a)
  next
    case (Pass_Through user)
    note o = r [unfolded routed_def Pass_Through route.case passthrough_outcome_def a]
    show ?thesis
      using o route_accepts(1) [OF id Pass_Through]
      by (auto simp: one_more_def vouched_def Let_def split: option.splits)
  next
    case (Audit user info)
    note o = audited_outcome_adds [OF r [unfolded routed_def Audit route.case], unfolded a]
    note acc = route_accepts(2) [OF id Audit]
    have up: "vouched auth h (build_upstream_request (h_backend_url h) (h_backend_identity h) r
        (of_nat (length (script_content body))) user, sent)" if "prefix sent (script_content body)" for sent
      using acc that by (auto simp: vouched_def)
    have "one_more (vouched auth h) (p_upstream p) (xups x)"
      using o(1) up unfolding one_more_def by blast
    moreover have "one_more (job_ok auth) (p_jobs p) (xjobs x)"
      using o(2) acc by (auto simp: one_more_def job_ok_def faithful_def)
    ultimately show ?thesis ..
  qed
  then show "one_more (vouched auth h) (p_upstream p) (p_upstream (ex_proc x))"
    and "one_more (job_ok auth) (p_jobs p) (p_jobs (ex_proc x))" by simp_all
qed

lemma source_ips_ok: "distinct (collect_source_ips req) \<and> '''' \<notin> set (collect_source_ips req)"
  by (simp add: collect_source_ips_fold fold_append_ip source_words_def)

lemma recorded_object_ok: "json_object_ok (fst (build_unknown body n trunc))"
  by (simp add: json_object_ok_def build_unknown_def json_valid_def marshalled_placeholder)

lemma job_event_ok:
  assumes "job_ok auth job" and "build us uuid (h_builder h) (job_input job now) = Inr ev"
  shows "well_formed_event ev \<and> accepts_as auth (job_request job) (ev_user ev) \<and>
    ev_request_uri ev = request_uri (rq_url (job_request job))"
proof -
  have i: "in_request (job_input job now) = Some (job_request job)" "in_request_info (job_input job now) = Some (job_info job)"
    by (simp_all add: job_input_def)
  show ?thesis
  proof (rule build_parts [OF i, of us uuid "h_builder h"])
    fix e
    assume "build us uuid (h_builder h) (job_input job now) = Inr e"
    then have e: "e = ev" using assms(2) by simp
    assume "ev_level e = ''RequestResponse''" "ev_stage e = ''ResponseComplete''" "ev_verb e = verb (job_info job)"
      "ev_user e = in_user (job_input job now)" "ev_request_uri e = request_uri (rq_url (job_request job))"
      "ev_source_ips e = collect_source_ips (job_request job)"
      "ev_object_ref e = (if is_resource_request (job_info job)
         then Some (build_object_reference (job_info job) (decode_object_meta (in_request_body (job_input job now)))
                      (decode_object_meta (in_response_body (job_input job now)))) else None)"
      "ev_request_object e = fst (build_unknown (in_request_body (job_input job now))
         (in_request_body_bytes (job_input job now)) (in_request_body_truncated (job_input job now)))"
      "ev_response_object e = fst (build_unknown (in_response_body (job_input job now))
         (in_response_body_bytes (job_input job now)) (in_response_body_truncated (job_input job now)))"
      "map_of (ev_annotations e) =
         map_of ((if in_request_body_truncated (job_input job now) \<and> trim_space (in_request_body (job_input job now)) \<noteq> []
            then [(truncation_annotation_prefix @ ''request-truncated'', ''true'')] else []) @
          (if in_response_body_truncated (job_input job now) \<and> trim_space (in_response_body (job_input job now)) \<noteq> []
            then [(truncation_annotation_prefix @ ''response-truncated'', ''true'')] else []))"
    with assms(1) source_ips_ok [of "job_request job"] recorded_object_ok show ?thesis
      unfolding e job_ok_def well_formed_event_def by (auto simp: job_input_def split: if_splits)
  qed
qed

lemma job_posts:
  assumes "job_ok auth job"
    and q: "q = build_and_send_audit_event us (client_send lib c) h henv job p"
  shows "one_more (posted_ok lib auth) (map wq_body (wh_posts (p_net p))) (map wq_body (wh_posts (p_net q)))"
    and "p_jobs q = p_jobs p" "p_upstream q = p_upstream p"
proof -
  obtain ev where b: "build us (env_new_uuid henv (Suc (p_ticks p))) (h_builder h)
      (job_input job (env_clock henv (p_ticks p))) = Inr ev"
    and e: "q = send_best_effort (client_send lib c) henv ev
      (with_metrics (add_audit_event ''built'') (p\<lparr>p_ticks := Suc (p_ticks p)\<rparr>))"
    unfolding q using build_and_send_eq by blast
  let ?p = "with_metrics (add_audit_event ''built'') (p\<lparr>p_ticks := Suc (p_ticks p)\<rparr>)"
  have p: "p_net ?p = p_net p" "p_jobs ?p = p_jobs p" "p_upstream ?p = p_upstream p" by (simp_all add: with_metrics_def)
  note se = send_best_effort_effects [where send = "client_send lib c" and env = henv and event = ev and p = ?p,
      folded e, unfolded p]
  show "p_jobs q = p_jobs p" "p_upstream q = p_upstream p" using se by simp_all
  have ok: "posted_ok lib auth (event_payload lib (wrap ev))"
    using job_event_ok [OF assms(1) b] by (auto simp: posted_ok_def)
  obtain r w' where s: "client_send lib c (wrap ev) (p_net p) = (r, w')" by fastforce
  have "map wq_body (wh_posts w') = map wq_body (wh_posts (p_net p)) \<or>
      map wq_body (wh_posts w') = map wq_body (wh_posts (p_net p)) @ [event_payload lib (wrap ev)]"
    using s client.send_ok [of lib c "wrap ev" "p_net p" w'] client.send_failed [of lib c "wrap ev" "p_net p" _ w']
    by (cases r) auto
  then show "one_more (posted_ok lib auth) (map wq_body (wh_posts (p_net p))) (map wq_body (wh_posts (p_net q)))"
    using ok by (auto simp: one_more_def se(1) s)
qed

section \<open>The invariant\<close>

definition some_held ::
  "(('c, 'h) trust_controller \<Rightarrow> 'e request_authenticator) \<Rightarrow> ('c, 'h, 'n) system \<Rightarrow> ('e request_authenticator \<Rightarrow> 'a \<Rightarrow> bool) \<Rightarrow> 'a \<Rightarrow> bool" where
  "some_held new_dynamic y P a \<longleftrightarrow> (\<exists>c \<in> set (sy_held y). P (new_dynamic c) a)"

definition system_ok ::
  "('e, 'cert, 'pool, 'b, 'r, 'k, 'c, 'h, 'v, 'wk, 's, 'n, 'ex, 'm, 'conn) main_env \<Rightarrow>
     ('e, 'c, 'h, 'cert, 'pool, 'conn, 'm) running \<Rightarrow> ('c, 'h, 'n) system \<Rightarrow> bool" where
  "system_ok env s y \<longleftrightarrow>
     sy_controller y \<in> set (sy_held y) \<and>
     list_all (some_held (me_new_dynamic env) y (\<lambda>auth. vouched auth (fst (rn_proxy s)))) (p_upstream (sy_process y)) \<and>
     list_all (some_held (me_new_dynamic env) y job_ok) (p_jobs (sy_process y)) \<and>
     list_all (some_held (me_new_dynamic env) y (posted_ok (me_webhook env)))
       (map wq_body (wh_posts (p_net (sy_process y))))"

lemma some_held_mono: "set (sy_held y) \<subseteq> set (sy_held z) \<Longrightarrow> some_held nd y P a \<Longrightarrow> some_held nd z P a"
  by (auto simp: some_held_def)

lemma some_held_process [simp]: "some_held nd (y\<lparr>sy_process := p\<rparr>) P = some_held nd y P"
  by (simp add: some_held_def fun_eq_iff)

lemma vouched_handler_at [simp]: "vouched auth (handler_at nd c h) = vouched auth h"
  by (simp add: vouched_def handler_at_def fun_eq_iff)

lemma handler_at_identity:
  "requires_verified (h_identity h) \<Longrightarrow>
     h_identity (handler_at nd c h) = \<lparr>authenticator = Some (nd c), requires_verified = True\<rparr>"
  by (simp add: handler_at_def live_extractor_def)

lemma mux_proxy:
  "mux_handler (main_mux c p) r = Mux_Handle (Proxy_Endpoint q) \<Longrightarrow> q = p"
  by (auto simp: mux_handler_def Let_def main_mux_lookup split: if_splits option.splits)

lemma serve_posts:
  assumes "serve_http h env (fresh_client hdr) r body p = Some (served, x)"
  shows "p_net (ex_proc x) = p_net p"
  using serve_http_calm [OF assms] by (simp add: calm_def)

lemma system_step_ok:
  assumes "system_step env us s y z" and ok: "system_ok env s y" and v: "requires_verified (h_identity (fst (rn_proxy s)))"
  shows "system_ok env s z"
  using assms(1)
proof cases
  case (Adopt c)
  then show ?thesis
    using ok by (auto simp: system_ok_def list_all_iff some_held_def)
next
  case (Request r h webhook henv hdr body served x)
  have h: "h = fst (rn_proxy s)" using mux_proxy [OF Request(2)] by (metis fst_conv)
  note a = serve_adds [OF Request(3) handler_at_identity] 
  have c: "sy_controller y \<in> set (sy_held y)" using ok by (simp add: system_ok_def)
  have id: "requires_verified (h_identity h)" using v h by simp
  have "list_all (some_held (me_new_dynamic env) y (\<lambda>auth. vouched auth (fst (rn_proxy s)))) (p_upstream (ex_proc x))"
    by (rule one_more_list_all [OF a(1) [OF id]]) (use ok c h in \<open>auto simp: system_ok_def some_held_def\<close>)
  moreover have "list_all (some_held (me_new_dynamic env) y job_ok) (p_jobs (ex_proc x))"
    by (rule one_more_list_all [OF a(2) [OF id]]) (use ok c in \<open>auto simp: system_ok_def some_held_def\<close>)
  ultimately show ?thesis
    using ok serve_posts [OF Request(3)] by (simp add: Request(1) system_ok_def)
next
  case (Job js job ks h webhook henv)
  let ?p = "(sy_process y)\<lparr>p_jobs := js @ ks\<rparr>"
  let ?q = "build_and_send_audit_event us (client_send (me_webhook env) webhook) h henv job ?p"
  obtain c where c: "c \<in> set (sy_held y)" "job_ok (me_new_dynamic env c) job"
    using ok Job(2) by (auto simp: system_ok_def some_held_def)
  note j = job_posts [OF c(2), where q = ?q and us = us and lib = "me_webhook env" and c = webhook and h = h and henv = henv and p = ?p, OF refl]
  have "list_all (some_held (me_new_dynamic env) y (posted_ok (me_webhook env))) (map wq_body (wh_posts (p_net ?q)))"
    by (rule one_more_list_all [OF j(1)]) (use ok c(1) in \<open>auto simp: system_ok_def some_held_def\<close>)
  then show ?thesis
    using ok j(2,3) Job(2) by (simp add: Job(1) system_ok_def)
qed

lemma started_requires_verified:
  "started_safely env args s \<Longrightarrow> requires_verified (h_identity (fst (rn_proxy s)))"
  by (auto simp: started_safely_def split: prod.splits)

lemma system_reach_ok:
  assumes "main_startup env args = Some (Inr s)" and "system_reach env us s (new_system s os net) y"
  shows "system_ok env s y"
  using assms(2)
proof induction
  case Begin
  show ?case by (simp add: system_ok_def new_system_def some_held_def)
next
  case (Go y z)
  then show ?case
    using system_step_ok started_requires_verified [OF startup_serves [OF assms(1)]] by blast
qed

section \<open>Properties\<close>

text \<open>
  C1: nothing reaches the backend on nobody's behalf.  In every run of the program that \<open>main\<close> has started,
  with trust snapshots adopted at any time, each request sent to the backend stems from a request that came
  in through the proxy's route and that the authenticator accepted under a snapshot the controller held;
  and it is that request with exactly the authenticated user's identity applied to it.
\<close>

theorem backend_sees_only_authenticated:
  assumes "main_startup env args = Some (Inr s)" and "system_reach env us s (new_system s os net) y"
  shows "list_all (some_held (me_new_dynamic env) y (\<lambda>auth. vouched auth (fst (rn_proxy s)))) (p_upstream (sy_process y))"
  using system_reach_ok [OF assms] by (simp add: system_ok_def)

text \<open>
  C7: whatever the program posts to the webhook is one well-formed event in its list: complete, of a
  mutating request to a resource, with an object reference, with valid JSON in its objects, clean source
  addresses and no annotation but the truncation marks; and its user is one that the authenticator accepted
  for a request to the URI it names.
\<close>

theorem posted_events_well_formed:
  assumes "main_startup env args = Some (Inr s)" and "system_reach env us s (new_system s os net) y"
  shows "list_all (some_held (me_new_dynamic env) y (posted_ok (me_webhook env)))
    (map wq_body (wh_posts (p_net (sy_process y))))"
  using system_reach_ok [OF assms] by (simp add: system_ok_def)

section \<open>A run\<close>

text \<open>
  A request to create a resource comes in, is forwarded, answered and audited: at the end one request has
  reached the backend and one event the webhook.
\<close>

definition accept_all :: "(bool, string list) trust_controller \<Rightarrow> string request_authenticator" where
  "accept_all = (\<lambda>_ _. (Some (Some sample_user), True, None))"

definition run_env :: "string handler_env" where
  "run_env =
     \<lparr>env_os = \<lparr>io_fails = (\<lambda>_ _. False), short_write = (\<lambda>_. 0), short_read = (\<lambda>_. 0), random_name = (\<lambda>n. replicate n CHR ''x''),
        default_temp_dir = ''/tmp'', alloc_max = 2 ^ 21\<rparr>,
      env_clock = int, env_accepts = (\<lambda>_. 65536), env_hijackable = False, env_resolve = (\<lambda>_. Inr (Some sample_info)),
      env_new_uuid = (\<lambda>_. ''id'')\<rparr>"

definition run_request :: http_request where
  "run_request =
     \<lparr>rq_method = ''POST'', rq_url = \<lparr>scheme = '''', url_host = '''', path = ''/apis/flunders'', raw_path = '''',
        force_query = False, raw_query = ''''\<rparr>, rq_proto = ''HTTP/2.0'', rq_header = [], rq_host = ''h'',
      rq_request_uri = ''/apis/flunders'', rq_remote_addr = ''10.0.0.1:1'', rq_content_length = 2\<rparr>"

lemma run_routed: "mux_handler (main_mux c p) run_request = Mux_Handle (Proxy_Endpoint p)"
proof -
  have "escaped_path (rq_url run_request) = ''/apis/flunders''" "clean_path ''/apis/flunders'' = ''/apis/flunders''"
    "path_segments ''/apis/flunders'' = ['''', ''apis'', ''flunders'']"
    by code_simp+
  then show ?thesis by (simp add: mux_handler_def main_mux_lookup)
qed

lemma one_request:
  assumes h: "h_identity h = \<lparr>authenticator = Some (accept_all c), requires_verified = True\<rparr>"
    and t: "h_transport h = sample_backend" and m: "h_capture_max h = default_max_audit_body_size" "h_temp_dir h = ''''"
    and p: "p_upstream p = []" "p_jobs p = []" "files (p_os p) = Map.empty"
  shows "\<exists>served x job sent. serve_http h run_env (fresh_client []) run_request [(''{}'', Some EOF)] p = Some (served, x) \<and>
    p_upstream (ex_proc x) = [sent] \<and> p_jobs (ex_proc x) = [job] \<and> p_net (ex_proc x) = p_net p"
proof -
  obtain served x where s: "serve_http h run_env (fresh_client []) run_request [(''{}'', Some EOF)] p = Some (served, x)"
    and r: "routed h run_env run_request [(''{}'', Some EOF)] (arrival run_env [] run_request p) served x"
    using serve_http_routed by blast
  have route: "route_of h run_env run_request = Audit sample_user sample_info"
    by (simp add: route_of_def h accept_all_def run_env_def from_request_def requires_verified_headers_def
        should_audit_def sample_info_def sample_user_def)
  have "\<not> trouble h run_env (files (p_os p))"
    by (auto simp: trouble_def run_env_def free_names_def p m default_max_audit_body_size_def
        intro!: injI dest: arg_cong [of _ _ length])
  then have "\<exists>sent job. xups x = [sent] \<and> xjobs x = [job]"
    using r p by (auto simp: routed_def route audited_outcome_def Let_def arrival_def time_now_def t sample_backend_def
        response_outcome_def finished_with_def split: if_splits)
  then show ?thesis using s serve_posts [OF s] by blast
qed

lemma sample_run_posts:
  "\<exists>s y. main_startup (sample_main_env accept_all) sample_args = Some (Inr s) \<and>
     system_reach (sample_main_env accept_all) (\<lambda>_. None) s (new_system s empty_os ()) y \<and>
     length (p_upstream (sy_process y)) = 1 \<and> length (wh_posts (p_net (sy_process y))) = 1"
proof -
  let ?env = "sample_main_env accept_all"
  obtain s c0 hook where s: "main_startup ?env sample_args = Some (Inr s)"
    and pr: "rn_proxy s = (\<lparr>h_backend_url = \<lparr>scheme = ''https'', url_host = ''b'', path = '''', raw_path = '''',
        force_query = False, raw_query = ''''\<rparr>,
      h_identity = \<lparr>authenticator = Some (accept_all c0), requires_verified = True\<rparr>, h_transport = sample_backend,
      h_backend_identity = Request_Header_Forwarder, h_builder = new_builder default_max_audit_body_size,
      h_temp_dir = '''', h_capture_max = default_max_audit_body_size\<rparr>, hook)" (is "_ = (?base, _)")
    using sample_serves [of accept_all] by blast
  let ?y0 = "new_system s empty_os ()"
  let ?h = "handler_at (me_new_dynamic ?env) (sy_controller ?y0) ?base"
  have id: "h_identity ?h = \<lparr>authenticator = Some (accept_all (sy_controller ?y0)), requires_verified = True\<rparr>"
    by (subst handler_at_identity) (simp_all add: sample_main_env_def)
  obtain served x job sent where x: "serve_http ?h run_env (fresh_client []) run_request [(''{}'', Some EOF)] (sy_process ?y0) =
      Some (served, x)" "p_upstream (ex_proc x) = [sent]" "p_jobs (ex_proc x) = [job]" "p_net (ex_proc x) = p_net (sy_process ?y0)"
    using one_request [OF id, of "sy_process ?y0"] by (auto simp: handler_at_def new_system_def empty_os_def)
  let ?y1 = "?y0\<lparr>sy_process := ex_proc x\<rparr>"
  have y1: "system_reach ?env (\<lambda>_. None) s ?y0 ?y1"
  proof (rule system_reach.Go [OF system_reach.Begin system_step.Request [OF _ x(1)]])
    show "mux_handler (main_mux (sy_controller ?y0) (rn_proxy s)) run_request = Mux_Handle (Proxy_Endpoint (?base, hook))"
      using run_routed pr by simp
  qed
  let ?q = "build_and_send_audit_event (\<lambda>_. None) (client_send (me_webhook ?env) hook) ?base run_env job ((ex_proc x)\<lparr>p_jobs := []\<rparr>)"
  let ?y2 = "?y1\<lparr>sy_process := ?q\<rparr>"
  have y2: "system_reach ?env (\<lambda>_. None) s ?y0 ?y2"
    using system_reach.Go [OF y1 system_step.Job [of ?y1 "[]" job "[]" s ?base hook ?env "\<lambda>_. None" run_env]] x(3) pr by simp
  obtain ev where q: "?q = send_best_effort (client_send (me_webhook ?env) hook) run_env ev
      (with_metrics (add_audit_event ''built'') ((ex_proc x)\<lparr>p_jobs := [], p_ticks := Suc (p_ticks (ex_proc x))\<rparr>))"
    using build_and_send_eq [of "\<lambda>_. None" run_env "(ex_proc x)\<lparr>p_jobs := []\<rparr>" ?base job "client_send (me_webhook ?env) hook"]
    by auto
  have "wh_posts (p_net (sy_process ?y0)) = []" by (simp add: new_system_def)
  then have "length (wh_posts (p_net ?q)) = 1" "p_upstream ?q = [sent]"
    unfolding q send_best_effort_effects(1,4)
    by (simp_all add: with_metrics_def x client_send_def sample_main_env_def Let_def)
  with s y2 show ?thesis by (intro exI [of _ s] exI [of _ ?y2]) simp
qed

lemma backend_sees_only_authenticated_witness:
  "\<exists>s y. length (p_upstream (sy_process (y :: (bool, string list, unit) system))) = 1 \<and>
     list_all (some_held accept_all y (\<lambda>auth. vouched auth (fst (rn_proxy
        (s :: (string, bool, string list, unit, unit, unit, unit) running))))) (p_upstream (sy_process y))"
proof -
  obtain s y where m: "main_startup (sample_main_env accept_all) sample_args = Some (Inr s)"
    and r: "system_reach (sample_main_env accept_all) (\<lambda>_. None) s (new_system s empty_os ()) y"
    and n: "length (p_upstream (sy_process y)) = 1"
    using sample_run_posts by blast
  have "me_new_dynamic (sample_main_env accept_all) = accept_all" by (simp add: sample_main_env_def)
  with backend_sees_only_authenticated [OF m r] n show ?thesis by metis
qed

lemma posted_events_well_formed_witness:
  "\<exists>payload auth. posted_ok (me_webhook (sample_main_env accept_all)) auth payload"
proof -
  obtain s y where m: "main_startup (sample_main_env accept_all) sample_args = Some (Inr s)"
    and r: "system_reach (sample_main_env accept_all) (\<lambda>_. None) s (new_system s empty_os ()) y"
    and n: "length (wh_posts (p_net (sy_process y))) = 1"
    using sample_run_posts by blast
  from n obtain post where "wh_posts (p_net (sy_process y)) = [post]" by (auto simp: length_Suc_conv)
  with posted_events_well_formed [OF m r] show ?thesis by (auto simp: some_held_def)
qed

end
