(* ===== verification/Server_Shutdown.thy ===== *)
theory Server_Shutdown
  imports Server_Startup
begin

text \<open>
  \<open>cmd/server/main.go\<close>, part three: the two listeners while they run and the end of the process.  The steps
  of the process are those of the goroutines of \<open>main\<close>, in any order.
\<close>

section \<open>The metrics server\<close>

text \<open>\<open>runMetricsServer\<close>: its one route, and its log lines for the error with which listening ends.\<close>

definition metrics_mux :: "'m \<Rightarrow> (string \<times> 'm) list" where
  "metrics_mux prometheus_handler = [(''/metrics'', prometheus_handler)]"

text \<open>What \<open>main\<close> does with the error of \<open>serve\<close>: the exit code and the log lines.\<close>

datatype serve_error = Server_Closed | Serve_Error string

definition main_finish :: "serve_error option \<Rightarrow> int \<times> log_lines" where
  "main_finish err =
     (case err of Some (Serve_Error e) \<Rightarrow> (1, [(Log_Error, ''server exited with error'')]) | _ \<Rightarrow> (0, []))"

lemma main_finish_code [simp]: "fst (main_finish (Some Server_Closed)) = 0" "fst (main_finish (Some (Serve_Error e))) = 1"
  by (simp_all add: main_finish_def)

definition run_metrics_server :: "serve_error option \<Rightarrow> log_lines" where
  "run_metrics_server err =
     [(Log_Info, ''metrics server listening'')] @
     (case err of Some (Serve_Error e) \<Rightarrow> [(Log_Error, ''metrics server exited with error'')] | _ \<Rightarrow> [])"

lemma metrics_mux_lookup:
  "mux_lookup (metrics_mux f) p = (if path_segments p = ['''', ''metrics''] \<and> p \<noteq> '''' then Some f else None)"
proof -
  have "split_on CHR ''/'' ''/metrics'' = ['''', ''metrics'']" by code_simp
  then show ?thesis by (auto simp: mux_lookup_def metrics_mux_def pattern_matches_def)
qed

section \<open>Serving and shutting down\<close>

text \<open>
  The process from its call of \<open>serve\<close> on: requests whose handler runs, audit jobs that run in the
  background, whether the signal context is done, whether the shutdown goroutine has called
  \<open>server.Shutdown\<close>, and the exit code once the process is gone.  As \<open>net/http\<close> documents, \<open>Shutdown\<close>
  closes the listener and makes \<open>Serve\<close> return \<open>ErrServerClosed\<close> at once, while it goes on waiting for the
  running requests itself, up to \<open>default_shutdown_timeout\<close>.  Requests and jobs are only counted here: what each
  of them does is in \<open>Proxy_Handler\<close> and \<open>Audit_Pipeline\<close>.  Two things are left out because neither ends the
  process with code 0: the goroutine of \<open>runMetricsServer\<close>, which logs and returns, and a second signal, which
  kills the process once \<open>stop\<close> has restored the default action.
\<close>

record server_process =
  sv_running :: nat
  sv_pending :: nat
  sv_signalled :: bool
  sv_shutdown :: bool
  sv_exit :: "int option"

definition new_server_process :: server_process where
  "new_server_process = \<lparr>sv_running = 0, sv_pending = 0, sv_signalled = False, sv_shutdown = False, sv_exit = None\<rparr>"

inductive serve_step :: "server_process \<Rightarrow> server_process \<Rightarrow> bool" where
  Accept: "sv_exit s = None \<Longrightarrow> \<not> sv_shutdown s \<Longrightarrow> serve_step s (s\<lparr>sv_running := Suc (sv_running s)\<rparr>)"
| Answer: "sv_exit s = None \<Longrightarrow> sv_running s = Suc n \<Longrightarrow> serve_step s (s\<lparr>sv_running := n\<rparr>)"
| Start_Job: "sv_exit s = None \<Longrightarrow> 0 < sv_running s \<Longrightarrow> serve_step s (s\<lparr>sv_pending := Suc (sv_pending s)\<rparr>)"
| Finish_Job: "sv_exit s = None \<Longrightarrow> sv_pending s = Suc n \<Longrightarrow> serve_step s (s\<lparr>sv_pending := n\<rparr>)"
| Signal: "sv_exit s = None \<Longrightarrow> serve_step s (s\<lparr>sv_signalled := True\<rparr>)"
| Call_Shutdown: "sv_exit s = None \<Longrightarrow> sv_signalled s \<Longrightarrow> serve_step s (s\<lparr>sv_shutdown := True\<rparr>)"
| Serve_Closed: "sv_exit s = None \<Longrightarrow> sv_shutdown s \<Longrightarrow> serve_step s (s\<lparr>sv_exit := Some (fst (main_finish (Some Server_Closed)))\<rparr>)"
| Serve_Fails: "sv_exit s = None \<Longrightarrow> \<not> sv_shutdown s \<Longrightarrow> serve_step s (s\<lparr>sv_exit := Some (fst (main_finish (Some (Serve_Error e))))\<rparr>)"

inductive_cases serve_stepE: "serve_step s s'"

inductive serve_reach :: "server_process \<Rightarrow> bool" where
  Serving: "serve_reach new_server_process"
| Served: "serve_reach s \<Longrightarrow> serve_step s s' \<Longrightarrow> serve_reach s'"

text \<open>A clean exit follows a signal and the call of \<open>Shutdown\<close>.\<close>

definition exit_ok :: "server_process \<Rightarrow> bool" where
  "exit_ok s \<longleftrightarrow>
     (sv_shutdown s \<longrightarrow> sv_signalled s) \<and> (sv_exit s = Some 0 \<longrightarrow> sv_shutdown s) \<and> sv_exit s \<in> {None, Some 0, Some 1}"

lemma serve_step_ok: "serve_step s s' \<Longrightarrow> exit_ok s \<Longrightarrow> exit_ok s'"
  by (erule serve_stepE) (auto simp: exit_ok_def)

lemma reach_ok: "serve_reach s \<Longrightarrow> exit_ok s"
proof (induction rule: serve_reach.induct)
  case Serving
  show ?case by (simp add: new_server_process_def exit_ok_def)
qed (rule serve_step_ok)

text \<open>After \<open>Shutdown\<close> no request is accepted.\<close>

lemma shutdown_accepts_nothing:
  "serve_step s s' \<Longrightarrow> sv_shutdown s \<Longrightarrow> sv_shutdown s' \<and> sv_running s' \<le> sv_running s"
  by (erule serve_stepE) auto

lemma busy_reachable:
  "serve_reach (new_server_process\<lparr>sv_running := Suc a, sv_pending := b\<rparr>)"
proof (induction b)
  case 0
  show ?case
  proof (induction a)
    case 0
    show ?case using Served [OF Serving Accept] by (simp add: new_server_process_def)
  next
    case (Suc a)
    show ?case using Served [OF Suc Accept] by (simp add: new_server_process_def)
  qed
next
  case (Suc b)
  show ?case using Served [OF Suc Start_Job] by (simp add: new_server_process_def)
qed

lemma exit_reachable:
  assumes "serve_reach s" and "sv_exit s = None"
  shows "serve_reach (s\<lparr>sv_signalled := True, sv_shutdown := True, sv_exit := Some 0\<rparr>)"
proof -
  have "serve_reach (s\<lparr>sv_signalled := True\<rparr>)" using assms by (blast intro: Served Signal)
  from Served [OF this Call_Shutdown] have "serve_reach (s\<lparr>sv_signalled := True, sv_shutdown := True\<rparr>)"
    using assms by simp
  from Served [OF this Serve_Closed] show ?thesis using assms by simp
qed

text \<open>
  C14: how the process ends.  It exits cleanly only after a signal and with the listener closed, and then
  accepts nothing more; but \<open>main\<close> returns as soon as \<open>Serve\<close> does and never waits for \<open>Shutdown\<close>, so a
  clean exit can abandon any number of running requests and of pending audit jobs.
\<close>

theorem shutdown_abandons_work:
  "{s. serve_reach s \<and> sv_exit s = Some 0} \<subseteq> {s. sv_signalled s \<and> sv_shutdown s} \<and>
   (\<exists>s. serve_reach s \<and> sv_exit s = Some 0 \<and> sv_running s = a \<and> sv_pending s = b)"
proof (intro conjI subsetI)
  show "s \<in> {s. sv_signalled s \<and> sv_shutdown s}" if "s \<in> {s. serve_reach s \<and> sv_exit s = Some 0}" for s
    using that reach_ok [of s] by (simp add: exit_ok_def)
  have idle: "serve_reach (new_server_process\<lparr>sv_running := a, sv_pending := b\<rparr>)"
  proof (cases a)
    case 0
    show ?thesis
      using Served [OF busy_reachable [of b 0] Answer [of "new_server_process\<lparr>sv_running := Suc 0, sv_pending := b\<rparr>" 0]] 0
      by (simp add: new_server_process_def)
  next
    case (Suc n)
    then show ?thesis using busy_reachable by simp
  qed
  show "\<exists>s. serve_reach s \<and> sv_exit s = Some 0 \<and> sv_running s = a \<and> sv_pending s = b"
    using exit_reachable [OF idle] by (force simp: new_server_process_def)
qed

end
