(* ===== verification/Stream_Flush.thy ===== *)
theory Stream_Flush
  imports Response_Copy
begin

text \<open>
  Flushing on the passthrough path: \<open>metricResponseWriter.Flush\<close> and the \<open>FlushInterval\<close> that \<open>NewHandler\<close>
  gives the reverse proxy.  The copy loop of \<open>Response_Copy\<close> is refined by one that also keeps what the
  backend has delivered and what has left for the client.  The body is an arbitrary reader, which may
  deliver chunks for ever, as that of a watch does.
\<close>

record 'r stream =
  sm_body :: 'r
  sm_writer :: metric_writer
  sm_log :: metric_log
  sm_delivered :: bytes
  sm_seen :: bytes

definition passthrough_flush_interval :: int where
  "passthrough_flush_interval = -1"

text \<open>\<open>Flush\<close> reaches the underlying writer when that can flush: what it has accepted leaves for the client.\<close>

definition flush_response :: "bool \<Rightarrow> 'r stream \<Rightarrow> 'r stream" where
  "flush_response flusher st = (if flusher then st\<lparr>sm_seen := cw_body (mw_writer (sm_writer st))\<rparr> else st)"

text \<open>\<open>Unwrap\<close>: what \<open>http.ResponseController\<close> looks at for what the wrapper does not offer.\<close>

definition unwrap_writer :: "metric_writer \<Rightarrow> client_writer" where
  "unwrap_writer w = mw_writer w"

text \<open>The reverse proxy's writer: with a negative interval every write is followed by a flush.\<close>

definition flushing_write ::
  "int \<Rightarrow> bool \<Rightarrow> (nat \<Rightarrow> nat) \<Rightarrow> request_metric_state \<Rightarrow> bytes \<Rightarrow> 'r stream \<Rightarrow> bool \<times> 'r stream" where
  "flushing_write interval flusher accepts s p st =
     (case write_body accepts s p (sm_writer st, sm_log st) of
        (failed, w, log) \<Rightarrow>
          (let st = st\<lparr>sm_writer := w, sm_log := log\<rparr>
           in (failed, if interval < 0 then flush_response flusher st else st)))"

text \<open>One round of the loop: a read, and a write of what it delivered.\<close>

definition stream_step ::
  "int \<Rightarrow> bool \<Rightarrow> 'r read_fn \<Rightarrow> (nat \<Rightarrow> nat) \<Rightarrow> request_metric_state \<Rightarrow> 'r stream \<Rightarrow> (copy_result \<times> 'r stream) + 'r stream" where
  "stream_step interval flusher rd accepts s st =
     (case rd (sm_body st) copy_buffer_size of (chunk, read_err, r') \<Rightarrow>
        (let st = st\<lparr>sm_body := r', sm_delivered := sm_delivered st @ chunk\<rparr>
         in case (if 0 < length chunk then flushing_write interval flusher accepts s chunk st else (False, st)) of
              (failed, st) \<Rightarrow>
                if failed then Inl (Copy_Write_Error, st)
                else case read_err of
                       Some EOF \<Rightarrow> Inl (Copied, st)
                     | Some Read_Failed \<Rightarrow> Inl (Copy_Read_Error, st)
                     | None \<Rightarrow> Inr st))"

definition stream_start :: "'r \<Rightarrow> metric_writer \<Rightarrow> metric_log \<Rightarrow> 'r stream" where
  "stream_start r w log =
     \<lparr>sm_body = r, sm_writer = w, sm_log = log, sm_delivered = cw_body (mw_writer w), sm_seen = cw_body (mw_writer w)\<rparr>"

inductive stream_reach ::
  "int \<Rightarrow> bool \<Rightarrow> 'r read_fn \<Rightarrow> (nat \<Rightarrow> nat) \<Rightarrow> request_metric_state \<Rightarrow> 'r stream \<Rightarrow> 'r stream \<Rightarrow> bool"
  for interval flusher rd accepts s st0
where
  Begun: "stream_reach interval flusher rd accepts s st0 st0"
| Stepped: "stream_reach interval flusher rd accepts s st0 st \<Longrightarrow> stream_step interval flusher rd accepts s st = Inr st' \<Longrightarrow>
     stream_reach interval flusher rd accepts s st0 st'"

section \<open>The flushes do not change the copy\<close>

definition erase_stream :: "'r stream \<Rightarrow> 'r \<times> metric_writer \<times> metric_log" where
  "erase_stream st = (sm_body st, sm_writer st, sm_log st)"

lemma stream_step_refines:
  "copy_step rd accepts s (sm_body st) (sm_writer st, sm_log st) =
     map_sum (\<lambda>(res, st). (res, erase_stream st)) erase_stream (stream_step interval flusher rd accepts s st)"
  by (simp add: copy_step_def stream_step_def flushing_write_def flush_response_def erase_stream_def Let_def
      split: prod.split option.split read_err.split)

lemma copy_loop_unfold_stream:
  "copy_loop rd accepts s (sm_body st) (sm_writer st, sm_log st) =
     (case stream_step interval flusher rd accepts s st of
        Inl (res, st) \<Rightarrow> Some (res, erase_stream st)
      | Inr st \<Rightarrow> copy_loop rd accepts s (sm_body st) (sm_writer st, sm_log st))"
  by (subst copy_loop.simps, subst stream_step_refines [of rd accepts s st interval flusher])
    (auto simp: erase_stream_def split: sum.split)

section \<open>What the client has seen\<close>

definition prompt :: "'r stream \<Rightarrow> bool" where
  "prompt st \<longleftrightarrow> header_written (sm_writer st) \<and>
     cw_body (mw_writer (sm_writer st)) = sm_delivered st \<and> sm_seen st = sm_delivered st"

lemma flushing_write_prompt:
  assumes "prompt st" and "interval < 0"
    and "flushing_write interval True accepts s c (st\<lparr>sm_body := r, sm_delivered := sm_delivered st @ c\<rparr>) = (False, st')"
  shows "prompt st'"
proof -
  have "header_written (sm_writer st)" using assms(1) by (simp add: prompt_def)
  from write_body_written [OF this, of accepts s c "sm_log st"] obtain n log' where
    "write_body accepts s c (sm_writer st, sm_log st) = (n < length c, add_body (take n c) (sm_writer st), log')" "n \<le> length c"
    by metis
  then show ?thesis
    using assms by (auto simp: prompt_def flushing_write_def flush_response_def Let_def)
qed

lemma stream_step_prompt:
  assumes "prompt st" and "interval < 0"
  shows "case stream_step interval True rd accepts s st of
      Inl (res, st') \<Rightarrow> res = Copy_Write_Error \<or> prompt st'
    | Inr st' \<Rightarrow> prompt st'"
proof -
  obtain c e r where rd: "rd (sm_body st) copy_buffer_size = (c, e, r)" by (metis prod_cases3)
  let ?st = "st\<lparr>sm_body := r, sm_delivered := sm_delivered st @ c\<rparr>"
  show ?thesis
  proof (cases "c = []")
    case True
    then have "prompt ?st" using assms(1) by (simp add: prompt_def)
    then show ?thesis using True rd by (auto simp: stream_step_def Let_def split: option.split read_err.split)
  next
    case False
    then show ?thesis
      using rd flushing_write_prompt [OF assms, of accepts s c r]
      by (auto simp: stream_step_def Let_def split: prod.split option.split read_err.split)
  qed
qed

text \<open>
  C11: a watch is not held up.  Whenever the passthrough copy is about to wait for the next chunk, the client
  has been sent every byte that the backend has delivered so far, for any number of chunks; the same holds
  when the body ends, and only a failed write to the client ends the copy earlier.
\<close>

theorem passthrough_flushes_immediately:
  assumes "header_written w"
    and "stream_reach passthrough_flush_interval True rd accepts s (stream_start r w log) st"
  shows "sm_seen st = sm_delivered st \<and>
    (case stream_step passthrough_flush_interval True rd accepts s st of
       Inl (res, st') \<Rightarrow> res = Copy_Write_Error \<or> sm_seen st' = sm_delivered st'
     | Inr st' \<Rightarrow> sm_seen st' = sm_delivered st')"
proof -
  have neg: "passthrough_flush_interval < 0" by (simp add: passthrough_flush_interval_def)
  from assms(2) have "prompt st"
  proof (induction rule: stream_reach.induct)
    case Begun
    show ?case using assms(1) by (simp add: prompt_def stream_start_def)
  next
    case (Stepped st st')
    then show ?case using stream_step_prompt [OF Stepped.IH neg, of rd accepts s] by simp
  qed
  with stream_step_prompt [OF this neg, of rd accepts s] show ?thesis
    by (auto simp: prompt_def split: sum.splits)
qed

text \<open>An endless watch that delivers the same event at each read, after its first event.\<close>

definition endless_watch :: "nat read_fn" where
  "endless_watch n _ = (''event'', None, Suc n)"

definition sample_writer :: metric_writer where
  "sample_writer =
     \<lparr>mw_writer = \<lparr>cw_header = [], cw_informational = [], cw_status = Some 200, cw_sent_header = [], cw_body = ''''\<rparr>,
      mw_status_code = 200\<rparr>"

lemma passthrough_flushes_immediately_witness:
  "\<forall>s. \<exists>st. stream_reach passthrough_flush_interval True endless_watch (\<lambda>_. 4096) s
      (stream_start 0 sample_writer []) st \<and> sm_delivered st = ''event'' \<and> sm_seen st = ''event''"
proof
  fix s
  let ?st0 = "stream_start 0 sample_writer []"
  have w: "header_written sample_writer" by (simp add: header_written_def sample_writer_def)
  obtain st where st: "stream_step passthrough_flush_interval True endless_watch (\<lambda>_. 4096) s ?st0 = Inr st"
    and d: "sm_delivered st = ''event''"
    by (simp add: stream_step_def endless_watch_def stream_start_def flushing_write_def write_body_def cw_write_def
        cw_write_header_def sample_writer_def Let_def flush_response_def)
  have "stream_reach passthrough_flush_interval True endless_watch (\<lambda>_. 4096) s ?st0 st"
    by (rule stream_reach.Stepped [OF stream_reach.Begun st])
  with passthrough_flushes_immediately [OF w this] d show "\<exists>st. stream_reach passthrough_flush_interval True endless_watch (\<lambda>_. 4096) s ?st0 st \<and>
      sm_delivered st = ''event'' \<and> sm_seen st = ''event''" by metis
qed

end
