(* ===== verification/Concurrent_Spools.thy ===== *)
theory Concurrent_Spools
  imports Body_Spool
begin

text \<open>
  Many requests spool their bodies at the same time into one directory.  Here the operations of
  \<open>spoolBody\<close> and \<open>Cleanup\<close> are steps of tasks (one per goroutine) on the shared file system, interleaved
  in any order; a task running alone does what \<open>spool_body\<close> does.  A step is one operation: creating the file
  with the retries of \<open>os.CreateTemp\<close>, one turn of the copy loop with its read and its write, and closing the
  file with the removal that follows a failed close.  \<open>os.CreateTemp\<close> creates exclusively, and that alone
  keeps the tasks apart.
\<close>

section \<open>Tasks\<close>

text \<open>
  A task is in the copy loop, about to close its file, done with a spooled body, failed, or has cleaned up.
\<close>

datatype 'r task =
    Copying 'r spooled_body
  | Closing 'r spooled_body
  | Ready spooled_body
  | Failed spool_error
  | Cleaned_Up

fun task_path :: "'r task \<Rightarrow> string option" where
  "task_path (Copying r res) = Some (sp_path res)"
| "task_path (Closing r res) = Some (sp_path res)"
| "task_path (Ready res) = Some (sp_path res)"
| "task_path _ = None"

record 'r spools =
  cs_os :: os_state
  cs_task :: "nat \<rightharpoonup> 'r task"
  cs_body :: "nat \<Rightarrow> 'r"

definition set_task :: "nat \<Rightarrow> 'r task \<Rightarrow> os_state \<Rightarrow> 'r spools \<Rightarrow> 'r spools" where
  "set_task i t s y = y\<lparr>cs_os := s, cs_task := (cs_task y)(i \<mapsto> t)\<rparr>"

lemma set_task_sel [simp]:
  "cs_os (set_task i t s y) = s" "cs_task (set_task i t s y) j = (if j = i then Some t else cs_task y j)"
  "cs_body (set_task i t s y) = cs_body y"
  by (simp_all add: set_task_def)

definition start_task :: "os_env \<Rightarrow> int64 \<Rightarrow> 'r \<Rightarrow> os_error + string \<Rightarrow> 'r task" where
  "start_task env m r created =
     (case created of
        Inl e \<Rightarrow> Failed (Create_Temp_Error e)
      | Inr p \<Rightarrow>
          if int (alloc_max env) < buffer_capacity m then Failed Makeslice_Panic
          else Copying r \<lparr>sp_path = p, captured = [], sp_size = 0, truncated = False\<rparr>)"

definition after_loop :: "(spool_error + spooled_body) \<times> 'r \<times> os_state \<Rightarrow> 'r task" where
  "after_loop fin = (case fin of (Inl e, _, _) \<Rightarrow> Failed e | (Inr res, r, _) \<Rightarrow> Closing r res)"

text \<open>A failed \<open>Close\<close> is followed by the removal of the file.\<close>

definition close_task :: "os_env \<Rightarrow> int64 \<Rightarrow> spooled_body \<Rightarrow> os_state \<Rightarrow> 'r task \<times> os_state" where
  "close_task env m res s =
     (case close_file env s of
        (Inl e, s) \<Rightarrow> (Failed (Close_Temp_Error e), snd (remove_file env (sp_path res) s))
      | (Inr _, s) \<Rightarrow> (Ready (res\<lparr>truncated := sint m < sint (sp_size res)\<rparr>), s))"

inductive spools_step :: "os_env \<Rightarrow> string \<Rightarrow> int64 \<Rightarrow> 'r read_fn \<Rightarrow> 'r spools \<Rightarrow> 'r spools \<Rightarrow> bool"
  for env dir m rd where
  Create: "cs_task y i = None \<Longrightarrow> create_temp env dir ''audit-pass-through-body-'' (cs_os y) = (created, s) \<Longrightarrow>
     spools_step env dir m rd y (set_task i (start_task env m r created) s (y\<lparr>cs_body := (cs_body y)(i := r)\<rparr>))"
| Copy: "cs_task y i = Some (Copying r res) \<Longrightarrow> spool_step rd env m r res (cs_os y) = Inr (r', res', s) \<Longrightarrow>
     spools_step env dir m rd y (set_task i (Copying r' res') s y)"
| Leave: "cs_task y i = Some (Copying r res) \<Longrightarrow> spool_step rd env m r res (cs_os y) = Inl fin \<Longrightarrow>
     spools_step env dir m rd y (set_task i (after_loop fin) (snd (snd fin)) y)"
| Close: "cs_task y i = Some (Closing r res) \<Longrightarrow> close_task env m res (cs_os y) = (t, s) \<Longrightarrow>
     spools_step env dir m rd y (set_task i t s y)"
| Reopen: "cs_task y i = Some (Ready res) \<Longrightarrow> spooled_open env res (cs_os y) = (out, s) \<Longrightarrow>
     spools_step env dir m rd y (set_task i (Ready res) s y)"
| Clean: "cs_task y i = Some (Ready res) \<Longrightarrow> spooled_cleanup env (Some res) (cs_os y) = (out, s) \<Longrightarrow>
     spools_step env dir m rd y (set_task i Cleaned_Up s y)"

inductive spools_reach :: "os_env \<Rightarrow> string \<Rightarrow> int64 \<Rightarrow> 'r read_fn \<Rightarrow> 'r spools \<Rightarrow> 'r spools \<Rightarrow> bool"
  for env dir m rd y0 where
  At_Start: "spools_reach env dir m rd y0 y0"
| Step: "spools_reach env dir m rd y0 y \<Longrightarrow> spools_step env dir m rd y z \<Longrightarrow> spools_reach env dir m rd y0 z"

lemma spools_reach_trans: "spools_reach env dir m rd y z \<Longrightarrow> spools_reach env dir m rd x y \<Longrightarrow> spools_reach env dir m rd x z"
  by (induction rule: spools_reach.induct) (auto intro: spools_reach.Step)

section \<open>A task alone\<close>

lemma loop_alone:
  assumes "spool_loop rd env m r res s = Some (out, r', s')" and "cs_task y i = Some (Copying r res)" "cs_os y = s"
  shows "\<exists>z. spools_reach env dir m rd y z \<and> cs_os z = s' \<and> cs_task z i = Some (after_loop (out, r', s'))"
proof -
  have "\<forall>y. cs_task y i = Some (Copying r res) \<longrightarrow> cs_os y = s \<longrightarrow>
      (\<exists>z. spools_reach env dir m rd y z \<and> cs_os z = snd (snd w) \<and> cs_task z i = Some (after_loop w))"
    if "spool_loop rd env m r res s = Some w" for w
  proof (rule spool_loop.raw_induct [of "\<lambda>rd env m r res s w. \<forall>y. cs_task y i = Some (Copying r res) \<longrightarrow> cs_os y = s \<longrightarrow>
      (\<exists>z. spools_reach env dir m rd y z \<and> cs_os z = snd (snd w) \<and> cs_task z i = Some (after_loop w))", OF _ that])
    fix f rd env m r res s and w :: "(spool_error + spooled_body) \<times> 'a \<times> os_state"
    assume ih: "\<And>rd env m r res s w. f rd env m r res s = Some w \<Longrightarrow>
        \<forall>y. cs_task y i = Some (Copying r res) \<longrightarrow> cs_os y = s \<longrightarrow>
          (\<exists>z. spools_reach env dir m rd y z \<and> cs_os z = snd (snd w) \<and> cs_task z i = Some (after_loop w))"
      and w: "(case spool_step rd env m r res s of
          Inl finished \<Rightarrow> Some finished
        | Inr next \<Rightarrow> f rd env m (fst next) (fst (snd next)) (snd (snd next))) = Some w"
    show "\<forall>y. cs_task y i = Some (Copying r res) \<longrightarrow> cs_os y = s \<longrightarrow>
        (\<exists>z. spools_reach env dir m rd y z \<and> cs_os z = snd (snd w) \<and> cs_task z i = Some (after_loop w))"
    proof (intro allI impI)
      fix y :: "'a spools"
      assume y: "cs_task y i = Some (Copying r res)" "cs_os y = s"
      show "\<exists>z. spools_reach env dir m rd y z \<and> cs_os z = snd (snd w) \<and> cs_task z i = Some (after_loop w)"
      proof (cases "spool_step rd env m r res s")
        case (Inl fin)
        then have "w = fin" using w by simp
        with spools_step.Leave [OF y(1), of rd env m fin dir] Inl y(2) show ?thesis
          by (intro exI [of _ "set_task i (after_loop fin) (snd (snd fin)) y"])
            (auto intro: spools_reach.intros)
      next
        case (Inr nx)
        obtain r1 res1 s1 where nx: "nx = (r1, res1, s1)" by (cases nx)
        let ?y1 = "set_task i (Copying r1 res1) s1 y"
        have "spools_reach env dir m rd y ?y1"
          using spools_step.Copy [OF y(1), of rd env m r1 res1 s1 dir] Inr nx y(2) by (auto intro: spools_reach.intros)
        moreover obtain z where "spools_reach env dir m rd ?y1 z" "cs_os z = snd (snd w)" "cs_task z i = Some (after_loop w)"
          using ih [of rd env m r1 res1 s1 w, rule_format, of ?y1] w Inr nx by auto
        ultimately show ?thesis using spools_reach_trans by blast
      qed
    qed
  qed
  from this [OF assms(1)] assms(2,3) show ?thesis by simp
qed

lemma spool_step_path:
  "case spool_step rd env m r res s of
     Inr (r', res', s') \<Rightarrow> sp_path res' = sp_path res
   | Inl (Inr res', r', s') \<Rightarrow> sp_path res' = sp_path res
   | Inl (Inl e, r', s') \<Rightarrow> True"
  by (auto simp: spool_step_def capture_chunk_def Let_def split: prod.split sum.split option.split read_err.split)

lemma loop_path:
  assumes "spool_loop rd env m r res s = Some (Inr res', r', s')"
  shows "sp_path res' = sp_path res"
proof -
  have "case fst w of Inr res' \<Rightarrow> sp_path res' = sp_path res | Inl e \<Rightarrow> True" if "spool_loop rd env m r res s = Some w" for w
  proof (rule spool_loop.raw_induct [of "\<lambda>rd env m r res s w. case fst w of Inr res' \<Rightarrow> sp_path res' = sp_path res | Inl e \<Rightarrow> True", OF _ that])
    fix f rd env m r res s and w :: "(spool_error + spooled_body) \<times> 'a \<times> os_state"
    assume ih: "\<And>rd env m r res s w. f rd env m r res s = Some w \<Longrightarrow>
        case fst w of Inr res' \<Rightarrow> sp_path res' = sp_path res | Inl e \<Rightarrow> True"
      and w: "(case spool_step rd env m r res s of
          Inl finished \<Rightarrow> Some finished
        | Inr next \<Rightarrow> f rd env m (fst next) (fst (snd next)) (snd (snd next))) = Some w"
    show "case fst w of Inr res' \<Rightarrow> sp_path res' = sp_path res | Inl e \<Rightarrow> True"
    proof (cases "spool_step rd env m r res s")
      case (Inl fin)
      then show ?thesis
        using w spool_step_path [where rd = rd and env = env and m = m and r = r and res = res and s = s]
        by (auto split: sum.splits)
    next
      case (Inr nx)
      then have "f rd env m (fst nx) (fst (snd nx)) (snd (snd nx)) = Some w" using w by simp
      from ih [OF this] show ?thesis
        using Inr spool_step_path [where rd = rd and env = env and m = m and r = r and res = res and s = s]
        by (auto split: sum.splits)
    qed
  qed
  from this [OF assms] show ?thesis by simp
qed

lemma spool_body_alone:
  fixes r :: 'r
  assumes b: "spool_body rd cl nb env (Some r) dir m (cs_os y) = Some (out, r', s')" and i: "cs_task y i = None"
  shows "\<exists>z. spools_reach env dir m rd y z \<and> cs_os z = s' \<and>
    cs_task z i = Some (case out of Inl e \<Rightarrow> Failed e | Inr res \<Rightarrow> Ready res)"
proof -
  obtain c s1 where c: "create_temp env dir ''audit-pass-through-body-'' (cs_os y) = (c, s1)" by fastforce
  let ?y1 = "set_task i (start_task env m r c) s1 (y\<lparr>cs_body := (cs_body y)(i := r)\<rparr>)"
  have y1: "spools_reach env dir m rd y ?y1" by (rule spools_reach.Step [OF spools_reach.At_Start spools_step.Create [OF i c]])
  show ?thesis
  proof (cases "\<exists>p. c = Inr p \<and> \<not> int (alloc_max env) < buffer_capacity m")
    case False
    then show ?thesis
      using b c y1 by (intro exI [of _ ?y1]) (auto simp: start_task_def spool_body_def split: sum.splits if_splits)
  next
    case True
    then obtain p where p: "c = Inr p" and a: "\<not> int (alloc_max env) < buffer_capacity m" by auto
    let ?res = "\<lparr>sp_path = p, captured = [], sp_size = 0, truncated = False\<rparr>"
    obtain out1 r1 s2 where l: "spool_loop rd env m r ?res s1 = Some (out1, r1, s2)"
      using b c p a by (auto simp: spool_body_def split: option.splits)
    obtain z where z: "spools_reach env dir m rd ?y1 z" "cs_os z = s2" "cs_task z i = Some (after_loop (out1, r1, s2))"
      using loop_alone [OF l, of ?y1 i dir] p a by (auto simp: start_task_def)
    note yz = spools_reach_trans [OF z(1) y1]
    show ?thesis
    proof (cases out1)
      case (Inl e)
      then show ?thesis using b c p a l z yz by (auto simp: spool_body_def after_loop_def)
    next
      case (Inr res)
      obtain t :: "'r task" and s3 where t: "close_task env m res s2 = (t, s3)" by fastforce
      have "spools_reach env dir m rd y (set_task i t s3 z)"
        using spools_reach.Step [OF yz spools_step.Close [of z i r1 res env m t s3]] z t Inr by (simp add: after_loop_def)
      moreover have "sp_path res = p" using loop_path [OF l [unfolded Inr]] by simp
      ultimately show ?thesis
        using b c p a l t Inr
        by (intro exI [of _ "set_task i t s3 z"])
          (auto simp: spool_body_def close_task_def split: sum.splits prod.splits)
    qed
  qed
qed

section \<open>The invariant\<close>

text \<open>What a task's file and memory hold: \<open>data\<close> is what it has read so far.\<close>

definition holds :: "(string \<rightharpoonup> bytes) \<Rightarrow> int64 \<Rightarrow> spooled_body \<Rightarrow> bytes \<Rightarrow> bool" where
  "holds F m res data \<longleftrightarrow>
     F (sp_path res) = Some data \<and> captured res = take (nat (sint m)) data \<and> sp_size res = of_nat (length data)"

definition task_ok ::
  "('r \<Rightarrow> bytes) \<Rightarrow> ('r \<Rightarrow> read_err) \<Rightarrow> (string \<rightharpoonup> bytes) \<Rightarrow> int64 \<Rightarrow> 'r \<Rightarrow> 'r task \<Rightarrow> bool" where
  "task_ok content ending F m body t \<longleftrightarrow>
     (case t of
        Copying r res \<Rightarrow> \<exists>pre. content body = pre @ content r \<and> ending body = ending r \<and> holds F m res pre
      | Closing r res \<Rightarrow> ending body = EOF \<and> holds F m res (content body)
      | Ready res \<Rightarrow> ending body = EOF \<and> holds F m res (content body) \<and> truncated res = (sint m < sint (sp_size res))
      | _ \<Rightarrow> True)"

definition spools_ok :: "('r \<Rightarrow> bytes) \<Rightarrow> ('r \<Rightarrow> read_err) \<Rightarrow> int64 \<Rightarrow> 'r spools \<Rightarrow> bool" where
  "spools_ok content ending m y \<longleftrightarrow>
     (\<forall>i t. cs_task y i = Some t \<longrightarrow> task_ok content ending (files (cs_os y)) m (cs_body y i) t) \<and>
     (\<forall>i j t u p. cs_task y i = Some t \<and> cs_task y j = Some u \<and> task_path t = Some p \<and> task_path u = Some p \<longrightarrow> i = j)"

lemma task_file: "task_ok content ending F m b t \<Longrightarrow> task_path t = Some p \<Longrightarrow> \<exists>d. F p = Some d"
  by (cases t) (auto simp: task_ok_def holds_def)

lemma spools_task_ok:
  "spools_ok content ending m y \<Longrightarrow> cs_task y i = Some t \<Longrightarrow>
   task_ok content ending (files (cs_os y)) m (cs_body y i) t"
  by (simp add: spools_ok_def)

lemma remove_other: "p \<noteq> q \<Longrightarrow> files (snd (remove_file env q s)) p = files s p"
  using fun_cong [OF files_remove(1) [of env q s], of p] by simp

text \<open>A task depends on its own file only.\<close>

lemma task_ok_local:
  "task_ok content ending F m b t \<Longrightarrow> (\<forall>p. task_path t = Some p \<longrightarrow> G p = F p) \<Longrightarrow> task_ok content ending G m b t"
  by (cases t) (auto simp: task_ok_def holds_def)

lemma spooling_holds: "spooling (F(sp_path res := None)) m pre res s \<longleftrightarrow> files s = F(sp_path res \<mapsto> pre) \<and> holds (files s) m res pre"
  by (auto simp: spooling_def holds_def)

text \<open>A step of task \<open>i\<close> on files \<open>Q\<close>, none of which another task owns, keeps the invariant.\<close>

lemma set_task_ok:
  assumes ok: "spools_ok content ending m y"
    and others: "\<And>j t q. j \<noteq> i \<Longrightarrow> cs_task y j = Some t \<Longrightarrow> q \<in> Q \<Longrightarrow> task_path t \<noteq> Some q"
    and frame: "\<And>p. p \<notin> Q \<Longrightarrow> files s p = files (cs_os y) p"
    and mine: "task_ok content ending (files s) m r t" "\<And>p. task_path t = Some p \<Longrightarrow> p \<in> Q"
  shows "spools_ok content ending m (set_task i t s (y\<lparr>cs_body := (cs_body y)(i := r)\<rparr>))"
proof -
  have other: "task_ok content ending (files s) m (cs_body y j) u" if "j \<noteq> i" "cs_task y j = Some u" for j u
  proof (rule task_ok_local)
    show "task_ok content ending (files (cs_os y)) m (cs_body y j) u" using ok that(2) by (simp add: spools_ok_def)
    show "\<forall>p. task_path u = Some p \<longrightarrow> files s p = files (cs_os y) p" using others [OF that] frame by metis
  qed
  have paths: "a = b" if "cs_task y a = Some u" "cs_task y b = Some v" "task_path u = Some p" "task_path v = Some p" for a b u v p
    using ok that unfolding spools_ok_def by blast
  have apart: "task_path u \<noteq> Some p" if "j \<noteq> i" "cs_task y j = Some u" "task_path t = Some p" for j u p
    using others [OF that(1,2) mine(2) [OF that(3)]] .
  show ?thesis
    using mine(1) other apart paths unfolding spools_ok_def by (auto split: if_splits)
qed

lemma other_path:
  assumes "spools_ok content ending m y" "cs_task y i = Some t" "task_path t = Some q" "j \<noteq> i" "cs_task y j = Some u"
  shows "task_path u \<noteq> Some q"
  using assms unfolding spools_ok_def by blast

lemma body_unchanged: "y\<lparr>cs_body := (cs_body y)(i := cs_body y i)\<rparr> = y"
  by simp

lemmas own_step_ok = set_task_ok [where r = "cs_body y i" and y = y and i = i for y i, unfolded body_unchanged]

context body_reader
begin

lemma copy_step_frame:
  assumes h: "holds (files s) m res pre"
  shows "case spool_step read env m r res s of
      Inr (r', res', s') \<Rightarrow> sp_path res' = sp_path res \<and> ending r = ending r' \<and>
        (\<exists>c. content r = c @ content r' \<and> holds (files s') m res' (pre @ c)) \<and> (\<forall>p. p \<noteq> sp_path res \<longrightarrow> files s' p = files s p)
    | Inl (Inr res', r', s') \<Rightarrow> sp_path res' = sp_path res \<and> ending r = EOF \<and>
        holds (files s') m res' (pre @ content r) \<and> (\<forall>p. p \<noteq> sp_path res \<longrightarrow> files s' p = files s p)
    | Inl (Inl e, r', s') \<Rightarrow> (\<forall>p. p \<noteq> sp_path res \<longrightarrow> files s' p = files s p)"
proof -
  let ?F = "(files s)(sp_path res := None)"
  have "spooling ?F m pre res s" using h by (auto simp: spooling_def holds_def fun_upd_idem)
  note o = spool_step_outcome [OF this, of env r]
  have cleared: "\<forall>p. p \<noteq> sp_path res \<longrightarrow> files s' p = files s p" if "(files s')(sp_path res := None) = ?F" for s'
    using fun_cong [OF that] by (metis fun_upd_apply)
  have stored: "(\<forall>p. p \<noteq> sp_path res \<longrightarrow> files s' p = files s p) \<and> holds (files s') m res' d"
    if "spooling ?F m d res' s'" "sp_path res' = sp_path res" for d res' s'
    using that by (simp add: spooling_def holds_def)
  show ?thesis
  proof (cases "spool_step read env m r res s")
    case (Inl fin)
    obtain out r' s' where fin: "fin = (out, r', s')" by (cases fin)
    show ?thesis
      using o cleared [of s'] stored [of "pre @ content r" _ s'] unfolding Inl fin
      by (cases out) (fastforce simp: spool_failed_def)+
  next
    case (Inr nx)
    obtain r' res' s' where nx: "nx = (r', res', s')" by (cases nx)
    show ?thesis
      using o stored [of _ res' s'] unfolding Inr nx by auto
  qed
qed

lemma spools_step_ok:
  assumes "spools_step env dir m read y z" and ok: "spools_ok content ending m y"
  shows "spools_ok content ending m z"
  using assms(1)
proof cases
  case (Create i created s r)
  have noone: "task_path t \<noteq> Some p" if "files (cs_os y) p = None" "cs_task y j = Some t" for p j t
    using ok that task_file unfolding spools_ok_def by (metis option.discI)
  show ?thesis
  proof (cases created)
    case (Inl e)
    then have f: "files s = files (cs_os y)" using Create(3) create_temp_files(1) by blast
    show ?thesis
      unfolding Create(1)
      by (rule set_task_ok [OF ok, where Q = "{}"]) (simp_all add: Inl f start_task_def task_ok_def)
  next
    case (Inr p)
    note f = create_temp_files(2) [OF Create(3) [unfolded Inr]]
    show ?thesis
      unfolding Create(1)
      by (rule set_task_ok [OF ok, where Q = "{p}"])
        (use f noone in \<open>auto simp: Inr start_task_def task_ok_def holds_def split: if_splits\<close>)
  qed
next
  case (Copy i r res r' res' s)
  obtain pre where h: "holds (files (cs_os y)) m res pre" "content (cs_body y i) = pre @ content r" "ending (cs_body y i) = ending r"
    using spools_task_ok [OF ok Copy(2)] by (auto simp: task_ok_def)
  note st = copy_step_frame [OF h(1), where env = env and r = r, unfolded Copy(3)]
  show ?thesis
    unfolding Copy(1)
    by (rule own_step_ok [OF ok, where Q = "{sp_path res}"])
      (use other_path [OF ok Copy(2)] st h in \<open>auto simp: task_ok_def\<close>)
next
  case (Leave i r res fin)
  obtain out r' s where fin: "fin = (out, r', s)" by (cases fin)
  obtain pre where h: "holds (files (cs_os y)) m res pre" "content (cs_body y i) = pre @ content r" "ending (cs_body y i) = ending r"
    using spools_task_ok [OF ok Leave(2)] by (auto simp: task_ok_def)
  note st = copy_step_frame [OF h(1), where env = env and r = r, unfolded Leave(3) fin]
  show ?thesis
    unfolding Leave(1) fin
    by (rule own_step_ok [OF ok, where Q = "{sp_path res}"])
      (use other_path [OF ok Leave(2)] st h in \<open>auto simp: after_loop_def task_ok_def split: sum.splits\<close>)
next
  case (Close i r res t s)
  have h: "ending (cs_body y i) = EOF" "holds (files (cs_os y)) m res (content (cs_body y i))"
    using spools_task_ok [OF ok Close(2)] by (auto simp: task_ok_def)
  obtain k s1 where k: "close_file env (cs_os y) = (k, s1)" by fastforce
  then have f1: "files s1 = files (cs_os y)" using files_close by (metis snd_conv)
  show ?thesis
    unfolding Close(1)
    by (rule own_step_ok [OF ok, where Q = "{sp_path res}"])
      (use other_path [OF ok Close(2)] h k f1 Close(3)
       in \<open>auto simp: close_task_def remove_other task_ok_def holds_def split: sum.splits if_splits\<close>)
next
  case (Reopen i res out s)
  have f: "files s = files (cs_os y)" using Reopen(3) files_open by (metis snd_conv spooled_open_def)
  have t: "task_ok content ending (files (cs_os y)) m (cs_body y i) (Ready res)"
    by (rule spools_task_ok [OF ok Reopen(2)])
  show ?thesis
    unfolding Reopen(1)
    by (rule own_step_ok [OF ok, where Q = "{sp_path res}"])
      (use other_path [OF ok Reopen(2)] in \<open>simp_all add: f t\<close>)
next
  case (Clean i res out s)
  have f: "files s p = files (cs_os y) p" if "p \<noteq> sp_path res" for p
    using Clean(3) remove_other [OF that, of env "cs_os y"] by (auto simp: spooled_cleanup_def split: if_splits)
  show ?thesis
    unfolding Clean(1)
    by (rule own_step_ok [OF ok, where Q = "{sp_path res}"])
      (use other_path [OF ok Clean(2)] in \<open>simp_all add: f task_ok_def\<close>)
qed

lemma spools_reach_ok:
  "spools_reach env dir m read y0 y \<Longrightarrow> cs_task y0 = Map.empty \<Longrightarrow> spools_ok content ending m y"
proof (induction rule: spools_reach.induct)
  case At_Start
  then show ?case by (simp add: spools_ok_def)
qed (use spools_step_ok in blast)

end

text \<open>
  C19: requests that spool their bodies at the same time do not disturb each other.  In every interleaving of
  their operations, with any failures, a task that is done has in its file exactly its own body, in memory
  its prefix and the true size and truncation mark, and no other task has the same file.
\<close>

theorem concurrent_spools_isolated:
  assumes "spools_reach env dir m (observed_read script_read) y0 y" "cs_task y0 = Map.empty" "cs_task y i = Some (Ready res)"
  shows "files (cs_os y) (sp_path res) = Some (script_content (inner (cs_body y i))) \<and>
    captured res = take (nat (sint m)) (script_content (inner (cs_body y i))) \<and>
    sp_size res = of_nat (length (script_content (inner (cs_body y i)))) \<and>
    truncated res = (sint m < sint (sp_size res)) \<and>
    {j. Option.bind (cs_task y j) task_path = Some (sp_path res)} = {i}"
proof -
  have ok: "spools_ok (\<lambda>r. script_content (inner r)) (\<lambda>r. script_ending (inner r)) m y"
    by (rule observed.spools_reach_ok [OF assms(1,2)])
  have "{j. Option.bind (cs_task y j) task_path = Some (sp_path res)} = {i}"
    using other_path [OF ok assms(3)] assms(3) by (auto simp: bind_eq_Some_conv)
  moreover have "task_ok (\<lambda>r. script_content (inner r)) (\<lambda>r. script_ending (inner r)) (files (cs_os y)) m (cs_body y i) (Ready res)"
    using spools_task_ok [OF ok assms(3)] by simp
  ultimately show ?thesis by (simp add: task_ok_def holds_def)
qed

section \<open>A concrete interleaving\<close>

text \<open>Task 1 creates its file while task 0 is in its copy loop; then task 0 reads the rest and is done.\<close>

definition named_env :: os_env where
  "named_env = quiet_env\<lparr>random_name := \<lambda>n. replicate (Suc n) CHR ''1''\<rparr>"

definition no_spools :: "body_script observed spools" where
  "no_spools = \<lparr>cs_os = empty_os, cs_task = Map.empty, cs_body = (\<lambda>_. sample_body)\<rparr>"

definition two_spools :: "body_script observed spools" where
  "two_spools =
     \<lparr>cs_os = \<lparr>files = [sample_path \<mapsto> ''abcde'', sample_path @ ''11'' \<mapsto> []], os_ticks = 5\<rparr>,
      cs_task = [0 \<mapsto> Ready sample_spooled,
                 1 \<mapsto> Copying sample_body \<lparr>sp_path = sample_path @ ''11'', captured = [], sp_size = 0, truncated = False\<rparr>],
      cs_body = (\<lambda>_. sample_body)\<rparr>"

lemma two_spools_reached: "spools_reach named_env '''' 3 (observed_read script_read) no_spools two_spools"
proof -
  let ?rd = "observed_read script_read"
  let ?R = "spools_reach named_env '''' 3 ?rd no_spools"
  let ?new = "\<lambda>p. \<lparr>sp_path = p, captured = [], sp_size = 0, truncated = False\<rparr>"
  let ?half = "\<lparr>sp_path = sample_path, captured = ''ab'', sp_size = 2, truncated = False\<rparr>"
  let ?rest = "sample_body\<lparr>inner := [(''cde'', Some EOF)], observed_sizes := [2]\<rparr>"
  let ?full = "\<lparr>sp_path = sample_path, captured = ''abc'', sp_size = 5, truncated = False\<rparr>"
  let ?q = "sample_path @ ''11''"
  note defs = create_temp_def create_try.simps join_path_def named_env_def quiet_env_def suffix_to_prefix os_tick_def
    buffer_capacity_def start_task_def set_task_def sample_path_def Let_def
  let ?y1 = "\<lparr>cs_os = \<lparr>files = [sample_path \<mapsto> []], os_ticks = 1\<rparr>, cs_task = [0 \<mapsto> Copying sample_body (?new sample_path)],
    cs_body = (\<lambda>_. sample_body)\<rparr>"
  let ?y2 = "\<lparr>cs_os = \<lparr>files = [sample_path \<mapsto> ''ab''], os_ticks = 2\<rparr>, cs_task = [0 \<mapsto> Copying ?rest ?half],
    cs_body = (\<lambda>_. sample_body)\<rparr>"
  let ?y3 = "\<lparr>cs_os = \<lparr>files = [sample_path \<mapsto> ''ab'', ?q \<mapsto> []], os_ticks = 3\<rparr>,
    cs_task = [0 \<mapsto> Copying ?rest ?half, 1 \<mapsto> Copying sample_body (?new ?q)], cs_body = (\<lambda>_. sample_body)\<rparr>"
  let ?y4 = "\<lparr>cs_os = \<lparr>files = [sample_path \<mapsto> ''abcde'', ?q \<mapsto> []], os_ticks = 4\<rparr>,
    cs_task = [0 \<mapsto> Closing (sample_body\<lparr>inner := [], observed_sizes := [2, 3]\<rparr>) ?full, 1 \<mapsto> Copying sample_body (?new ?q)],
    cs_body = (\<lambda>_. sample_body)\<rparr>"
  have "create_temp named_env '''' ''audit-pass-through-body-'' (cs_os no_spools) = (Inr sample_path, cs_os ?y1)"
    by (simp add: no_spools_def empty_os_def defs)
  from spools_step.Create [of no_spools 0, OF _ this, of 3 ?rd sample_body]
  have y1: "?R ?y1"
    by (intro spools_reach.Step [OF spools_reach.At_Start]) (simp add: no_spools_def empty_os_def defs fun_upd_idem)
  have "spool_step ?rd named_env 3 sample_body (?new sample_path) (cs_os ?y1) = Inr (?rest, ?half, cs_os ?y2)"
    by (simp add: spool_step_def observed_read_def copy_buffer_size_def write_file_def capture_chunk_def sample_body_def defs)
  from spools_step.Copy [of ?y1 0, OF _ this, of "''''"] have y2: "?R ?y2"
    by (intro spools_reach.Step [OF y1]) (simp add: set_task_def)
  have "create_temp named_env '''' ''audit-pass-through-body-'' (cs_os ?y2) = (Inr ?q, cs_os ?y3)"
    by (simp add: defs fun_eq_iff numeral_2_eq_2)
  from spools_step.Create [of ?y2 1, OF _ this, of 3 ?rd sample_body] have y3: "?R ?y3"
    by (intro spools_reach.Step [OF y2]) (simp add: start_task_def set_task_def buffer_capacity_def named_env_def quiet_env_def fun_upd_idem)
  have "spool_step ?rd named_env 3 ?rest ?half (cs_os ?y3) =
      Inl (Inr ?full, sample_body\<lparr>inner := [], observed_sizes := [2, 3]\<rparr>, cs_os ?y4)"
    by (simp add: spool_step_def observed_read_def copy_buffer_size_def write_file_def capture_chunk_def sample_body_def defs
        fun_upd_twist)
  from spools_step.Leave [of ?y3 0, OF _ this, of "''''"] have y4: "?R ?y4"
    by (intro spools_reach.Step [OF y3]) (simp add: after_loop_def set_task_def fun_upd_twist)
  have "close_task named_env 3 ?full (cs_os ?y4) = (Ready sample_spooled, cs_os two_spools)"
    by (simp add: close_task_def close_file_def two_spools_def sample_spooled_def named_env_def quiet_env_def os_tick_def)
  from spools_step.Close [of ?y4 0, OF _ this, where dir = "''''" and rd = ?rd] show ?thesis
    by (intro spools_reach.Step [OF y4]) (simp add: set_task_def two_spools_def fun_upd_twist)
qed

lemma concurrent_spools_isolated_witness:
  "files (cs_os two_spools) sample_path = Some ''abcde'' \<and> {j. Option.bind (cs_task two_spools j) task_path = Some sample_path} = {0}"
  using concurrent_spools_isolated [OF two_spools_reached, of 0 sample_spooled]
  by (simp add: no_spools_def two_spools_def sample_spooled_def sample_body_def)

end
