(* ===== verification/Spec2Isabelle.thy ===== *)
theory Spec2Isabelle
  imports Proxy_System Conn_Tracker Server_Shutdown Stream_Flush Concurrent_Spools
begin

text \<open>
  A model of \<open>apiservice-audit-proxy\<close>: a proxy between the aggregation layer of a Kubernetes API server and
  an aggregated API server (the backend).  It authenticates each request by the front proxy's certificate
  and headers, forwards it under the identity the backend is to see, and for every mutating resource
  request records an audit event that it posts to a webhook.

  \<^bold>\<open>The program and its model.\<close>  Below, a theory, the Go code it models and what its lemmas show.

  \<^item> \<open>Server_Config\<close>: \<open>config\<close>, \<open>parseFlags\<close> and its validations, \<open>splitCommaList\<close>, \<open>buildBackendTransport\<close>,
    \<open>buildServingTLSConfig\<close>, \<open>newHTTPServer\<close> and \<open>serve\<close> of \<open>cmd/server/main.go\<close>.  \<open>parse_flags\<close> accepts exactly the
    consistent configurations (\<open>parse_flags_accepts\<close>), and every configuration it accepts can be printed as a
    command line that it reads back (\<open>parse_flags_roundtrip\<close>, over \<open>Go_Flag\<close>, a model of Go's \<open>flag\<close> package whose three value syntaxes are
    instances of the locale \<open>value_codec\<close>).
  \<^item> \<open>Server_Startup\<close>: \<open>main\<close> up to its call of \<open>serve\<close>, \<open>startRequestHeaderTrust\<close>, \<open>waitForTrust\<close>, the probes,
    the routes, \<open>logStartupAssumptions\<close>.  \<open>startup_gate\<close>: nothing is served without a usable trust snapshot and
    verified headers.  \<open>Server_Shutdown\<close>: the metrics server, and the end of the process as a step relation.
  \<^item> \<open>Proxy_System\<close>: the program as a whole.  A state is the trust controller's snapshot, all snapshots it has held
    and the process; a step adopts a snapshot, serves a request that came in through the proxy's route, or
    runs a job.  \<open>backend_sees_only_authenticated\<close> and \<open>posted_events_well_formed\<close> hold in every state that
    can be reached from a successful start.
  \<^item> \<open>Identity_Extractor\<close>: \<open>pkg/identity/requestheader.go\<close> and \<open>cluster.go\<close>, the extractor and the trust
    controller it reads.
  \<^item> \<open>Proxy_Handler\<close>: \<open>NewHandler\<close>, \<open>ServeHTTP\<close>, \<open>serveAudited\<close>, the passthrough path and the audit job of
    \<open>pkg/proxy/handler.go\<close>.  The state of a request is the record \<open>exchange\<close> (the client's writer, the metric
    state, a hijacked connection) around the record \<open>process\<close> (operating system, metric log, log lines,
    milestones, clock ticks, started jobs, requests sent upstream, the network).  \<open>Handler_Accounting\<close>,
    \<open>Handler_Paths\<close> and \<open>Handler_Audit\<close> prove of it what \<open>serve_http_contract\<close> sums up: which path a request
    takes, what the backend and the client get, which job is started, which files and measurements remain.
    The transport's events are the reads of the request body and the 1xx responses of the backend, which the
    reverse proxy passes on through its trace hook (\<open>forward_1xx\<close>) and the audited path ignores.  A spooled body is
    read back through \<open>reopened\<close>, which may fail in the middle, for the upstream request as for the client.
  \<^item> \<open>Upstream_Request\<close> (\<open>buildUpstreamRequest\<close> and the \<open>Rewrite\<close> of the reverse proxy), \<open>Reverse_Proxy\<close> (the part of
    \<open>httputil.ReverseProxy\<close> that runs), \<open>Hop_Headers\<close> (\<open>copyHeaders\<close>, \<open>stripHopByHopHeaders\<close>, \<open>appendForwardedFor\<close>) and
    \<open>Backend_Identity\<close> (\<open>backend_identity.go\<close>): \<open>audited_header_fate\<close> determines every header at the backend.
    The locale \<open>backend_identity_contract\<close> is the \<open>BackendIdentity\<close> interface, with its two implementations
    and their sum as interpretations.
  \<^item> \<open>Body_Spool\<close> (\<open>body_spool.go\<close>) over \<open>Temp_Files\<close> (the file system) and \<open>Body_Reader\<close> (the locale
    \<open>body_reader\<close> for \<open>io.ReadCloser\<close>, instantiated by plain, observed and twice observed bodies):
    \<open>spoolBody\<close> ends and keeps the exact content or reports the cause; \<open>discarded\<close> and \<open>tidy\<close> say that a file stays
    only where removing it failed, or where the panic of \<open>make\<close> skips the removal.
    \<open>Concurrent_Spools\<close> interleaves the operations (create, one turn of the loop, close, clean up) of any number of
    such tasks, and
    \<open>spool_body_alone\<close> relates it to \<open>spool_body\<close>: exclusive creation keeps the tasks apart.
  \<^item> \<open>Request_Metrics\<close>, \<open>Response_Observer\<close> and \<open>Response_Copy\<close>: \<open>requestMetricState\<close>, \<open>metricResponseWriter\<close>, the
    observed bodies and the copy loops of \<open>handler.go\<close>; \<open>Telemetry\<close>: \<open>pkg/telemetry\<close>, a measurement being an
    entry of a log.  \<open>Stream_Flush\<close>: \<open>Flush\<close> and the flush interval; the copy loop refined by what the client
    has been sent, for bodies that never end.
  \<^item> \<open>Audit_Builder\<close>: \<open>pkg/audit/builder.go\<close>, over \<open>Go_Json\<close> (\<open>json.Valid\<close> and the syntax tree that decoding reads).
  \<^item> \<open>Webhook_Client\<close>: \<open>pkg/webhook/client.go\<close>; the locale \<open>event_sender\<close> is the \<open>Sender\<close> interface.
  \<^item> \<open>Audit_Pipeline\<close>: requests and jobs of one process in any order, against the webhook client.
    \<open>delivery_accounting\<close> and \<open>milestones_logged_once\<close> are invariants of every run; \<open>event_records_exchange\<close>
    follows one exchange from the request to the event.
  \<^item> \<open>Conn_Tracker\<close>: \<open>connStateTracker\<close>; the change of the map and its reports are separate steps, so the
    invariant covers every interleaving of callbacks.
  \<^item> \<open>Audit_Prelude\<close>, \<open>Go_Strings\<close>, \<open>Go_Url\<close>, \<open>Http_Header\<close>, \<open>Http_Message\<close>: bytes and strings, \<open>net/url\<close>,
    \<open>http.Header\<close> (with the locale \<open>header_store\<close>) and the messages.

  \<^bold>\<open>Conventions.\<close>  A Go string is a list of bytes.  \<open>int64\<close> and \<open>int32\<close> values are words where they are stored as such,
  and wrap; durations and instants are integers of nanoseconds.  Errors are values of a sum or an option
  type, with one constructor for each way the code fails.  A Go map that is iterated is an association list
  in the order of that iteration, and what should not depend on the order is proved for every order.  One
  \<open>ServeHTTP\<close> and one audit job are atomic steps of \<open>Audit_Pipeline\<close>: they share only the milestones and the
  instruments, which the code guards by \<open>sync.Once\<close> and by the SDK, and the directory of the temporary files, where
  \<open>Concurrent_Spools\<close> shows that the tasks do not meet.

  \<^bold>\<open>Parameters.\<close>  Code outside the repository is an argument of the definitions that use it: authenticators, the
  Kubernetes client and its controllers, the request-info resolver, the backend's transport, kubeconfig
  loading, the SDK's constructors, the TLS library, the clock, the scheduling of reads and writes, the UUID source,
  the decoding of \<open>metav1.Status\<close>, \<open>url.Parse\<close> of configured URLs, and the floating-point fraction of \<open>time.ParseDuration\<close>.
  No property assumes anything of them beyond what its statement says.

  \<^bold>\<open>Bounds.\<close>  The JSON scanner runs with fuel of one more than the length of the text, which is enough since each step
  consumes a byte, and with the decoder's nesting limit of 10000; \<open>os.CreateTemp\<close> gives up after 10000
  names; query parsing stops at 10000 parameters.  A body is a finite script of reads, so the copy loops
  recurse on it and end.  The one loop that may run forever, \<open>waitForTrust\<close>, is a \<open>partial_function\<close>, and
  \<open>wait_for_trust_spec\<close> says exactly when it does.

  \<^bold>\<open>What the model shows to be off.\<close>  The audited path drops a base path of the backend URL that the passthrough
  path keeps; X-Forwarded-For differs on the two paths; an audited request loses its upgrade; a Connection
  header can remove X-Remote-* headers; a blank truncated body is not annotated; the builder's limit is
  never read; \<open>streams_active\<close> carries an outcome; an unknown backend protocol is counted as \<open>other\<close>; a 1xx
  status is recorded in place of the final one (\<open>recorded_status\<close>); \<open>main\<close> returns without waiting for \<open>Shutdown\<close>.

  \<^bold>\<open>Not modelled.\<close>  Trailers, redirects (\<open>http.Client\<close> may follow one inside a \<open>Do\<close>; the model has one post for each
  \<open>Do\<close>), the plumbing of context keys and the copies made by \<open>Clone\<close> (values are immutable here), a second signal
  during shutdown, the panic of \<open>WriteHeader\<close> on codes below 100, the bytes tunnelled after a protocol switch
  (only that and how the connection is handed over), the attributes of log lines, the usage text of the flags, the
  inside of the two library controllers that the trust controller runs, the \<open>OPTIONS *\<close> request that \<open>net/http\<close>
  answers itself, tests, charts and scripts.
\<close>

end
